(* ===== verification/Prelude.thy ===== *)
theory Prelude
  imports Main "HOL-Library.Multiset"
begin

text \<open>
  Shared vocabulary of the Time Capsule development: the JavaScript array and string
  primitives the components call (\<open>Array.prototype.filter\<close> with an index predicate,
  \<open>String.prototype.startsWith\<close>, the truthiness of a string), and the generic list
  lemmas the component proofs share. The named collection \<open>js_simps\<close> gathers the
  characteristic equations of these primitives so that component proofs can say
  \<open>simp add: js_simps\<close>.
\<close>

named_theorems js_simps "characteristic equations of the modelled JavaScript primitives"

section \<open>Array.prototype.filter with an index predicate\<close>

text \<open>
  \<open>xs.filter((x, i) => p x i)\<close> visits the elements left to right with their index.
  \<open>filteri_from n\<close> is the same walk started at index \<open>n\<close>.
\<close>

fun filteri_from :: "('a \<Rightarrow> nat \<Rightarrow> bool) \<Rightarrow> nat \<Rightarrow> 'a list \<Rightarrow> 'a list" where
  "filteri_from p n [] = []"
| "filteri_from p n (x # xs) =
     (if p x n then x # filteri_from p (Suc n) xs else filteri_from p (Suc n) xs)"

definition filteri :: "('a \<Rightarrow> nat \<Rightarrow> bool) \<Rightarrow> 'a list \<Rightarrow> 'a list" where
  "filteri p xs = filteri_from p 0 xs"

text \<open>\<open>xs.filter((_, i) => i !== k)\<close>: the array without its \<open>k\<close>-th element.\<close>

definition remove_index :: "nat \<Rightarrow> 'a list \<Rightarrow> 'a list" where
  "remove_index k xs = filteri (\<lambda>_ i. i \<noteq> k) xs"

lemma filteri_from_keep_all:
  "k < n \<Longrightarrow> filteri_from (\<lambda>_ i. i \<noteq> k) n xs = xs"
  by (induction xs arbitrary: n) simp_all

lemma filteri_from_remove:
  "n \<le> k \<Longrightarrow> filteri_from (\<lambda>_ i. i \<noteq> k) n xs = take (k - n) xs @ drop (Suc (k - n)) xs"
proof (induction xs arbitrary: n)
  case Nil
  then show ?case by simp
next
  case (Cons x xs)
  show ?case
  proof (cases "k = n")
    case True
    then show ?thesis by (simp add: filteri_from_keep_all)
  next
    case False
    with Cons.prems have "Suc n \<le> k" by simp
    then have "filteri_from (\<lambda>_ i. i \<noteq> k) (Suc n) xs
            = take (k - Suc n) xs @ drop (Suc (k - Suc n)) xs" by (rule Cons.IH)
    moreover from \<open>Suc n \<le> k\<close> have "k - n = Suc (k - Suc n)" by simp
    ultimately show ?thesis using False by simp
  qed
qed

lemma remove_index_eq [js_simps]:
  "remove_index k xs = take k xs @ drop (Suc k) xs"
  using filteri_from_remove [of 0 k xs] by (simp add: remove_index_def filteri_def)

lemma length_remove_index [simp]:
  "length (remove_index k xs) = (if k < length xs then length xs - 1 else length xs)"
  by (simp add: remove_index_eq)

lemma nth_remove_index:
  "j < length (remove_index k xs) \<Longrightarrow>
   remove_index k xs ! j = xs ! (if j < k then j else Suc j)"
  by (auto simp: remove_index_eq nth_append min_def split: if_splits)

lemma remove_index_beyond [simp]:
  "length xs \<le> k \<Longrightarrow> remove_index k xs = xs"
  by (simp add: remove_index_eq)

lemma mset_remove_index:
  "k < length xs \<Longrightarrow> mset (remove_index k xs) = mset xs - {# xs ! k #}"
proof -
  assume k: "k < length xs"
  have "xs = take k xs @ xs ! k # drop (Suc k) xs"
    using k by (simp add: id_take_nth_drop)
  then have "mset xs = mset (take k xs @ drop (Suc k) xs) + {# xs ! k #}"
    by (metis add_mset_add_single mset.simps(2) mset_append union_mset_add_mset_right)
  then show ?thesis by (simp add: remove_index_eq)
qed

lemma length_filter_remove_index:
  "k < length xs \<Longrightarrow>
   length (filter P (remove_index k xs)) = length (filter P xs) - (if P (xs ! k) then 1 else 0)"
proof -
  assume k: "k < length xs"
  then have "xs = take k xs @ xs ! k # drop (Suc k) xs" by (simp add: id_take_nth_drop)
  then have "filter P xs = filter P (take k xs) @ filter P [xs ! k] @ filter P (drop (Suc k) xs)"
    by (metis filter_append append_Cons append_Nil)
  then show ?thesis by (simp add: remove_index_eq)
qed

lemma set_remove_index_subset: "set (remove_index k xs) \<subseteq> set xs"
  by (auto simp: remove_index_eq dest: in_set_takeD in_set_dropD)

lemma in_set_remove_index:
  "x \<in> set xs \<Longrightarrow> xs ! k \<noteq> x \<Longrightarrow> x \<in> set (remove_index k xs)"
proof (cases "k < length xs")
  case True
  assume x: "x \<in> set xs" and n: "xs ! k \<noteq> x"
  from True have "xs = take k xs @ xs ! k # drop (Suc k) xs" by (simp add: id_take_nth_drop)
  with x have "x \<in> set (take k xs) \<or> x = xs ! k \<or> x \<in> set (drop (Suc k) xs)"
    by (metis Un_iff set_ConsD set_append)
  with n show ?thesis by (auto simp: remove_index_eq)
qed simp

lemma mset_filter_remove_index:
  "k < length xs \<Longrightarrow>
   mset (filter P (remove_index k xs)) + (if P (xs ! k) then {# xs ! k #} else {#}) = mset (filter P xs)"
proof -
  assume k: "k < length xs"
  then have "xs = take k xs @ xs ! k # drop (Suc k) xs" by (simp add: id_take_nth_drop)
  then have "filter P xs = filter P (take k xs) @ filter P [xs ! k] @ filter P (drop (Suc k) xs)"
    by (metis filter_append append_Cons append_Nil)
  then show ?thesis by (simp add: remove_index_eq)
qed

lemma length_le_1_nonempty: "length xs \<le> 1 \<Longrightarrow> xs \<noteq> [] \<Longrightarrow> length xs = 1"
  by (cases xs) auto

text \<open>Floor division of \<open>int\<close> against a positive divisor.\<close>

lemma mult_le_iff_le_div_int:
  fixes x n k :: int assumes k: "0 < k"
  shows "x * k \<le> n \<longleftrightarrow> x \<le> n div k"
proof
  assume "x * k \<le> n"
  then have "x * k div k \<le> n div k" by (rule zdiv_mono1) (rule k)
  with k show "x \<le> n div k" by simp
next
  assume "x \<le> n div k"
  then have "x * k \<le> n div k * k" using k by (simp add: mult_right_mono)
  also have "\<dots> \<le> n" by (simp add: mult.commute minus_mod_eq_mult_div [symmetric] k)
  finally show "x * k \<le> n" .
qed

section \<open>Strings\<close>

text \<open>A JavaScript string is falsy exactly when it is empty: \<open>!email\<close>.\<close>

abbreviation js_falsy :: "string \<Rightarrow> bool" where
  "js_falsy s \<equiv> s = []"

text \<open>\<open>s.startsWith(p)\<close>.\<close>

definition startsWith :: "string \<Rightarrow> string \<Rightarrow> bool" where
  "startsWith s p \<longleftrightarrow> take (length p) s = p"

lemma startsWith_iff [js_simps]: "startsWith s p \<longleftrightarrow> (\<exists>r. s = p @ r)"
proof
  assume "startsWith s p"
  then have "s = p @ drop (length p) s"
    by (metis append_take_drop_id startsWith_def)
  then show "\<exists>r. s = p @ r" ..
next
  assume "\<exists>r. s = p @ r"
  then show "startsWith s p" by (auto simp: startsWith_def)
qed

lemma startsWith_append [simp]: "startsWith (p @ r) p"
  by (simp add: startsWith_def)

end
