(* ===== verification/Files.thy ===== *)
theory Files
  imports Prelude
begin

text \<open>
  The browser's \<open>File\<close> objects as the form sees them, and the \<open>FileReader\<close>'s
  \<open>readAsDataURL\<close> result: \<open>data:<type>;base64,<payload>\<close>. A file is its name, its
  declared media type (\<open>file.type\<close>) and its content bytes (naturals below 256). The
  image test of \<open>handleFileChange\<close> is \<open>file.type.startsWith('image/')\<close>.
\<close>

record File =
  name :: string
  type :: string
  bytes :: "nat list"

definition is_image :: "File \<Rightarrow> bool" where
  "is_image f \<longleftrightarrow> startsWith (type f) ''image/''"

section \<open>Base64 and data URLs\<close>

definition b64_char :: "nat \<Rightarrow> char" where
  "b64_char k = ''ABCDEFGHIJKLMNOPQRSTUVWXYZabcdefghijklmnopqrstuvwxyz0123456789+/'' ! k"

fun base64_encode :: "nat list \<Rightarrow> string" where
  "base64_encode [] = []"
| "base64_encode [a] =
     [b64_char (a div 4), b64_char (a mod 4 * 16), CHR ''='', CHR ''='']"
| "base64_encode [a, b] =
     [b64_char (a div 4), b64_char (a mod 4 * 16 + b div 16), b64_char (b mod 16 * 4), CHR ''='']"
| "base64_encode (a # b # c # rest) =
     [b64_char (a div 4), b64_char (a mod 4 * 16 + b div 16),
      b64_char (b mod 16 * 4 + c div 64), b64_char (c mod 64)] @ base64_encode rest"

text \<open>
  \<open>reader.readAsDataURL(file)\<close> completes with this string; a file with no declared
  type is read as \<open>application/octet-stream\<close>.
\<close>

definition data_url :: "File \<Rightarrow> string" where
  "data_url f =
     ''data:'' @ (if type f = [] then ''application/octet-stream'' else type f) @ '';base64,''
     @ base64_encode (bytes f)"

lemma data_url_prefix [simp]: "startsWith (data_url f) ''data:''"
  unfolding data_url_def by (rule startsWith_append)

lemma length_base64_encode: "length (base64_encode bs) = 4 * ((length bs + 2) div 3)"
proof (induction bs rule: base64_encode.induct)
  case (4 a b c rest)
  have "(5 + length rest) div 3 = Suc (Suc (Suc (length rest)) div 3)" by presburger
  with 4 show ?case by simp
qed simp_all

end
