(* ===== verification/Form.thy ===== *)
theory Form
  imports Files
begin

text \<open>
  The state of one mounted \<open>TimeCapsuleForm\<close> (src/components/TimeCapsuleForm.tsx):
  its seven \<open>useState\<close> hooks. The first four are exactly the fields of
  \<open>TimeCapsuleData\<close> (imported from \<open>../types\<close>, a file of the repository that is not
  under src/, modelled from its use and the spec's CapsuleRecord), so the form state
  is that record extended with the preview list, the busy flag and the error text.
  \<open>previews\<close> is a JavaScript \<open>string[]\<close> whose entries are either the placeholder
  \<open>'non-image'\<close>, a data URL, or \<open>null\<close> (the \<open>reader.result\<close> of a failed read,
  cast to string): \<open>string option\<close>, \<open>None\<close> for \<open>null\<close>.
\<close>

record TimeCapsuleData =
  email :: string
  letter :: string
  deliveryDate :: string
  files :: "File list"

record form_state = TimeCapsuleData +
  previews :: "string option list"
  isLoading :: bool
  error :: string

text \<open>The initial values of the hooks: a freshly mounted form.\<close>

definition initial_form :: form_state where
  "initial_form =
     \<lparr>email = [], letter = [], deliveryDate = [], files = [], previews = [],
      isLoading = False, error = []\<rparr>"

text \<open>\<open>{ email, letter, deliveryDate, files }\<close>, the object passed to \<open>onFormSubmit\<close>.\<close>

definition submitted_data :: "form_state \<Rightarrow> TimeCapsuleData" where
  "submitted_data st =
     \<lparr>email = email st, letter = letter st, deliveryDate = deliveryDate st, files = files st\<rparr>"

lemma submitted_data_fields [simp]:
  "email (submitted_data st) = email st"
  "letter (submitted_data st) = letter st"
  "deliveryDate (submitted_data st) = deliveryDate st"
  "files (submitted_data st) = files st"
  by (simp_all add: submitted_data_def)

end
