(* ===== verification/Attachments.thy ===== *)
theory Attachments
  imports Form
begin

text \<open>
  The attachment preview pipeline of \<open>TimeCapsuleForm\<close>: \<open>handleFileChange\<close>
  appends the selected files and, per file, either queues the placeholder preview
  (non-image) or starts a \<open>FileReader\<close> (image) whose \<open>onloadend\<close> appends the
  result later; \<open>removeFile\<close> drops one index from both arrays; the render maps each
  preview to a tile labelled with \<open>files[index].name\<close>. The asynchronous reads are
  returned to the caller (the event loop of theory Workflow), which completes them in
  any order.
\<close>

definition placeholder :: "string option" where
  "placeholder = Some ''non-image''"

section \<open>handleFileChange\<close>

text \<open>
  \<open>selectedFiles.forEach(...)\<close>: an image starts a reader (collected in start order);
  any other file queues \<open>setPreviews(prev => [...prev, 'non-image'])\<close>.
\<close>

fun preview_each :: "File list \<Rightarrow> form_state \<Rightarrow> File list \<Rightarrow> form_state \<times> File list" where
  "preview_each [] st started = (st, started)"
| "preview_each (f # fs) st started =
     (if is_image f then preview_each fs st (started @ [f])
      else preview_each fs (st\<lparr>previews := previews st @ [placeholder]\<rparr>) started)"

definition handleFileChange :: "File list \<Rightarrow> form_state \<Rightarrow> form_state \<times> File list" where
  "handleFileChange selectedFiles st =
     preview_each selectedFiles (st\<lparr>files := files st @ selectedFiles\<rparr>) []"

text \<open>
  \<open>reader.onloadend\<close>: fires on success and on failure alike and appends
  \<open>reader.result\<close>, the data URL or \<open>null\<close>.
\<close>

definition reader_onloadend :: "string option \<Rightarrow> form_state \<Rightarrow> form_state" where
  "reader_onloadend result st = st\<lparr>previews := previews st @ [result]\<rparr>"

definition read_result :: "File \<Rightarrow> bool \<Rightarrow> string option" where
  "read_result f ok = (if ok then Some (data_url f) else None)"

section \<open>removeFile\<close>

definition removeFile :: "nat \<Rightarrow> form_state \<Rightarrow> form_state" where
  "removeFile index st =
     st\<lparr>files := remove_index index (files st), previews := remove_index index (previews st)\<rparr>"

section \<open>The memories grid\<close>

text \<open>
  One tile per preview: the document icon when the preview is \<open>'non-image'\<close>, an
  \<open><img src={preview}>\<close> otherwise, captioned with \<open>files[index].name\<close>. Reading
  \<open>.name\<close> of an index past the end of \<open>files\<close> throws a \<open>TypeError\<close>, modelled as
  \<open>None\<close>; the grid is rendered only when \<open>files.length > 0\<close>.
\<close>

datatype tile = DocumentTile string | ImageTile "string option" string

fun render_tiles :: "File list \<Rightarrow> nat \<Rightarrow> string option list \<Rightarrow> tile list option" where
  "render_tiles fs i [] = Some []"
| "render_tiles fs i (p # ps) =
     (if i < length fs then
        (let label = name (fs ! i);
             t = (if p = placeholder then DocumentTile label else ImageTile p label)
         in map_option (Cons t) (render_tiles fs (Suc i) ps))
      else None)"

definition render_memories :: "form_state \<Rightarrow> tile list option" where
  "render_memories st =
     (if files st = [] then Some [] else render_tiles (files st) 0 (previews st))"

section \<open>Lemmas\<close>

lemma preview_each_fields [simp]:
  "email (fst (preview_each fs st r)) = email st"
  "letter (fst (preview_each fs st r)) = letter st"
  "deliveryDate (fst (preview_each fs st r)) = deliveryDate st"
  "files (fst (preview_each fs st r)) = files st"
  "isLoading (fst (preview_each fs st r)) = isLoading st"
  "error (fst (preview_each fs st r)) = error st"
  by (induction fs st r rule: preview_each.induct) simp_all

text \<open>What the loop adds: one placeholder per non-image file, one read per image.\<close>

lemma preview_each_eq:
  "preview_each fs st r =
     (st\<lparr>previews := previews st @ replicate (length (filter (Not \<circ> is_image) fs)) placeholder\<rparr>,
      r @ filter is_image fs)"
  by (induction fs st r rule: preview_each.induct) (simp_all add: replicate_append_same [symmetric])

lemma handleFileChange_eq:
  "handleFileChange sel st =
     (st\<lparr>files := files st @ sel,
         previews := previews st @ replicate (length (filter (Not \<circ> is_image) sel)) placeholder\<rparr>,
      filter is_image sel)"
  by (simp add: handleFileChange_def preview_each_eq)

lemma render_tiles_Some_iff:
  "render_tiles fs i ps \<noteq> None \<longleftrightarrow> i + length ps \<le> length fs \<or> ps = []"
  by (induction fs i ps rule: render_tiles.induct) (auto simp: Let_def)

lemma length_render_tiles:
  "render_tiles fs i ps = Some ts \<Longrightarrow> length ts = length ps"
  by (induction fs i ps arbitrary: ts rule: render_tiles.induct) (auto simp: Let_def split: if_splits)

text \<open>The tile at index \<open>j\<close> of the grid: the \<open>j\<close>-th preview, captioned with the \<open>j\<close>-th name.\<close>

lemma render_tiles_nth:
  "render_tiles fs i ps = Some ts \<Longrightarrow> j < length ps \<Longrightarrow>
   ts ! j = (if ps ! j = placeholder then DocumentTile (name (fs ! (i + j)))
             else ImageTile (ps ! j) (name (fs ! (i + j))))"
proof (induction fs i ps arbitrary: ts j rule: render_tiles.induct)
  case (1 fs i)
  then show ?case by simp
next
  case (2 fs i p ps)
  then obtain ts' where ts: "render_tiles fs (Suc i) ps = Some ts'"
    "ts = (if p = placeholder then DocumentTile (name (fs ! i)) else ImageTile p (name (fs ! i))) # ts'"
    by (auto simp: Let_def split: if_splits)
  have i: "i < length fs" using "2.prems"(1) by (simp split: if_splits)
  show ?case
  proof (cases j)
    case 0
    with ts show ?thesis by simp
  next
    case (Suc j')
    with "2.prems"(2) have "j' < length ps" by simp
    from "2.IH" [OF i refl refl ts(1) this] ts Suc show ?thesis by simp
  qed
qed

lemma render_memories_nth:
  assumes "length (previews st) \<le> length (files st)" "j < length (previews st)"
  shows "\<exists>ts. render_memories st = Some ts \<and>
           ts ! j = (if previews st ! j = placeholder then DocumentTile (name (files st ! j))
                     else ImageTile (previews st ! j) (name (files st ! j)))"
proof -
  from assms have f: "files st \<noteq> []" by auto
  with assms(1) obtain ts where ts: "render_tiles (files st) 0 (previews st) = Some ts"
    using render_tiles_Some_iff [of "files st" 0 "previews st"] by auto
  with f have "render_memories st = Some ts" by (simp add: render_memories_def)
  with render_tiles_nth [OF ts assms(2)] show ?thesis by simp
qed

text \<open>
  What the spec asks the preview of a file to be: a thumbnail (its data URL) for an
  image, the placeholder for any other file.
\<close>

definition expected_preview :: "File \<Rightarrow> string option" where
  "expected_preview f = (if is_image f then Some (data_url f) else placeholder)"

lemma mset_map_expected_preview:
  "mset (map expected_preview fs) =
     replicate_mset (length (filter (Not \<circ> is_image) fs)) placeholder
     + mset (map (\<lambda>f. Some (data_url f)) (filter is_image fs))"
  by (induction fs) (auto simp: expected_preview_def)

lemma placeholders_of_expected:
  "length (filter (\<lambda>p. p = placeholder) (map expected_preview fs))
   = length (filter (Not \<circ> is_image) fs)"
  by (induction fs) (auto simp: expected_preview_def placeholder_def data_url_def)

section \<open>Properties of removal\<close>

text \<open>
  C9. Removing the tile at index k (an index of the grid, with no more previews than
  files) removes exactly one entry from both arrays, shifts every later entry down by
  one, keeps every earlier entry, and leaves the rest of the form unchanged.
\<close>

theorem removeFile_shifts:
  assumes k: "k < length (previews st)" and le: "length (previews st) \<le> length (files st)"
  shows "length (files (removeFile k st)) = length (files st) - 1 \<and>
         length (previews (removeFile k st)) = length (previews st) - 1 \<and>
         (\<forall>j < length (files st) - 1.
            files (removeFile k st) ! j = files st ! (if j < k then j else Suc j)) \<and>
         (\<forall>j < length (previews st) - 1.
            previews (removeFile k st) ! j = previews st ! (if j < k then j else Suc j)) \<and>
         email (removeFile k st) = email st \<and> letter (removeFile k st) = letter st \<and>
         deliveryDate (removeFile k st) = deliveryDate st \<and>
         isLoading (removeFile k st) = isLoading st \<and> error (removeFile k st) = error st"
  using k le by (auto simp: removeFile_def nth_remove_index)

theorem removeFile_shifts_witness:
  "files (removeFile 0 (initial_form\<lparr>files := [\<lparr>name = ''a'', type = [], bytes = []\<rparr>,
       \<lparr>name = ''b'', type = [], bytes = []\<rparr>], previews := [placeholder, placeholder]\<rparr>))
   = [\<lparr>name = ''b'', type = [], bytes = []\<rparr>]"
proof -
  let ?st = "initial_form\<lparr>files := [\<lparr>name = ''a'', type = [], bytes = []\<rparr>,
       \<lparr>name = ''b'', type = [], bytes = []\<rparr>], previews := [placeholder, placeholder]\<rparr>"
  have "0 < length (previews ?st)" "length (previews ?st) \<le> length (files ?st)" by simp_all
  from removeFile_shifts [OF this] have
    "length (files (removeFile 0 ?st)) = 1" "files (removeFile 0 ?st) ! 0 = files ?st ! 1" by simp_all
  then show ?thesis by (cases "files (removeFile 0 ?st)") simp_all
qed

end
