(* ===== verification/JsDate.thy ===== *)
theory JsDate
  imports Prelude
begin

text \<open>
  The parts of the JavaScript \<open>Date\<close> built-in that the components rely on: parsing a
  string in the ECMAScript Date Time String Format (\<open>new Date("2026-01-05")\<close>, read
  as UTC midnight), comparing time values where an unparsable date is \<open>NaN\<close>,
  recognising the \<open>YYYY-MM-DD\<close> value of a date input, printing the date part of
  \<open>toISOString()\<close>, and the \<open>en-US\<close> long form of \<open>toLocaleDateString\<close>. Time values
  are milliseconds since the epoch as \<open>int\<close>; a calendar date is a triple
  (year, month, day). Day numbers and civil dates are converted with the
  era-based closed formulas (proleptic Gregorian calendar, as ECMAScript prescribes).
\<close>

definition ms_per_day :: int where
  "ms_per_day = 86400000"

section \<open>Calendar\<close>

definition is_leap :: "int \<Rightarrow> bool" where
  "is_leap y \<longleftrightarrow> (y mod 4 = 0 \<and> y mod 100 \<noteq> 0) \<or> y mod 400 = 0"

definition days_in_month :: "int \<Rightarrow> int \<Rightarrow> int" where
  "days_in_month y m =
     (if m = 2 then (if is_leap y then 29 else 28)
      else if m = 4 \<or> m = 6 \<or> m = 9 \<or> m = 11 then 30 else 31)"

text \<open>Day number (days since 1970-01-01) of a civil date.\<close>

definition days_from_civil :: "int \<Rightarrow> int \<Rightarrow> int \<Rightarrow> int" where
  "days_from_civil y m d =
     (let y' = (if m \<le> 2 then y - 1 else y);
          era = y' div 400;
          yoe = y' mod 400;
          doy = (153 * (if 2 < m then m - 3 else m + 9) + 2) div 5 + d - 1;
          doe = yoe * 365 + yoe div 4 - yoe div 100 + doy
      in era * 146097 + doe - 719468)"

text \<open>Civil date of a day number.\<close>

definition civil_from_days :: "int \<Rightarrow> int \<times> int \<times> int" where
  "civil_from_days z =
     (let z' = z + 719468;
          era = z' div 146097;
          doe = z' mod 146097;
          yoe = (doe - doe div 1460 + doe div 36524 - doe div 146096) div 365;
          doy = doe - (365 * yoe + yoe div 4 - yoe div 100);
          mp = (5 * doy + 2) div 153;
          d = doy - (153 * mp + 2) div 5 + 1;
          m = (if mp < 10 then mp + 3 else mp - 9)
      in (yoe + era * 400 + (if m \<le> 2 then 1 else 0), m, d))"

section \<open>Decimal digits\<close>

definition digit_of :: "char \<Rightarrow> nat option" where
  "digit_of c = (let n = of_char c in if 48 \<le> n \<and> n \<le> (57::nat) then Some (n - 48) else None)"

fun digits_val :: "nat \<Rightarrow> string \<Rightarrow> nat option" where
  "digits_val acc [] = Some acc"
| "digits_val acc (c # cs) =
     (case digit_of c of None \<Rightarrow> None | Some k \<Rightarrow> digits_val (10 * acc + k) cs)"

definition parse_nat :: "string \<Rightarrow> nat option" where
  "parse_nat s = (if s = [] then None else digits_val 0 s)"

definition digit_char :: "nat \<Rightarrow> char" where
  "digit_char k = ''0123456789'' ! k"

fun show_nat :: "nat \<Rightarrow> string" where
  "show_nat n =
     (if n < 10 then [digit_char n] else show_nat (n div 10) @ [digit_char (n mod 10)])"

declare show_nat.simps [simp del]

definition pad_nat :: "nat \<Rightarrow> nat \<Rightarrow> string" where
  "pad_nat w n = replicate (w - length (show_nat n)) (CHR ''0'') @ show_nat n"

section \<open>The value of a date input\<close>

text \<open>
  A valid date string of HTML with a four-digit year, \<open>YYYY-MM-DD\<close>: the only
  non-empty value an \<open><input type="date">\<close> holds, and the \<open>min\<close> attribute's format.
  A string that does not match, or whose month or day is out of range, is \<open>None\<close>.
\<close>

definition parse_iso_date :: "string \<Rightarrow> (int \<times> int \<times> int) option" where
  "parse_iso_date s =
     (if length s = 10 \<and> s ! 4 = CHR ''-'' \<and> s ! 7 = CHR ''-'' then
        (case (parse_nat (take 4 s), parse_nat (take 2 (drop 5 s)), parse_nat (drop 8 s)) of
           (Some y, Some m, Some d) \<Rightarrow>
             (if 1 \<le> m \<and> m \<le> 12 \<and> 1 \<le> d \<and> int d \<le> days_in_month (int y) (int m)
              then Some (int y, int m, int d) else None)
         | _ \<Rightarrow> None)
      else None)"

section \<open>Parsing: \<open>new Date(s)\<close>\<close>

text \<open>
  \<open>new Date(s)\<close> on a string reads the ECMAScript Date Time String Format:
  \<open>YYYY\<close>, \<open>YYYY-MM\<close> or \<open>YYYY-MM-DD\<close> (a year may also be \<open>+YYYYYY\<close> or
  \<open>-YYYYYY\<close>, not \<open>-000000\<close>), optionally followed by \<open>THH:mm\<close>, \<open>:ss\<close>, \<open>.sss\<close> and
  an offset \<open>Z\<close> or \<open>+HH:mm\<close>/\<open>-HH:mm\<close>. Absent fields are \<open>01\<close> or \<open>00\<close>; every field
  must be in range (hour 24 only as 24:00:00.000). A date-only form is UTC; a date-time
  without offset is local time, and the model's local time zone is UTC. A time value
  beyond 8.64e15 ms is \<open>NaN\<close> (TimeClip). A string outside the format is \<open>NaN\<close>, here
  \<open>None\<close>: the language leaves such strings to implementation heuristics, and the model
  is an engine without them. Each piece below reads a prefix and returns its value and
  the rest of the string.
\<close>

definition p_digits :: "nat \<Rightarrow> string \<Rightarrow> (nat \<times> string) option" where
  "p_digits n s =
     (if n \<le> length s then map_option (\<lambda>v. (v, drop n s)) (parse_nat (take n s)) else None)"

fun p_char :: "char \<Rightarrow> string \<Rightarrow> string option" where
  "p_char c [] = None"
| "p_char c (x # r) = (if x = c then Some r else None)"

definition p_year :: "string \<Rightarrow> (int \<times> string) option" where
  "p_year s =
     (case s of
        [] \<Rightarrow> None
      | c # r \<Rightarrow>
          (if c = CHR ''+'' \<or> c = CHR ''-'' then
             (case p_digits 6 r of
                None \<Rightarrow> None
              | Some (v, r') \<Rightarrow>
                  (if c = CHR ''-'' \<and> v = 0 then None
                   else Some (if c = CHR ''-'' then - int v else int v, r')))
           else map_option (\<lambda>(v, r'). (int v, r')) (p_digits 4 s)))"

text \<open>An optional \<open>-NN\<close> field: absent, it is \<open>dflt\<close> and nothing is read.\<close>

definition p_field :: "char \<Rightarrow> nat \<Rightarrow> string \<Rightarrow> nat \<times> string" where
  "p_field sep dflt s =
     (case p_char sep s of
        None \<Rightarrow> (dflt, s)
      | Some r \<Rightarrow> (case p_digits 2 r of None \<Rightarrow> (dflt, s) | Some (v, r') \<Rightarrow> (v, r')))"

definition p_date :: "string \<Rightarrow> ((int \<times> nat \<times> nat) \<times> string) option" where
  "p_date s =
     (case p_year s of
        None \<Rightarrow> None
      | Some (y, r) \<Rightarrow>
          (case p_char CHR ''-'' r of
             None \<Rightarrow> Some ((y, 1, 1), r)
           | Some _ \<Rightarrow>
               (case p_field CHR ''-'' 0 r of
                  (m, r2) \<Rightarrow>
                    (if r2 = r then None
                     else (case p_field CHR ''-'' 1 r2 of (d, r3) \<Rightarrow> Some ((y, m, d), r3))))))"

text \<open>\<open>THH:mm[:ss[.sss]]\<close>: milliseconds since midnight, or \<open>None\<close> out of range.\<close>

definition p_time :: "string \<Rightarrow> (int \<times> string) option" where
  "p_time s =
     (case p_char CHR ''T'' s of
        None \<Rightarrow> None
      | Some r \<Rightarrow>
          (case p_digits 2 r of
             None \<Rightarrow> None
           | Some (hh, r1) \<Rightarrow>
               (case p_char CHR '':'' r1 of
                  None \<Rightarrow> None
                | Some r2 \<Rightarrow>
                    (case p_digits 2 r2 of
                       None \<Rightarrow> None
                     | Some (mi, r3) \<Rightarrow>
                         (case p_field CHR '':'' 0 r3 of
                            (ss, r4) \<Rightarrow>
                              (let (ms, r5) = (if r4 = r3 then (0, r4)
                                               else (case p_char CHR ''.'' r4 of
                                                       None \<Rightarrow> (0, r4)
                                                     | Some r6 \<Rightarrow>
                                                         (case p_digits 3 r6 of
                                                            None \<Rightarrow> (0, r4)
                                                          | Some (v, r7) \<Rightarrow> (v, r7))))
                               in if mi \<le> 59 \<and> ss \<le> 59 \<and>
                                     (hh < 24 \<or> (hh = 24 \<and> mi = 0 \<and> ss = 0 \<and> ms = 0))
                                  then Some (int (((hh * 60 + mi) * 60 + ss) * 1000 + ms), r5)
                                  else None))))))"

text \<open>The offset at the end: none (local time), \<open>Z\<close>, or \<open>+HH:mm\<close>/\<open>-HH:mm\<close>.\<close>

definition p_offset :: "string \<Rightarrow> int option" where
  "p_offset s =
     (if s = [] then Some 0
      else if s = ''Z'' then Some 0
      else (case s of
              c # r \<Rightarrow>
                (if c = CHR ''+'' \<or> c = CHR ''-'' then
                   (case p_digits 2 r of
                      Some (hh, r1) \<Rightarrow>
                        (case p_char CHR '':'' r1 of
                           Some r2 \<Rightarrow>
                             (case p_digits 2 r2 of
                                Some (mi, []) \<Rightarrow>
                                  (if hh \<le> 23 \<and> mi \<le> 59
                                   then Some ((if c = CHR ''-'' then -1 else 1) * int ((hh * 60 + mi) * 60000))
                                   else None)
                              | _ \<Rightarrow> None)
                         | None \<Rightarrow> None)
                    | None \<Rightarrow> None)
                 else None)
            | [] \<Rightarrow> None))"

definition time_clip :: "int \<Rightarrow> int option" where
  "time_clip t = (if \<bar>t\<bar> \<le> 8640000000000000 then Some t else None)"

definition js_date_parse :: "string \<Rightarrow> int option" where
  "js_date_parse s =
     (case p_date s of
        None \<Rightarrow> None
      | Some ((y, m, d), r) \<Rightarrow>
          (if 1 \<le> m \<and> m \<le> 12 \<and> 1 \<le> d \<and> int d \<le> days_in_month y (int m) then
             (let day = days_from_civil y (int m) (int d) * ms_per_day
              in if r = [] then time_clip day
                 else (case p_time r of
                         None \<Rightarrow> None
                       | Some (t, r') \<Rightarrow>
                           (case p_offset r' of None \<Rightarrow> None | Some off \<Rightarrow> time_clip (day + t - off))))
           else None))"

text \<open>\<open>a <= b\<close> on two dates: false when either is \<open>NaN\<close>.\<close>

fun js_date_le :: "int option \<Rightarrow> int \<Rightarrow> bool" where
  "js_date_le None now = False"
| "js_date_le (Some t) now = (t \<le> now)"

text \<open>The equations that evaluate a parse on a concrete string by \<open>simp\<close>.\<close>

lemmas date_parse_eval =
  js_date_parse_def p_date_def p_year_def p_field_def p_digits_def p_time_def p_offset_def
  time_clip_def parse_iso_date_def parse_nat_def digit_of_def days_in_month_def
  is_leap_def days_from_civil_def ms_per_day_def

text \<open>Comparing a UTC midnight with a clock value is comparing days.\<close>

text \<open>
  A date-only \<open>YYYY-MM-DD\<close> string is read by \<open>new Date\<close> as UTC midnight of its day;
  four-digit years stay far inside the TimeClip range.
\<close>

lemma day_ms_bound_arith:
  fixes e Y a b D :: int
  assumes "-1 \<le> e" "e \<le> 24" "0 \<le> Y" "Y \<le> 399" "0 \<le> a" "a \<le> 99" "0 \<le> b" "b \<le> 3"
    "0 \<le> D" "D \<le> 400"
  shows "\<bar>(e * 146097 + (Y * 365 + a - b + D) - 719468) * 86400000\<bar> \<le> 8640000000000000"
  using assms by (simp add: abs_le_iff)

lemma days_from_civil_clip:
  assumes y: "0 \<le> y" "y \<le> 9999" and m: "1 \<le> m" "m \<le> 12" and d: "1 \<le> d" "d \<le> 31"
  shows "time_clip (days_from_civil y m d * ms_per_day) = Some (days_from_civil y m d * ms_per_day)"
proof -
  define y' where "y' = (if m \<le> 2 then y - 1 else y)"
  define D where "D = (153 * (if 2 < m then m - 3 else m + 9) + 2) div 5 + d - 1"
  have y': "-1 \<le> y'" "y' \<le> 9999" using y by (simp_all add: y'_def)
  have e: "-1 \<le> y' div 400" "y' div 400 \<le> 24"
    using zdiv_mono1 [OF y'(1), of 400] zdiv_mono1 [OF y'(2), of 400] by simp_all
  have Y: "0 \<le> y' mod 400" "y' mod 400 \<le> 399" by simp_all
  have a: "0 \<le> y' mod 400 div 4" "y' mod 400 div 4 \<le> 99"
    using zdiv_mono1 [OF Y(2), of 4] Y(1) by simp_all
  have b: "0 \<le> y' mod 400 div 100" "y' mod 400 div 100 \<le> 3"
    using zdiv_mono1 [OF Y(2), of 100] Y(1) by simp_all
  define mm where "mm = (if 2 < m then m - 3 else m + 9)"
  have mm: "0 \<le> mm" "mm \<le> 11" using m by (simp_all add: mm_def)
  have q: "0 \<le> (153 * mm + 2) div 5" "(153 * mm + 2) div 5 \<le> 337"
    using zdiv_mono1 [of "153 * mm + 2" 1687 5] mm by simp_all
  have DD: "0 \<le> D" "D \<le> 400" using q d by (simp_all add: D_def mm_def [symmetric])
  have "days_from_civil y m d = y' div 400 * 146097 + (y' mod 400 * 365 + y' mod 400 div 4 - y' mod 400 div 100 + D) - 719468"
    by (simp add: days_from_civil_def Let_def y'_def D_def)
  with day_ms_bound_arith [OF e Y a b DD] show ?thesis by (simp add: time_clip_def ms_per_day_def)
qed

lemma length_10_cases:
  "length s = 10 \<Longrightarrow> \<exists>c0 c1 c2 c3 c4 c5 c6 c7 c8 c9. s = [c0, c1, c2, c3, c4, c5, c6, c7, c8, c9]"
  by (simp add: length_Suc_conv numeral_eq_Suc) blast

lemma p_date_iso:
  assumes p: "parse_iso_date s = Some (y, m, d)"
  shows "p_date (s @ r) = Some ((y, nat m, nat d), r) \<and> 0 \<le> y \<and> y \<le> 9999 \<and>
         1 \<le> m \<and> m \<le> 12 \<and> 1 \<le> d \<and> d \<le> days_in_month y m"
proof -
  from p have l: "length s = 10" and c4: "s ! 4 = CHR ''-''" and c7: "s ! 7 = CHR ''-''"
    by (auto simp: parse_iso_date_def split: if_splits)
  from length_10_cases [OF l] obtain c0 c1 c2 c3 c5 c6 c8 c9 c4' c7' where
    s: "s = [c0, c1, c2, c3, c4', c5, c6, c7', c8, c9]" by blast
  from p s c4 c7 obtain Y M D where
    y: "parse_nat [c0, c1, c2, c3] = Some Y" and mo: "parse_nat [c5, c6] = Some M"
    and da: "parse_nat [c8, c9] = Some D" and v: "y = int Y" "m = int M" "d = int D"
    and r: "1 \<le> M" "M \<le> 12" "1 \<le> D" "int D \<le> days_in_month (int Y) (int M)"
    and cs: "c4' = CHR ''-''" "c7' = CHR ''-''"
    by (auto simp: parse_iso_date_def split: if_splits option.splits)
  have "digit_of c0 \<noteq> None" using y by (cases "digit_of c0") (simp_all add: parse_nat_def)
  then have c0: "c0 \<noteq> CHR ''+''" "c0 \<noteq> CHR ''-''" by (auto simp: digit_of_def)
  have Yb: "Y \<le> 9999"
  proof -
    have "digits_val 0 [c0, c1, c2, c3] = Some Y" using y by (simp add: parse_nat_def)
    then show ?thesis by (auto simp: digit_of_def Let_def split: option.splits if_splits)
  qed
  have "p_date (s @ r) = Some ((y, nat m, nat d), r)"
    using y mo da r c0 unfolding s cs v
    by (simp add: p_date_def p_year_def p_field_def p_digits_def)
  with Yb r v show ?thesis by simp
qed

lemma js_date_parse_Some:
  assumes p: "parse_iso_date s = Some (y, m, d)"
  shows "js_date_parse s = Some (days_from_civil y m d * ms_per_day)"
proof -
  note P = p_date_iso [OF p, of "[]"]
  have "days_in_month y m \<le> 31" by (simp add: days_in_month_def)
  with P have "time_clip (days_from_civil y m d * ms_per_day) = Some (days_from_civil y m d * ms_per_day)"
    by (intro days_from_civil_clip) simp_all
  with P show ?thesis by (simp add: js_date_parse_def) arith
qed

text \<open>
  The same date followed by \<open>T00:00:00\<close> has no offset and is local midnight, which is
  UTC midnight in the model's time zone.
\<close>

lemma js_date_parse_midnight:
  assumes p: "parse_iso_date s = Some (y, m, d)"
  shows "js_date_parse (s @ ''T00:00:00'') = Some (days_from_civil y m d * ms_per_day)"
proof -
  note P = p_date_iso [OF p, of "''T00:00:00''"]
  have "days_in_month y m \<le> 31" by (simp add: days_in_month_def)
  with P have "time_clip (days_from_civil y m d * ms_per_day) = Some (days_from_civil y m d * ms_per_day)"
    by (intro days_from_civil_clip) simp_all
  moreover have "p_time ''T00:00:00'' = Some (0, [])"
    by (simp add: p_time_def p_field_def p_digits_def parse_nat_def digit_of_def)
  ultimately show ?thesis using P by (simp add: js_date_parse_def p_offset_def) arith
qed

lemma day_ms_le_iff: "x * ms_per_day \<le> now \<longleftrightarrow> x \<le> now div ms_per_day"
  by (rule mult_le_iff_le_div_int) (simp add: ms_per_day_def)

lemma parse_iso_date_nonempty: "parse_iso_date s = Some v \<Longrightarrow> s \<noteq> []"
  by (auto simp: parse_iso_date_def)

section \<open>Printing\<close>

text \<open>
  \<open>d.toISOString().split('T')[0]\<close>: the UTC calendar date of a time value, years
  0 to 9999 in four digits and others in the six-digit signed form.
\<close>

definition iso_year :: "int \<Rightarrow> string" where
  "iso_year y =
     (if 0 \<le> y \<and> y \<le> 9999 then pad_nat 4 (nat y)
      else (if y < 0 then ''-'' else ''+'') @ pad_nat 6 (nat \<bar>y\<bar>))"

definition iso_date_part :: "int \<Rightarrow> string" where
  "iso_date_part t =
     (case civil_from_days (t div ms_per_day) of
        (y, m, d) \<Rightarrow> iso_year y @ ''-'' @ pad_nat 2 (nat m) @ ''-'' @ pad_nat 2 (nat d))"

text \<open>
  \<open>new Date(s).toLocaleDateString('en-US', {year: 'numeric', month: 'long', day:
  'numeric'})\<close>: the calendar date of the time value in the local time zone (UTC in
  the model); an invalid date prints \<open>Invalid Date\<close>.
\<close>

definition month_name :: "int \<Rightarrow> string" where
  "month_name m =
     [''January'', ''February'', ''March'', ''April'', ''May'', ''June'', ''July'',
      ''August'', ''September'', ''October'', ''November'', ''December''] ! nat (m - 1)"

text \<open>The \<open>year: 'numeric'\<close> field prints the year of the era: 1 - y for y \<le> 0.\<close>

definition long_date_en_us :: "string \<Rightarrow> string" where
  "long_date_en_us s =
     (case js_date_parse s of
        None \<Rightarrow> ''Invalid Date''
      | Some t \<Rightarrow>
          (case civil_from_days (t div ms_per_day) of
             (y, m, d) \<Rightarrow>
               month_name m @ '' '' @ show_nat (nat d) @ '', '' @ show_nat (nat (if y \<le> 0 then 1 - y else y))))"

end
