(* ===== verification/Calendar.thy ===== *)
theory Calendar
  imports JsDate
begin

text \<open>
  Correctness of the calendar arithmetic of JsDate: decimal printing and parsing are
  inverse (\<open>parse_nat (pad_nat w n) = Some n\<close>), a printed valid date parses back,
  and \<open>civil_from_days\<close> returns a valid date that \<open>days_from_civil\<close> maps back to the
  day number. The era formulas are checked by evaluation over one 400-year era
  (\<open>years_ok\<close>, 400 years) and one year (\<open>doy_ok\<close>, 366 days); every day number reduces
  to one of these by its era, so the finite checks cover all integers.
\<close>

section \<open>Decimal digits\<close>

lemma digits_val_append:
  "digits_val acc (xs @ ys) = (case digits_val acc xs of None \<Rightarrow> None | Some a \<Rightarrow> digits_val a ys)"
  by (induction xs arbitrary: acc) (simp_all split: option.split)

lemma digit_of_digit_char: "k < 10 \<Longrightarrow> digit_of (digit_char k) = Some k"
proof -
  assume "k < 10"
  then have "k \<in> {0,1,2,3,4,5,6,7,8,9}" by auto
  then show ?thesis by (auto simp: digit_of_def digit_char_def)
qed

lemma show_nat_nonempty [simp]: "show_nat n \<noteq> []"
  by (subst show_nat.simps) simp

lemma digits_val_show_nat:
  "digits_val acc (show_nat n) = Some (acc * 10 ^ length (show_nat n) + n)"
proof (induction n arbitrary: acc rule: show_nat.induct)
  case (1 n)
  show ?case
  proof (cases "n < 10")
    case True
    then show ?thesis by (subst (1 2) show_nat.simps) (simp add: digit_of_digit_char)
  next
    case False
    have "digits_val acc (show_nat n)
          = digits_val acc (show_nat (n div 10) @ [digit_char (n mod 10)])"
      using False by (subst show_nat.simps) simp
    also have "\<dots> = Some (10 * (acc * 10 ^ length (show_nat (n div 10)) + n div 10) + n mod 10)"
      using "1" False by (simp add: digits_val_append digit_of_digit_char)
    also have "\<dots> = Some (acc * 10 ^ length (show_nat n) + n)"
      using False by (subst (2) show_nat.simps) (simp add: algebra_simps)
    finally show ?thesis .
  qed
qed

lemma digits_val_zeros: "digits_val 0 (replicate k (CHR ''0'') @ s) = digits_val 0 s"
  by (induction k) (simp_all add: digit_of_def)

lemma parse_nat_pad_nat: "parse_nat (pad_nat w n) = Some n"
  by (simp add: parse_nat_def pad_nat_def digits_val_zeros digits_val_show_nat)

lemma length_show_nat_le: "n < 10 ^ w \<Longrightarrow> 0 < w \<Longrightarrow> length (show_nat n) \<le> w"
proof (induction n arbitrary: w rule: show_nat.induct)
  case (1 n)
  show ?case
  proof (cases "n < 10")
    case True
    with "1.prems" show ?thesis by (subst show_nat.simps) simp
  next
    case False
    from "1.prems"(2) obtain v where w0: "w = Suc v" by (cases w) auto
    have "0 < v"
    proof (rule ccontr)
      assume "\<not> 0 < v"
      with w0 have "w = 1" by simp
      with "1.prems"(1) False show False by simp
    qed
    with w0 have w: "w = Suc v" "0 < v" by simp_all
    with "1.prems" have "n div 10 < 10 ^ v" by simp
    with "1.IH" False w have "length (show_nat (n div 10)) \<le> v" by simp
    with False w show ?thesis by (subst show_nat.simps) simp
  qed
qed

lemma length_pad_nat: "n < 10 ^ w \<Longrightarrow> 0 < w \<Longrightarrow> length (pad_nat w n) = w"
  using length_show_nat_le [of n w] by (simp add: pad_nat_def)


lemma days_in_month_le_31: "days_in_month y m \<le> 31"
  by (simp add: days_in_month_def)

lemma parse_iso_date_print:
  assumes y: "0 \<le> y" "y \<le> 9999" and m: "1 \<le> m" "m \<le> 12"
    and d: "1 \<le> d" "d \<le> days_in_month y m"
  shows "parse_iso_date (pad_nat 4 (nat y) @ ''-'' @ pad_nat 2 (nat m) @ ''-'' @ pad_nat 2 (nat d))
         = Some (y, m, d)"
proof -
  let ?Y = "pad_nat 4 (nat y)" and ?M = "pad_nat 2 (nat m)" and ?D = "pad_nat 2 (nat d)"
  have ly: "length ?Y = 4" using y by (intro length_pad_nat) simp_all
  have lm: "length ?M = 2" using m by (intro length_pad_nat) simp_all
  have "d \<le> 31" using d days_in_month_le_31 [of y m] by simp
  then have ld: "length ?D = 2" using d by (intro length_pad_nat) simp_all
  have ar: "nat m \<le> 12" "Suc 0 \<le> nat m" "Suc 0 \<le> nat d" using m d by arith+
  show ?thesis using y m d ly lm ld ar
    by (simp add: parse_iso_date_def parse_nat_pad_nat nth_append)
qed

section \<open>Day numbers to dates and back\<close>

text \<open>
  Auxiliary functions of the proof (not of the program): \<open>era_N\<close> is the day-of-era
  correction in \<open>civil_from_days\<close>, \<open>year_start k\<close> the first day of year \<open>k\<close> of an era
  (years start on March 1), \<open>year_len k\<close> its length.
\<close>

definition era_N :: "int \<Rightarrow> int" where
  "era_N doe = doe - doe div 1460 + doe div 36524 - doe div 146096"

definition year_start :: "int \<Rightarrow> int" where
  "year_start k = 365 * k + k div 4 - k div 100"

definition year_len :: "int \<Rightarrow> int" where
  "year_len k = (if (k + 1) mod 4 = 0 \<and> ((k + 1) mod 100 \<noteq> 0 \<or> k = 399) then 366 else 365)"

definition years_ok :: "nat \<Rightarrow> bool" where
  "years_ok n =
     (let k = int n in
        0 \<le> year_start k \<and> year_start k + year_len k \<le> 146097 \<and>
        365 * k \<le> era_N (year_start k) \<and>
        era_N (year_start k + year_len k - 1) \<le> 365 * k + 364 \<and>
        (k < 399 \<longrightarrow> year_start (k + 1) = year_start k + year_len k) \<and>
        (k = 399 \<longrightarrow> year_start k + year_len k = 146097))"

lemma years_ok_all: "list_all years_ok [0..<400]"
  by code_simp

lemma years_ok_int:
  assumes "0 \<le> k" "k \<le> 399"
  shows "0 \<le> year_start k \<and> year_start k + year_len k \<le> 146097 \<and>
        365 * k \<le> era_N (year_start k) \<and>
        era_N (year_start k + year_len k - 1) \<le> 365 * k + 364 \<and>
        (k < 399 \<longrightarrow> year_start (k + 1) = year_start k + year_len k) \<and>
        (k = 399 \<longrightarrow> year_start k + year_len k = 146097)"
proof -
  from assms have "nat k \<in> set [0..<400]" by simp
  with years_ok_all have "years_ok (nat k)" by (simp add: list_all_iff)
  with assms show ?thesis by (simp add: years_ok_def Let_def)
qed

lemma era_N_step:
  assumes "0 \<le> x" "x < 146096"
  shows "era_N x \<le> era_N (x + 1)"
proof (cases "x = 146095")
  case True
  then show ?thesis by (simp add: era_N_def)
next
  case False
  with assms have lt: "x + 1 < 146096" by simp
  have c: "x div 146096 = 0" "(x + 1) div 146096 = 0" using assms lt by simp_all
  have b: "x div 36524 \<le> (x + 1) div 36524" by (rule zdiv_mono1) simp_all
  have "(x + 1) div 1460 \<le> (x + 1460) div 1460" by (rule zdiv_mono1) simp_all
  then have a: "(x + 1) div 1460 \<le> x div 1460 + 1" by simp
  from a b c show ?thesis unfolding era_N_def by linarith
qed

lemma era_N_mono:
  assumes "0 \<le> x" "x \<le> y" "y \<le> 146096"
  shows "era_N x \<le> era_N y"
proof -
  have "\<And>n. x + int n \<le> 146096 \<Longrightarrow> era_N x \<le> era_N (x + int n)"
  proof -
    fix n
    show "x + int n \<le> 146096 \<Longrightarrow> era_N x \<le> era_N (x + int n)"
    proof (induction n)
      case 0
      then show ?case by simp
    next
      case (Suc n)
      then have "era_N x \<le> era_N (x + int n)" by simp
      also have "\<dots> \<le> era_N (x + int n + 1)"
        using Suc.prems assms(1) by (intro era_N_step) simp_all
      finally show ?case by (simp add: ac_simps)
    qed
  qed
  from this [of "nat (y - x)"] assms show ?thesis by simp
qed

lemma year_of_era:
  assumes d0: "0 \<le> doe" and d1: "doe \<le> 146096"
  defines "k \<equiv> era_N doe div 365"
  shows "0 \<le> k \<and> k \<le> 399 \<and> year_start k \<le> doe \<and> doe < year_start k + year_len k"
proof -
  have n0: "era_N 0 = 0" by (simp add: era_N_def)
  have "0 \<le> era_N doe" using era_N_mono [of 0 doe] d0 d1 n0 by simp
  moreover have "era_N doe \<le> 145999"
    using era_N_mono [of doe 146096] d0 d1 by (simp add: era_N_def)
  ultimately have k0: "0 \<le> k" and k1: "k \<le> 399" and
    kl: "365 * k \<le> era_N doe" and kh: "era_N doe \<le> 365 * k + 364"
    unfolding k_def by linarith+
  have lo: "year_start k \<le> doe"
  proof (rule ccontr)
    assume "\<not> year_start k \<le> doe"
    then have lt: "doe < year_start k" by simp
    have "k \<noteq> 0" using lt d0 by (auto simp: year_start_def)
    with k0 have j: "0 \<le> k - 1" "k - 1 \<le> 399" "k - 1 < 399" using k1 by simp_all
    note J = years_ok_int [OF j(1,2)]
    with j(3) have eq: "year_start k = year_start (k - 1) + year_len (k - 1)" by simp
    have "era_N doe \<le> era_N (year_start (k - 1) + year_len (k - 1) - 1)"
      using lt eq d0 J by (intro era_N_mono) simp_all
    with J have "era_N doe \<le> 365 * k - 1" by simp
    with kl show False by simp
  qed
  have hi: "doe < year_start k + year_len k"
  proof (rule ccontr)
    assume "\<not> doe < year_start k + year_len k"
    then have ge: "year_start k + year_len k \<le> doe" by simp
    note K = years_ok_int [OF k0 k1]
    have "k \<noteq> 399" using ge K d1 by auto
    with k1 have k2: "k < 399" by simp
    with K have eq: "year_start (k + 1) = year_start k + year_len k" by simp
    note K1 = years_ok_int [of "k + 1"]
    have "era_N (year_start (k + 1)) \<le> era_N doe"
      using ge eq d1 K1 k0 k2 by (intro era_N_mono) simp_all
    with K1 k0 k2 have "365 * (k + 1) \<le> era_N doe" by simp
    with kh show False by simp
  qed
  from k0 k1 lo hi show ?thesis by simp
qed


definition month_len_mp :: "int \<Rightarrow> int" where
  "month_len_mp mp = [31, 30, 31, 30, 31, 31, 30, 31, 30, 31, 31, 29] ! nat mp"

definition doy_ok :: "int \<Rightarrow> bool" where
  "doy_ok doy =
     (let mp = (5 * doy + 2) div 153; d = doy - (153 * mp + 2) div 5 + 1
      in 0 \<le> mp \<and> mp \<le> 11 \<and> 1 \<le> d \<and> d \<le> month_len_mp mp \<and> (mp = 11 \<and> d = 29 \<longrightarrow> doy = 365))"

lemma doy_ok_all: "list_all doy_ok (map int [0..<366])"
  by code_simp

lemma doy_ok_int:
  assumes "0 \<le> doy" "doy \<le> 365"
  shows "doy_ok doy"
proof -
  define n where "n = nat doy"
  have n: "doy = int n" "n < 366" using assms unfolding n_def by arith+
  from doy_ok_all n(2) have "doy_ok (int n)" by (simp add: list_all_iff)
  with n(1) show ?thesis by simp
qed

lemma month_len_mp_days:
  assumes "0 \<le> mp" "mp \<le> 10"
  shows "month_len_mp mp = days_in_month y (if mp < 10 then mp + 3 else mp - 9)"
proof -
  have all: "list_all (\<lambda>k. month_len_mp k = days_in_month y (if k < 10 then k + 3 else k - 9))
               (map int [0..<11])"
    by (simp add: month_len_mp_def days_in_month_def upt_rec)
  define n where "n = nat mp"
  have n: "mp = int n" "n < 11" using assms unfolding n_def by arith+
  from all n(2) have "month_len_mp (int n) = days_in_month y (if int n < 10 then int n + 3 else int n - 9)"
    by (simp add: list_all_iff)
  with n(1) show ?thesis by simp
qed

lemma is_leap_era:
  assumes y: "y = k + 1 + era * 400" and k: "0 \<le> k" "k \<le> 399"
    and L: "(k + 1) mod 4 = 0" "(k + 1) mod 100 \<noteq> 0 \<or> k = 399"
  shows "is_leap y"
proof -
  have "y = (k + 1) + (100 * era) * 4" "y = (k + 1) + (4 * era) * 100" "y = (k + 1) + era * 400"
    using y by simp_all
  then have m: "y mod 4 = (k + 1) mod 4" "y mod 100 = (k + 1) mod 100" "y mod 400 = (k + 1) mod 400"
    by (metis mod_mult_self1)+
  show ?thesis
  proof (cases "k = 399")
    case True
    then show ?thesis using m by (simp add: is_leap_def)
  next
    case False
    then show ?thesis using m L by (simp add: is_leap_def)
  qed
qed

lemma civil_from_days_correct:
  assumes c: "civil_from_days z = (y, m, d)"
  shows "1 \<le> m \<and> m \<le> 12 \<and> 1 \<le> d \<and> d \<le> days_in_month y m \<and> days_from_civil y m d = z \<and>
         (z + 719468) div 146097 * 400 \<le> y \<and> y \<le> (z + 719468) div 146097 * 400 + 400"
proof -
  define era where "era = (z + 719468) div 146097"
  define doe where "doe = (z + 719468) mod 146097"
  define yoe where "yoe = era_N doe div 365"
  define doy where "doy = doe - year_start yoe"
  define mp where "mp = (5 * doy + 2) div 153"
  define dd where "dd = doy - (153 * mp + 2) div 5 + 1"
  define mm where "mm = (if mp < 10 then mp + 3 else mp - 9)"
  have z: "z + 719468 = era * 146097 + doe" by (simp add: era_def doe_def)
  have d0: "0 \<le> doe" "doe \<le> 146096" by (simp_all add: doe_def)
  note Y = year_of_era [OF d0, folded yoe_def]
  have yl: "year_len yoe \<le> 366" by (simp add: year_len_def)
  have doy0: "0 \<le> doy" "doy \<le> 365" using Y yl by (simp_all add: doy_def)
  have D: "0 \<le> mp \<and> mp \<le> 11 \<and> 1 \<le> dd \<and> dd \<le> month_len_mp mp \<and> (mp = 11 \<and> dd = 29 \<longrightarrow> doy = 365)"
    using doy_ok_int [OF doy0] unfolding doy_ok_def Let_def mp_def dd_def by blast
  have civ: "civil_from_days z = (yoe + era * 400 + (if mm \<le> 2 then 1 else 0), mm, dd)"
    unfolding civil_from_days_def Let_def era_def doe_def yoe_def doy_def mp_def dd_def mm_def
      era_N_def year_start_def by (rule refl)
  from c [symmetric] civ have "(y, m, d) = (yoe + era * 400 + (if mm \<le> 2 then 1 else 0), mm, dd)"
    by (rule trans)
  then have yv: "y = yoe + era * 400 + (if mm \<le> 2 then 1 else 0)" and mv: "m = mm" and dv: "d = dd"
    by (simp_all only: prod.inject)
  have m_le2: "mm \<le> 2 \<longleftrightarrow> 10 \<le> mp" using D by (auto simp: mm_def)
  have mrange: "1 \<le> m" "m \<le> 12" using D by (auto simp: mv mm_def)
  have dvalid: "d \<le> days_in_month y m"
  proof (cases "mp \<le> 10")
    case True
    with D month_len_mp_days [of mp y] show ?thesis by (simp add: dv mv mm_def)
  next
    case False
    with D have mp11: "mp = 11" by simp
    then have m2: "m = 2" by (simp add: mv mm_def)
    have "dd \<le> 29" using D mp11 by (simp add: month_len_mp_def)
    show ?thesis
    proof (cases "dd = 29")
      case True
      with D mp11 have "doy = 365" by simp
      with Y have "year_len yoe = 366" by (simp add: doy_def year_len_def split: if_splits)
      then have L: "(yoe + 1) mod 4 = 0 \<and> ((yoe + 1) mod 100 \<noteq> 0 \<or> yoe = 399)"
        by (simp add: year_len_def split: if_splits)
      have "y = yoe + 1 + era * 400" using yv m2 mv by simp
      with L Y have "is_leap y" by (intro is_leap_era) auto
      with m2 True show ?thesis by (simp add: dv days_in_month_def)
    next
      case False
      with \<open>dd \<le> 29\<close> m2 show ?thesis by (simp add: dv days_in_month_def)
    qed
  qed
  have y': "(if m \<le> 2 then y - 1 else y) = yoe + era * 400" using yv mv by simp
  have ydiv: "(yoe + era * 400) div 400 = era" "(yoe + era * 400) mod 400 = yoe"
    "yoe mod 400 = yoe" using Y by simp_all
  have mback: "(if 2 < m then m - 3 else m + 9) = mp" using D by (auto simp: mv mm_def)
  have "days_from_civil y m d = era * 146097 + (yoe * 365 + yoe div 4 - yoe div 100
          + ((153 * mp + 2) div 5 + dd - 1)) - 719468"
    by (simp add: days_from_civil_def Let_def y' ydiv mback dv)
  also have "\<dots> = z" using z by (simp add: dd_def doy_def year_start_def)
  moreover have "era * 400 \<le> y \<and> y \<le> era * 400 + 400" using yv Y by simp
  ultimately show ?thesis using mrange D dvalid by (simp add: dv era_def)
qed

lemma civil_year_range:
  assumes c: "civil_from_days z = (y, m, d)" and lo: "-719468 \<le> z" and hi: "z < 2786860"
  shows "0 \<le> y \<and> y \<le> 9999"
proof -
  define era where "era = (z + 719468) div 146097"
  have e0: "0 \<le> era" using lo by (simp add: era_def)
  have "era \<le> (3506327::int) div 146097" unfolding era_def using hi by (intro zdiv_mono1) simp_all
  then have e1: "era \<le> 23" by simp
  have "era * 400 \<le> y" "y \<le> era * 400 + 400"
    using civil_from_days_correct [OF c] by (simp_all add: era_def)
  with e0 e1 show ?thesis by linarith
qed

section \<open>Dates to day numbers and back\<close>

text \<open>
  The converse direction: \<open>civil_from_days\<close> recovers every valid date from its day
  number. \<open>month_ok\<close> is the finite fact on the month table that it needs (auxiliary,
  not of the program).
\<close>
lemma year_len_leap:
  assumes y: "y = k + 1 + era * 400" and k: "0 \<le> k" "k \<le> 399" and L: "is_leap y"
  shows "year_len k = 366"
proof -
  have "y = (k + 1) + (100 * era) * 4" "y = (k + 1) + (4 * era) * 100" "y = (k + 1) + era * 400"
    using y by simp_all
  then have m: "y mod 4 = (k + 1) mod 4" "y mod 100 = (k + 1) mod 100" "y mod 400 = (k + 1) mod 400"
    by (metis mod_mult_self1)+
  have "(k + 1) mod 400 = 0 \<Longrightarrow> k = 399"
  proof -
    assume "(k + 1) mod 400 = 0"
    moreover have "(k + 1) mod 400 = k + 1" if "k < 399" using k that by simp
    ultimately show "k = 399" using k by fastforce
  qed
  with m L show ?thesis by (auto simp: is_leap_def year_len_def)
qed

lemma civil_from_days_eq:
  "civil_from_days z =
     (let doe = (z + 719468) mod 146097; yoe = era_N doe div 365; doy = doe - year_start yoe;
          mp = (5 * doy + 2) div 153; d = doy - (153 * mp + 2) div 5 + 1;
          m = (if mp < 10 then mp + 3 else mp - 9)
      in (yoe + (z + 719468) div 146097 * 400 + (if m \<le> 2 then 1 else 0), m, d))"
  unfolding civil_from_days_def era_N_def year_start_def Let_def by (rule refl)

lemma era_N_year:
  assumes k: "0 \<le> k" "k \<le> 399" and x: "0 \<le> x" "x < year_len k"
  shows "era_N (year_start k + x) div 365 = k"
proof -
  note K = years_ok_int [OF k]
  have "era_N (year_start k) \<le> era_N (year_start k + x)"
    using K x by (intro era_N_mono) simp_all
  moreover have "era_N (year_start k + x) \<le> era_N (year_start k + year_len k - 1)"
    using K x by (intro era_N_mono) simp_all
  ultimately have "365 * k \<le> era_N (year_start k + x)" "era_N (year_start k + x) \<le> 365 * k + 364"
    using K by simp_all
  then show ?thesis by linarith
qed
definition month_ok :: "int \<Rightarrow> int \<Rightarrow> bool" where
  "month_ok mp d =
     (d \<le> month_len_mp mp \<longrightarrow>
        (let doy = (153 * mp + 2) div 5 + d - 1
         in (5 * doy + 2) div 153 = mp \<and> (mp \<le> 10 \<longrightarrow> doy \<le> 336) \<and> (mp = 11 \<longrightarrow> doy = 336 + d)))"

lemma month_ok_all: "list_all (\<lambda>mp. list_all (month_ok (int mp)) (map int [1..<32])) [0..<12]"
  by code_simp

lemma month_ok_int:
  assumes "0 \<le> mp" "mp \<le> 11" "1 \<le> d" "d \<le> 31"
  shows "month_ok mp d"
proof -
  define a where "a = nat mp"
  define b where "b = nat d"
  have ab: "mp = int a" "a < 12" "d = int b" "b \<in> set [1..<32]"
    using assms unfolding a_def b_def by auto
  from month_ok_all ab(2) have "list_all (month_ok (int a)) (map int [1..<32])"
    by (simp add: list_all_iff)
  with ab show ?thesis by (simp add: list_all_iff)
qed

lemma days_from_civil_inverse:
  assumes m: "1 \<le> m" "m \<le> 12" and d: "1 \<le> d" "d \<le> days_in_month y m"
  shows "civil_from_days (days_from_civil y m d) = (y, m, d)"
proof -
  define Y where "Y = (if m \<le> 2 then y - 1 else y)"
  define era where "era = Y div 400"
  define yoe where "yoe = Y mod 400"
  define mp where "mp = (if 2 < m then m - 3 else m + 9)"
  define doy where "doy = (153 * mp + 2) div 5 + d - 1"
  have Yv: "Y = yoe + era * 400" by (simp add: era_def yoe_def)
  have yoe: "0 \<le> yoe" "yoe \<le> 399" by (simp_all add: yoe_def)
  note K = years_ok_int [OF yoe]
  have mp: "0 \<le> mp" "mp \<le> 11" using m by (simp_all add: mp_def)
  have mback: "(if mp < 10 then mp + 3 else mp - 9) = m" using m by (auto simp: mp_def)
  have d31: "d \<le> 31" using d(2) days_in_month_le_31 [of y m] by simp
  have dl: "d \<le> month_len_mp mp"
  proof (cases "mp \<le> 10")
    case True
    with mp month_len_mp_days [of mp y] mback d(2) show ?thesis by simp
  next
    case False
    with mp have "mp = 11" by simp
    with mback d(2) show ?thesis by (simp add: month_len_mp_def days_in_month_def split: if_splits)
  qed
  have M: "(5 * doy + 2) div 153 = mp" "mp \<le> 10 \<longrightarrow> doy \<le> 336" "mp = 11 \<longrightarrow> doy = 336 + d"
    using month_ok_int [OF mp d(1) d31] dl unfolding month_ok_def Let_def doy_def by simp_all
  have yl: "365 \<le> year_len yoe" by (simp add: year_len_def)
  have doy0: "0 \<le> doy" using mp d(1) by (simp add: doy_def)
  have doy1: "doy < year_len yoe"
  proof (cases "mp \<le> 10")
    case True
    with M yl show ?thesis by simp
  next
    case False
    with mp have mp11: "mp = 11" by simp
    then have m2: "m = 2" using mback by simp
    show ?thesis
    proof (cases "d = 29")
      case True
      with m2 d(2) have "is_leap y" by (simp add: days_in_month_def split: if_splits)
      moreover have "y = yoe + 1 + era * 400" using Yv m2 by (simp add: Y_def)
      ultimately have "year_len yoe = 366" using yoe by (intro year_len_leap) simp_all
      with M mp11 True show ?thesis by simp
    next
      case False
      with m2 d(2) have "d \<le> 28" by (simp add: days_in_month_def split: if_splits)
      with M mp11 yl show ?thesis by simp
    qed
  qed
  have z: "days_from_civil y m d + 719468 = (year_start yoe + doy) + era * 146097"
    unfolding days_from_civil_def Let_def Y_def [symmetric]
    by (simp add: era_def yoe_def mp_def doy_def year_start_def)
  have b: "0 \<le> year_start yoe + doy" "year_start yoe + doy < 146097" using K doy0 doy1 by simp_all
  have dv: "(days_from_civil y m d + 719468) div 146097 = era"
    "(days_from_civil y m d + 719468) mod 146097 = year_start yoe + doy"
    unfolding z using b by simp_all
  have yr: "era_N (year_start yoe + doy) div 365 = yoe" by (rule era_N_year [OF yoe doy0 doy1])
  have dd: "doy - (153 * mp + 2) div 5 + 1 = d" by (simp add: doy_def)
  have yy: "yoe + era * 400 + (if m \<le> 2 then 1 else 0) = y" using Yv by (simp add: Y_def split: if_splits)
  have dy: "year_start yoe + doy - year_start yoe = doy" by simp
  show ?thesis
    unfolding civil_from_days_eq Let_def dv yr dy M(1) dd mback yy by (rule refl)
qed


section \<open>The era formula against ECMAScript's MakeDay\<close>

text \<open>
  The reference: ECMAScript defines the day number of a date by \<open>DayFromYear\<close>
  (a closed formula in the year), the days before the month in a common year, one more
  from March on in a leap year (\<open>InLeapYear\<close>), and the day of the month
  (\<open>MakeDay\<close>). \<open>days_from_civil\<close> computes the same number by the era formula.
\<close>

definition DayFromYear :: "int \<Rightarrow> int" where
  "DayFromYear y = 365 * (y - 1970) + (y - 1969) div 4 - (y - 1901) div 100 + (y - 1601) div 400"

definition InLeapYear :: "int \<Rightarrow> int" where
  "InLeapYear y = (if is_leap y then 1 else 0)"

definition month_start :: "int \<Rightarrow> int \<Rightarrow> int" where
  "month_start y m =
     [0, 31, 59, 90, 120, 151, 181, 212, 243, 273, 304, 334] ! nat (m - 1) + (if 3 \<le> m then InLeapYear y else 0)"

definition MakeDay :: "int \<Rightarrow> int \<Rightarrow> int \<Rightarrow> int" where
  "MakeDay y m d = DayFromYear y + month_start y m + d - 1"

lemma era_closed:
  fixes a :: int
  shows "a div 400 * 146097 + (a mod 400 * 365 + a mod 400 div 4 - a mod 400 div 100)
         = 365 * a + a div 4 - a div 100 + a div 400"
proof -
  define q where "q = a div 400"
  define r where "r = a mod 400"
  have a: "a = r + q * 400" by (simp add: q_def r_def)
  have d4: "a div 4 = r div 4 + q * 100" unfolding a by simp
  have d100: "a div 100 = r div 100 + q * 4" unfolding a by simp
  show ?thesis unfolding q_def [symmetric] r_def [symmetric] d4 d100 using a by linarith
qed

lemma div_pred:
  fixes y k :: int assumes k: "0 < k"
  shows "y div k = (y - 1) div k + (if y mod k = 0 then 1 else 0)"
proof -
  define q where "q = y div k"
  define r where "r = y mod k"
  have y: "y = r + q * k" by (simp add: q_def r_def)
  have r: "0 \<le> r" "r < k" using k by (simp_all add: r_def)
  show ?thesis
  proof (cases "r = 0")
    case True
    then have e: "y - 1 = (k - 1) + (q - 1) * k" using y by (simp add: algebra_simps)
    have "(y - 1) div k = ((k - 1) + (q - 1) * k) div k" using e by (rule arg_cong)
    also have "\<dots> = (q - 1) + (k - 1) div k" using k by (intro div_mult_self1) simp
    finally have "(y - 1) div k = (k - 1) div k + (q - 1)" by simp
    also have "(k - 1) div k = 0" using k by (simp add: div_pos_pos_trivial)
    finally show ?thesis using True by (simp add: q_def r_def)
  next
    case False
    have e: "y - 1 = (r - 1) + q * k" using y by simp
    have "(y - 1) div k = ((r - 1) + q * k) div k" using e by (rule arg_cong)
    also have "\<dots> = q + (r - 1) div k" using k by (intro div_mult_self1) simp
    finally have "(y - 1) div k = (r - 1) div k + q" by simp
    also have "(r - 1) div k = 0" using r False by (simp add: div_pos_pos_trivial)
    finally show ?thesis using False by (simp add: q_def r_def)
  qed
qed

lemma leap_indicator:
  "InLeapYear y = (if y mod 4 = 0 then 1 else 0) - (if y mod 100 = 0 then 1 else 0) + (if y mod 400 = 0 then 1 else 0)"
proof -
  have a: "y mod 400 = 0 \<Longrightarrow> y mod 100 = 0" using mod_mod_cancel [of 100 400 y] by simp
  have b: "y mod 100 = 0 \<Longrightarrow> y mod 4 = 0" using mod_mod_cancel [of 4 100 y] by simp
  show ?thesis using a b by (auto simp: InLeapYear_def is_leap_def)
qed

lemma days_from_civil_late:
  assumes "2 < m"
  shows "days_from_civil y m d =
     365 * y + y div 4 - y div 100 + y div 400 + (153 * (m - 3) + 2) div 5 + d - 1 - 719468"
proof -
  have "days_from_civil y m d = y div 400 * 146097 + (y mod 400 * 365 + y mod 400 div 4 - y mod 400 div 100
          + ((153 * (m - 3) + 2) div 5 + d - 1)) - 719468"
    using assms by (simp add: days_from_civil_def Let_def)
  with era_closed [of y] show ?thesis by linarith
qed

lemma days_from_civil_early:
  assumes "m \<le> 2"
  shows "days_from_civil y m d =
     365 * (y - 1) + (y - 1) div 4 - (y - 1) div 100 + (y - 1) div 400 + (153 * (m + 9) + 2) div 5 + d - 1 - 719468"
proof -
  have "days_from_civil y m d = (y - 1) div 400 * 146097 + ((y - 1) mod 400 * 365 + (y - 1) mod 400 div 4
          - (y - 1) mod 400 div 100 + ((153 * (m + 9) + 2) div 5 + d - 1)) - 719468"
    using assms by (simp add: days_from_civil_def Let_def)
  with era_closed [of "y - 1"] show ?thesis by linarith
qed

lemma div_offset: "0 < (k::int) \<Longrightarrow> (a + c * k) div k = a div k + c"
  by simp

lemma DayFromYear_pred:
  "DayFromYear y = 365 * (y - 1970) + (y - 1) div 4 - (y - 1) div 100 + (y - 1) div 400 - 477"
proof -
  have "y - 1969 = (y - 1) + (-492) * 4" "y - 1901 = (y - 1) + (-19) * 100" "y - 1601 = (y - 1) + (-4) * 400"
    by simp_all
  then have "(y - 1969) div 4 = (y - 1) div 4 - 492" "(y - 1901) div 100 = (y - 1) div 100 - 19"
       "(y - 1601) div 400 = (y - 1) div 400 - 4"
    by (simp_all only: div_offset zero_less_numeral)
  then show ?thesis unfolding DayFromYear_def by linarith
qed

lemma month_table:
  "list_all (\<lambda>m. [0, 31, 59, 90, 120, 151, 181, 212, 243, 273, 304, 334] ! nat (m - 1) =
      (if 2 < m then (153 * (m - 3) + 2) div 5 + 59 else (153 * (m + 9) + 2) div 5 - 306))
    (map int [1..<13])"
  by (simp add: upt_rec)

lemma month_table_int:
  assumes "1 \<le> m" "m \<le> 12"
  shows "[0, 31, 59, 90, 120, 151, 181, 212, 243, 273, 304, 334] ! nat (m - 1) =
      (if 2 < m then (153 * (m - 3) + 2) div 5 + 59 else (153 * (m + 9) + 2) div 5 - (306::int))"
proof -
  define n where "n = nat m"
  have n: "m = int n" "n \<in> set [1..<13]" using assms unfolding n_def by auto
  from month_table n(2) show ?thesis unfolding n(1) by (simp add: list_all_iff)
qed

lemma late_arith:
  fixes D DY L M y d a4 a100 a400 i4 i100 i400 :: int
  shows "D = 365 * y + (a4 + i4) - (a100 + i100) + (a400 + i400) + M + d - 1 - 719468 \<Longrightarrow>
   DY = 365 * (y - 1970) + a4 - a100 + a400 - 477 \<Longrightarrow> L = i4 - i100 + i400 \<Longrightarrow>
   D = DY + (M + 59 + L) + d - 1"
  by (simp add: algebra_simps)

lemma early_arith:
  fixes D DY M y d a4 a100 a400 :: int
  shows "D = 365 * (y - 1) + a4 - a100 + a400 + M + d - 1 - 719468 \<Longrightarrow>
   DY = 365 * (y - 1970) + a4 - a100 + a400 - 477 \<Longrightarrow> D = DY + (M - 306) + d - 1"
  by (simp add: algebra_simps)

lemma days_from_civil_MakeDay:
  "1 \<le> m \<Longrightarrow> m \<le> 12 \<Longrightarrow> days_from_civil y m d = MakeDay y m d"
proof -
  assume m: "1 \<le> m" "m \<le> 12"
  note T = month_table_int [OF m]
  show ?thesis
  proof (cases "2 < m")
    case True
    have p: "y div 4 = (y - 1) div 4 + (if y mod 4 = 0 then 1 else 0)"
      "y div 100 = (y - 1) div 100 + (if y mod 100 = 0 then 1 else 0)"
      "y div 400 = (y - 1) div 400 + (if y mod 400 = 0 then 1 else 0)"
      by (rule div_pred, simp)+
    have ms: "month_start y m = (153 * (m - 3) + 2) div 5 + 59 + InLeapYear y"
      using True T by (simp add: month_start_def)
    show ?thesis unfolding MakeDay_def ms
      by (rule late_arith [OF days_from_civil_late [OF True, where y = y and d = d, unfolded p] DayFromYear_pred [of y] leap_indicator [of y]])
  next
    case False
    then have m2: "m \<le> 2" by simp
    have ms: "month_start y m = (153 * (m + 9) + 2) div 5 - 306"
      using False T by (simp add: month_start_def)
    show ?thesis unfolding MakeDay_def ms
      by (rule early_arith [OF days_from_civil_early [OF m2, where y = y and d = d] DayFromYear_pred [of y]])
  qed
qed

section \<open>Printing then parsing a date\<close>

text \<open>
  Between 0000-03-01 and 9600-03-01 (the range where \<open>civil_from_days\<close> yields years
  of four digits in every case of the era arithmetic), the date part printed by
  \<open>toISOString\<close> parses back to the civil date of the day.
\<close>

lemma iso_date_part_parse:
  assumes "days_from_civil 0 3 1 \<le> t div ms_per_day" "t div ms_per_day < days_from_civil 9600 3 1"
  shows "parse_iso_date (iso_date_part t) = Some (civil_from_days (t div ms_per_day))"
proof -
  obtain y m d where c: "civil_from_days (t div ms_per_day) = (y, m, d)" by (metis prod_cases3)
  have b: "-719468 \<le> t div ms_per_day" "t div ms_per_day < 2786860"
    using assms by (simp_all add: days_from_civil_def)
  note R = civil_year_range [OF c b] and V = civil_from_days_correct [OF c]
  have "iso_date_part t = pad_nat 4 (nat y) @ ''-'' @ pad_nat 2 (nat m) @ ''-'' @ pad_nat 2 (nat d)"
    using R by (simp add: iso_date_part_def c iso_year_def)
  with parse_iso_date_print R V c show ?thesis by simp
qed

end
