(* ===== verification/Submission.thy ===== *)
theory Submission
  imports Form Calendar
begin

text \<open>
  The submission controller of \<open>TimeCapsuleForm\<close>: the two guards of
  \<open>handleSubmit\<close> (the spec's FormValidator, first failing rule wins), the synchronous
  part of \<open>handleSubmit\<close> up to its \<open>await\<close>, and the continuation that runs when the
  simulated 2000 ms delay has elapsed. The clock \<open>new Date()\<close> is the parameter
  \<open>now\<close> (milliseconds since the epoch). \<open>getMinDate\<close> computes the \<open>min\<close> of the
  date input from the same clock.
\<close>

datatype validation_error = MissingFields | PastDate

fun message :: "validation_error \<Rightarrow> string" where
  "message MissingFields = ''Please fill in your email, letter, and a delivery date.''"
| "message PastDate = ''The delivery date must be in the future.''"

section \<open>Validation\<close>

definition validate :: "int \<Rightarrow> form_state \<Rightarrow> validation_error option" where
  "validate now st =
     (if js_falsy (email st) \<or> js_falsy (letter st) \<or> js_falsy (deliveryDate st)
      then Some MissingFields
      else if js_date_le (js_date_parse (deliveryDate st)) now then Some PastDate
      else None)"

section \<open>handleSubmit\<close>

text \<open>
  The synchronous part: on a failed guard, \<open>setError(message)\<close> and return
  (\<open>Inl\<close> the error); otherwise \<open>setError('')\<close>, \<open>setIsLoading(true)\<close>, and the
  function suspends on the timer, holding the values of its closure
  (\<open>Inr\<close> the \<open>TimeCapsuleData\<close> it will pass to \<open>onFormSubmit\<close>).
\<close>

definition handleSubmit ::
  "int \<Rightarrow> form_state \<Rightarrow> form_state \<times> (validation_error + TimeCapsuleData)" where
  "handleSubmit now st =
     (case validate now st of
        Some e \<Rightarrow> (st\<lparr>error := message e\<rparr>, Inl e)
      | None \<Rightarrow> (st\<lparr>error := [], isLoading := True\<rparr>, Inr (submitted_data st)))"

text \<open>After \<open>await\<close>: \<open>setIsLoading(false)\<close>; the call \<open>onFormSubmit(data)\<close> is the App's.\<close>

definition handleSubmit_resume :: "form_state \<Rightarrow> form_state" where
  "handleSubmit_resume st = st\<lparr>isLoading := False\<rparr>"

section \<open>getMinDate\<close>

text \<open>
  \<open>today.setDate(today.getDate() + 1)\<close> moves one calendar day in local time; away from
  a daylight-saving change that is \<open>ms_per_day\<close> later. \<open>toISOString().split('T')[0]\<close>
  then prints the UTC date.
\<close>

definition getMinDate :: "int \<Rightarrow> string" where
  "getMinDate now = iso_date_part (now + ms_per_day)"

section \<open>Lemmas\<close>

lemma validate_None_iff:
  "validate now st = None \<longleftrightarrow>
     email st \<noteq> [] \<and> letter st \<noteq> [] \<and> deliveryDate st \<noteq> [] \<and>
     \<not> js_date_le (js_date_parse (deliveryDate st)) now"
  by (simp add: validate_def)

lemma handleSubmit_draft [simp]:
  "email (fst (handleSubmit now st)) = email st"
  "letter (fst (handleSubmit now st)) = letter st"
  "deliveryDate (fst (handleSubmit now st)) = deliveryDate st"
  "files (fst (handleSubmit now st)) = files st"
  "previews (fst (handleSubmit now st)) = previews st"
  by (simp_all add: handleSubmit_def split: option.split)

lemma handleSubmit_Inr_iff:
  "(\<exists>d. snd (handleSubmit now st) = Inr d) \<longleftrightarrow> validate now st = None"
  by (simp add: handleSubmit_def split: option.split)

lemma handleSubmit_isLoading:
  "isLoading (fst (handleSubmit now st)) = (validate now st = None \<or> isLoading st)"
  by (simp add: handleSubmit_def split: option.split)

text \<open>
  Within the range of the calendar theorems, \<open>getMinDate now\<close> is a date-only string
  naming the day after the UTC day of \<open>now\<close>.
\<close>

lemma getMinDate_day:
  assumes "days_from_civil 0 3 1 \<le> now div ms_per_day" "now div ms_per_day + 1 < days_from_civil 9600 3 1"
  obtains y m d where "parse_iso_date (getMinDate now) = Some (y, m, d)"
    "days_from_civil y m d = now div ms_per_day + 1"
proof -
  have t: "(now + ms_per_day) div ms_per_day = now div ms_per_day + 1" by (simp add: ms_per_day_def)
  obtain y m d where c: "civil_from_days (now div ms_per_day + 1) = (y, m, d)" by (metis prod_cases3)
  have "parse_iso_date (getMinDate now) = Some (y, m, d)"
    using iso_date_part_parse [of "now + ms_per_day"] assms t c by (simp add: getMinDate_def)
  moreover have "days_from_civil y m d = now div ms_per_day + 1" using civil_from_days_correct [OF c] by simp
  ultimately show ?thesis by (rule that)
qed

section \<open>Properties of the validator\<close>

text \<open>
  C7. The date rule: with email and letter filled in and a well-formed date-only
  delivery date, submission is refused with the past-date error exactly when that
  date is the current UTC day or earlier, and accepted exactly when it is a later day.
\<close>

theorem delivery_date_after_today:
  assumes "email st \<noteq> []" "letter st \<noteq> []" "parse_iso_date (deliveryDate st) = Some (y, m, d)"
  shows "validate now st =
           (if days_from_civil y m d \<le> now div ms_per_day then Some PastDate else None)"
  using assms parse_iso_date_nonempty [OF assms(3)]
  by (simp add: validate_def js_date_parse_Some day_ms_le_iff)

theorem delivery_date_after_today_witness:
  "validate 1767614400000
     (initial_form\<lparr>email := ''a@b.com'', letter := ''hi'', deliveryDate := ''2026-01-05''\<rparr>) = Some PastDate"
proof -
  let ?st = "initial_form\<lparr>email := ''a@b.com'', letter := ''hi'', deliveryDate := ''2026-01-05''\<rparr>"
  have p: "parse_iso_date (deliveryDate ?st) = Some (2026, 1, 5)"
    by (simp add: parse_iso_date_def parse_nat_def digit_of_def days_in_month_def is_leap_def)
  have e: "email ?st \<noteq> []" "letter ?st \<noteq> []" by simp_all
  from delivery_date_after_today [OF e p, of 1767614400000] show ?thesis
    by (simp add: days_from_civil_def ms_per_day_def)
qed

text \<open>
  C8. Missing fields: if the email, the letter or the delivery date is empty, submit
  sets only the missing-fields message and returns; the draft, the busy flag and the
  previews are untouched and nothing is submitted.
\<close>

theorem missing_fields_rejected:
  "email st = [] \<or> letter st = [] \<or> deliveryDate st = [] \<Longrightarrow>
   handleSubmit now st =
     (st\<lparr>error := ''Please fill in your email, letter, and a delivery date.''\<rparr>, Inl MissingFields)"
  by (auto simp: handleSubmit_def validate_def)

theorem missing_fields_rejected_witness:
  "handleSubmit 0 (initial_form\<lparr>email := ''a@b.com''\<rparr>) =
     (initial_form\<lparr>email := ''a@b.com'',
        error := ''Please fill in your email, letter, and a delivery date.''\<rparr>, Inl MissingFields)"
proof -
  have "email (initial_form\<lparr>email := ''a@b.com''\<rparr>) = [] \<or> letter (initial_form\<lparr>email := ''a@b.com''\<rparr>) = []
        \<or> deliveryDate (initial_form\<lparr>email := ''a@b.com''\<rparr>) = []"
    by (simp add: initial_form_def)
  from missing_fields_rejected [OF this, of 0] show ?thesis by simp
qed

text \<open>
  C17. The earliest date the date picker offers is accepted: with email and letter
  filled in, choosing \<open>getMinDate now\<close> (tomorrow in UTC) passes both guards when the
  form is submitted at the same \<open>now\<close>, for any clock between 0000-03-01 and 9600-02-29.
\<close>

theorem min_date_accepted:
  assumes "email st \<noteq> []" "letter st \<noteq> []" "deliveryDate st = getMinDate now"
    and "days_from_civil 0 3 1 \<le> now div ms_per_day" "now div ms_per_day + 1 < days_from_civil 9600 3 1"
  shows "validate now st = None"
proof -
  from getMinDate_day [OF assms(4,5)] obtain y m d where
    p: "parse_iso_date (getMinDate now) = Some (y, m, d)" and
    "days_from_civil y m d = now div ms_per_day + 1" .
  then show ?thesis using assms(1-3) parse_iso_date_nonempty [OF p]
    by (simp add: validate_def js_date_parse_Some day_ms_le_iff)
qed

theorem min_date_accepted_witness:
  "validate 1767614400000
     (initial_form\<lparr>email := ''a@b.com'', letter := ''hi'', deliveryDate := getMinDate 1767614400000\<rparr>) = None"
  by (rule min_date_accepted) (simp_all add: days_from_civil_def ms_per_day_def)

end
