(* ===== verification/Embed.thy ===== *)
theory Embed
  imports Prelude
begin

text \<open>
  The snippet of \<open>EmbedModal\<close> (src/components/EmbedModal.tsx): an \<open><iframe>\<close> whose
  \<open>src\<close> attribute is the page address with every double quote replaced by the
  character reference \<open>&quot;\<close> (\<open>href.replace(/"/g, '&quot;')\<close>). To state what the
  escaping achieves, \<open>unescape_quot\<close> is what an HTML parser does with that one
  reference inside an attribute value, and \<open>src_value\<close> reads a double-quoted
  attribute value: everything up to the next double quote.

  The modal's one piece of state is \<open>copied\<close>. \<open>handleCopy\<close> starts
  \<open>navigator.clipboard.writeText(embedCode)\<close>; when that promise resolves, its
  \<open>then\<close> callback sets \<open>copied\<close> and starts a 2000 ms timer that clears it. The
  writes and timers still owed by the browser are kept with the modal instance that
  started them: React mounts a fresh modal (fresh \<open>copied\<close>) each time App shows it,
  and a state update of an unmounted instance is dropped. The system clipboard is
  the field \<open>clipboard_text\<close>.
\<close>

abbreviation dquote :: char where
  "dquote \<equiv> CHR 0x22"

fun escape_quotes :: "string \<Rightarrow> string" where
  "escape_quotes [] = []"
| "escape_quotes (c # cs) =
     (if c = dquote then ''&quot;'' @ escape_quotes cs else c # escape_quotes cs)"

definition embedCode :: "string \<Rightarrow> string" where
  \<open>embedCode href =
     ''<iframe src="'' @ escape_quotes href @
     ''" width="100%" height="900" style="border:none; border-radius: 12px;" title="FutureMe Time Capsule"></iframe>''\<close>

fun unescape_quot :: "string \<Rightarrow> string" where
  "unescape_quot [] = []"
| "unescape_quot (c # cs) =
     (if c = CHR ''&'' \<and> take 5 cs = ''quot;'' then dquote # unescape_quot (drop 5 cs)
      else c # unescape_quot cs)"

definition src_value :: "string \<Rightarrow> string" where
  "src_value code = takeWhile (\<lambda>c. c \<noteq> dquote) (drop 13 code)"

section \<open>The modal's state and handlers\<close>

record embed_modal =
  copied :: bool
  modal_instance :: nat
  writes :: "(nat \<times> string) list"
  copy_timers :: "nat list"
  clipboard_text :: string

definition modal_init :: embed_modal where
  "modal_init = \<lparr>copied = False, modal_instance = 0, writes = [], copy_timers = [], clipboard_text = []\<rparr>"

text \<open>\<open>{showEmbedModal && <EmbedModal .../>}\<close> becoming true mounts a fresh instance.\<close>

definition mount_modal :: "embed_modal \<Rightarrow> embed_modal" where
  "mount_modal m = m\<lparr>copied := False, modal_instance := Suc (modal_instance m)\<rparr>"

text \<open>\<open>handleCopy\<close>: the snippet of the page address \<open>href\<close> is handed to the clipboard.\<close>

definition handleCopy :: "string \<Rightarrow> embed_modal \<Rightarrow> embed_modal" where
  "handleCopy href m = m\<lparr>writes := writes m @ [(modal_instance m, embedCode href)]\<rparr>"

text \<open>
  The \<open>then\<close> callback of a write started by instance \<open>g\<close>: the clipboard holds the text,
  \<open>setCopied(true)\<close> (effective only on the mounted instance \<open>g\<close>) and
  \<open>setTimeout(() => setCopied(false), 2000)\<close>, scheduled in any case.
\<close>

definition copy_resolved :: "bool \<Rightarrow> nat \<Rightarrow> string \<Rightarrow> embed_modal \<Rightarrow> embed_modal" where
  "copy_resolved mounted g txt m =
     (let m' = m\<lparr>clipboard_text := txt, copy_timers := copy_timers m @ [g]\<rparr>
      in if mounted \<and> g = modal_instance m then m'\<lparr>copied := True\<rparr> else m')"

definition copy_timer_fired :: "bool \<Rightarrow> nat \<Rightarrow> embed_modal \<Rightarrow> embed_modal" where
  "copy_timer_fired mounted g m = (if mounted \<and> g = modal_instance m then m\<lparr>copied := False\<rparr> else m)"

text \<open>
  The modal's events: a click on "Copy Code" (the page address is the event's
  parameter), the \<open>k\<close>-th clipboard write settling (a rejected write has no handler and
  changes nothing), the \<open>k\<close>-th pending timer firing. \<open>mounted\<close> is App's
  \<open>showEmbedModal\<close>; the button exists only on a mounted modal.
\<close>

datatype modal_event = ClickCopy string | WriteSettled nat bool | CopyTimerElapsed nat

fun modal_step :: "bool \<Rightarrow> embed_modal \<Rightarrow> modal_event \<Rightarrow> embed_modal" where
  "modal_step mounted m (ClickCopy href) = (if mounted then handleCopy href m else m)"
| "modal_step mounted m (WriteSettled k ok) =
     (if k < length (writes m) then
        (case writes m ! k of
           (g, txt) \<Rightarrow>
             (let m' = m\<lparr>writes := remove_index k (writes m)\<rparr>
              in if ok then copy_resolved mounted g txt m' else m'))
      else m)"
| "modal_step mounted m (CopyTimerElapsed k) =
     (if k < length (copy_timers m) then
        copy_timer_fired mounted (copy_timers m ! k) (m\<lparr>copy_timers := remove_index k (copy_timers m)\<rparr>)
      else m)"

text \<open>
  The invariant of the modal: every callback was started by the current instance or an
  earlier one, and while the modal is mounted and shows "Copied!" a timer of this
  instance is pending, so the label is always going to be cleared.
\<close>

definition modal_inv :: "bool \<Rightarrow> embed_modal \<Rightarrow> bool" where
  "modal_inv mounted m \<longleftrightarrow>
     (\<forall>p \<in> set (writes m). fst p \<le> modal_instance m) \<and>
     (\<forall>g \<in> set (copy_timers m). g \<le> modal_instance m) \<and>
     (mounted \<and> copied m \<longrightarrow> modal_instance m \<in> set (copy_timers m))"

section \<open>Clicks on the modal\<close>

text \<open>
  The elements of the modal's JSX in document order, each with its parent: the
  backdrop \<open><div role="dialog"></div>\<close>, the panel inside it, and the panel's children
  (the X button with its icon, the title row with icon and heading, the paragraph, the
  code box with label and textarea, the row of the copy button). A click lands on one
  element and bubbles to the root through its ancestors; the \<open>onClick\<close> handlers
  are the backdrop's \<open>onClose\<close>, the panel's \<open>e.stopPropagation()\<close>, the X button's
  \<open>onClose\<close> and the copy button's \<open>handleCopy\<close>.
\<close>

datatype modal_node =
  Backdrop | Panel | CloseButton | CloseIcon | TitleRow | CodeIcon | Title | Blurb
  | CodeBox | CodeLabel | CodeArea | CopyRow | CopyButton

fun parent :: "modal_node \<Rightarrow> modal_node option" where
  "parent Backdrop = None"
| "parent Panel = Some Backdrop"
| "parent CloseButton = Some Panel"
| "parent CloseIcon = Some CloseButton"
| "parent TitleRow = Some Panel"
| "parent CodeIcon = Some TitleRow"
| "parent Title = Some TitleRow"
| "parent Blurb = Some Panel"
| "parent CodeBox = Some Panel"
| "parent CodeLabel = Some CodeBox"
| "parent CodeArea = Some CodeBox"
| "parent CopyRow = Some Panel"
| "parent CopyButton = Some CopyRow"

definition document_order :: "modal_node list" where
  "document_order = [Backdrop, Panel, CloseButton, CloseIcon, TitleRow, CodeIcon, Title, Blurb,
     CodeBox, CodeLabel, CodeArea, CopyRow, CopyButton]"

text \<open>The propagation path of a click: the target, then its ancestors up to the root.\<close>

function bubble :: "modal_node \<Rightarrow> modal_node list" where
  "bubble n = n # (case parent n of None \<Rightarrow> [] | Some p \<Rightarrow> bubble p)"
  by pat_completeness auto
termination
proof (relation "measure (\<lambda>n. length (takeWhile (\<lambda>m. m \<noteq> n) document_order))")
  fix n p assume "parent n = Some p"
  then show "(p, n) \<in> measure (\<lambda>n. length (takeWhile (\<lambda>m. m \<noteq> n) document_order))"
    by (cases n) (auto simp: document_order_def)
qed simp

datatype click_handler = OnClose | StopPropagation | HandleCopy

fun onClick :: "modal_node \<Rightarrow> click_handler option" where
  "onClick Backdrop = Some OnClose"
| "onClick Panel = Some StopPropagation"
| "onClick CloseButton = Some OnClose"
| "onClick CopyButton = Some HandleCopy"
| "onClick _ = None"

section \<open>Lemmas\<close>

lemma dquote_not_in_escape [simp]: "dquote \<notin> set (escape_quotes s)"
  by (induction s) auto

lemma escape_quotes_append [simp]: "escape_quotes (xs @ ys) = escape_quotes xs @ escape_quotes ys"
  by (induction xs) simp_all

lemma count_dquote_escape [simp]: "count_list (escape_quotes s) dquote = 0"
  by (simp add: count_list_0_iff)

lemma unescape_escape_no_amp:
  "CHR ''&'' \<notin> set s \<Longrightarrow> unescape_quot (escape_quotes s) = s"
proof (induction s)
  case Nil
  then show ?case by simp
next
  case (Cons c cs)
  then show ?case by (cases "c = dquote") auto
qed

lemma modal_inv_init: "modal_inv False modal_init"
  by (simp add: modal_inv_def modal_init_def)

lemma modal_inv_mount: "modal_inv b m \<Longrightarrow> modal_inv True (mount_modal m)"
  by (auto simp: modal_inv_def mount_modal_def le_SucI)

lemma modal_inv_unmount: "modal_inv b m \<Longrightarrow> modal_inv False m"
  by (simp add: modal_inv_def)

lemma modal_inv_step: "modal_inv mounted m \<Longrightarrow> modal_inv mounted (modal_step mounted m e)"
proof (cases e)
  case (ClickCopy href)
  assume "modal_inv mounted m"
  with ClickCopy show ?thesis by (auto simp: modal_inv_def handleCopy_def)
next
  case (WriteSettled k ok)
  assume inv: "modal_inv mounted m"
  show ?thesis
  proof (cases "k < length (writes m)")
    case True
    obtain g str where gt: "writes m ! k = (g, str)" by fastforce
    with True have "(g, str) \<in> set (writes m)" by (metis nth_mem)
    with inv have "g \<le> modal_instance m" by (auto simp: modal_inv_def)
    with inv True gt WriteSettled show ?thesis
      using set_remove_index_subset [of k "writes m"]
      by (auto simp: modal_inv_def copy_resolved_def Let_def)
  next
    case False
    with inv WriteSettled show ?thesis by simp
  qed
next
  case (CopyTimerElapsed k)
  assume inv: "modal_inv mounted m"
  show ?thesis
  proof (cases "k < length (copy_timers m)")
    case True
    have cur: "modal_instance m \<in> set (remove_index k (copy_timers m))"
      if "mounted" "copied m" "copy_timers m ! k \<noteq> modal_instance m"
      using inv that in_set_remove_index by (auto simp: modal_inv_def)
    with inv True CopyTimerElapsed show ?thesis
      using set_remove_index_subset [of k "copy_timers m"]
      by (auto simp: modal_inv_def copy_timer_fired_def)
  next
    case False
    with inv CopyTimerElapsed show ?thesis by simp
  qed
qed

section \<open>Properties of the snippet\<close>

text \<open>
  C14. Whatever the page address, the snippet contains exactly the ten double quotes
  that delimit its five attribute values: the address cannot close the \<open>src\<close>
  attribute or add attributes.
\<close>

theorem embed_quote_count: "count_list (embedCode href) dquote = 10"
  by (simp add: embedCode_def)

text \<open>
  C15. For an address without \<open>&\<close>, the \<open>src\<close> attribute an HTML parser reads from
  the snippet, with \<open>&quot;\<close> decoded, is the address itself.
\<close>

theorem embed_src_roundtrip:
  "CHR ''&'' \<notin> set href \<Longrightarrow> unescape_quot (src_value (embedCode href)) = href"
  by (simp add: src_value_def embedCode_def takeWhile_append unescape_escape_no_amp)

theorem embed_src_roundtrip_witness:
  \<open>unescape_quot (src_value (embedCode ''https://x.io/?q="a"'')) = ''https://x.io/?q="a"''\<close>
  by (rule embed_src_roundtrip) simp

end
