(* ===== verification/Workflow.thy ===== *)
theory Workflow
  imports Attachments Submission Embed
begin

text \<open>
  The whole page as one event-driven machine: \<open>App\<close> (src/App.tsx) with its two hooks
  \<open>submittedData\<close> and \<open>showEmbedModal\<close>, the mounted \<open>TimeCapsuleForm\<close>'s state, the
  \<open>EmbedModal\<close>'s state with its own callbacks (Embed), and
  the callbacks the browser still owes: \<open>FileReader\<close> reads in flight and pending
  \<open>setTimeout\<close> continuations of \<open>handleSubmit\<close>. Each callback carries the form
  instance that created it. React mounts a new form instance (fresh hooks) whenever
  \<open>submittedData\<close> goes back to \<open>null\<close>, and a state update of an unmounted instance
  is dropped; \<open>form_instance\<close> numbers the instances so that this is visible.
  An event is one user action or one browser callback; which callback runs next is
  the event's choice, so reads complete in any order.
\<close>

record app_state =
  submittedData :: "TimeCapsuleData option"
  showEmbedModal :: bool
  form :: form_state
  form_instance :: nat
  reads :: "(nat \<times> File) list"
  timers :: "(nat \<times> TimeCapsuleData) list"
  embed :: embed_modal

definition app_init :: app_state where
  "app_init =
     \<lparr>submittedData = None, showEmbedModal = False, form = initial_form, form_instance = 0,
      reads = [], timers = [], embed = modal_init\<rparr>"

text \<open>\<open>{submittedData ? <SuccessScreen .../> : <TimeCapsuleForm .../>}\<close>\<close>

definition form_mounted :: "app_state \<Rightarrow> bool" where
  "form_mounted s \<longleftrightarrow> submittedData s = None"

lemma form_mounted_frame [simp]:
  "form_mounted (s\<lparr>form := st\<rparr>) = form_mounted s"
  "form_mounted (s\<lparr>reads := rs\<rparr>) = form_mounted s"
  "form_mounted (s\<lparr>timers := ts\<rparr>) = form_mounted s"
  "form_mounted (s\<lparr>showEmbedModal := b\<rparr>) = form_mounted s"
  "form_mounted (s\<lparr>form_instance := n\<rparr>) = form_mounted s"
  "form_mounted (s\<lparr>embed := em\<rparr>) = form_mounted s"
  by (simp_all add: form_mounted_def)

section \<open>App's handlers\<close>

definition handleFormSubmit :: "TimeCapsuleData \<Rightarrow> app_state \<Rightarrow> app_state" where
  "handleFormSubmit data s = s\<lparr>submittedData := Some data\<rparr>"

definition handleCreateNew :: "app_state \<Rightarrow> app_state" where
  "handleCreateNew s = s\<lparr>submittedData := None\<rparr>"

text \<open>The render after \<open>submittedData\<close> became \<open>null\<close> mounts a fresh form.\<close>

definition mount_form :: "app_state \<Rightarrow> app_state" where
  "mount_form s = s\<lparr>form := initial_form, form_instance := Suc (form_instance s)\<rparr>"

section \<open>Events and the step function\<close>

datatype event =
    EditEmail string
  | EditLetter string
  | EditDeliveryDate string
  | SelectFiles "File list"
  | ReadComplete nat bool   \<comment> \<open>the k-th read in flight ends, successfully or not\<close>
  | ClickRemove nat         \<comment> \<open>the X button of the k-th tile\<close>
  | ClickSeal int           \<comment> \<open>the submit button, at the given clock value\<close>
  | TimerElapsed nat        \<comment> \<open>the k-th pending 2000 ms timer fires\<close>
  | ClickCreateNew
  | ClickEmbed              \<comment> \<open>the footer's "Embed on your site"\<close>
  | CloseEmbed              \<comment> \<open>the modal's X or a click on its backdrop\<close>
  | Modal modal_event       \<comment> \<open>an event of the mounted embed modal\<close>

text \<open>
  A control that is not on screen, or is disabled, cannot fire: such an event leaves
  the state unchanged. The submit button is \<open>disabled={isLoading}\<close>; the X buttons
  exist for the indices of \<open>previews\<close> and only while \<open>files.length > 0\<close>. While the
  modal is shown, its fixed backdrop covers the footer, so "Embed on your site" cannot
  be clicked; showing the modal mounts a fresh instance of it. \<open>ClickSeal\<close> is the
  form's \<open>submit\<close> event reaching \<open>onSubmit\<close>, and an edit may set any string. A
  browser with constraint validation dispatches the event only when Constraints'
  \<open>constraint_valid\<close> holds and keeps a date input's value a date or empty; the model
  allows every case, so it also covers browsers without these checks.
\<close>

fun app_step :: "app_state \<Rightarrow> event \<Rightarrow> app_state" where
  "app_step s (EditEmail v) =
     (if form_mounted s then s\<lparr>form := (form s)\<lparr>email := v\<rparr>\<rparr> else s)"
| "app_step s (EditLetter v) =
     (if form_mounted s then s\<lparr>form := (form s)\<lparr>letter := v\<rparr>\<rparr> else s)"
| "app_step s (EditDeliveryDate v) =
     (if form_mounted s then s\<lparr>form := (form s)\<lparr>deliveryDate := v\<rparr>\<rparr> else s)"
| "app_step s (SelectFiles fs) =
     (if form_mounted s then
        (case handleFileChange fs (form s) of
           (st, started) \<Rightarrow>
             s\<lparr>form := st, reads := reads s @ map (Pair (form_instance s)) started\<rparr>)
      else s)"
| "app_step s (ReadComplete k ok) =
     (if k < length (reads s) then
        (case reads s ! k of
           (g, f) \<Rightarrow>
             (let s' = s\<lparr>reads := remove_index k (reads s)\<rparr>
              in if g = form_instance s \<and> form_mounted s
                 then s'\<lparr>form := reader_onloadend (read_result f ok) (form s)\<rparr>
                 else s'))
      else s)"
| "app_step s (ClickRemove k) =
     (if form_mounted s \<and> files (form s) \<noteq> [] \<and> k < length (previews (form s))
      then s\<lparr>form := removeFile k (form s)\<rparr> else s)"
| "app_step s (ClickSeal now) =
     (if form_mounted s \<and> \<not> isLoading (form s) then
        (case handleSubmit now (form s) of
           (st, Inl e) \<Rightarrow> s\<lparr>form := st\<rparr>
         | (st, Inr d) \<Rightarrow> s\<lparr>form := st, timers := timers s @ [(form_instance s, d)]\<rparr>)
      else s)"
| "app_step s (TimerElapsed k) =
     (if k < length (timers s) then
        (case timers s ! k of
           (g, d) \<Rightarrow>
             (let s' = s\<lparr>timers := remove_index k (timers s)\<rparr>;
                  s'' = (if g = form_instance s \<and> form_mounted s
                         then s'\<lparr>form := handleSubmit_resume (form s)\<rparr> else s')
              in handleFormSubmit d s''))
      else s)"
| "app_step s ClickCreateNew =
     (if form_mounted s then s else mount_form (handleCreateNew s))"
| "app_step s ClickEmbed =
     (if showEmbedModal s then s else s\<lparr>showEmbedModal := True, embed := mount_modal (embed s)\<rparr>)"
| "app_step s CloseEmbed = s\<lparr>showEmbedModal := False\<rparr>"
| "app_step s (Modal ev) = s\<lparr>embed := modal_step (showEmbedModal s) (embed s) ev\<rparr>"

fun app_run :: "app_state \<Rightarrow> event list \<Rightarrow> app_state" where
  "app_run s [] = s"
| "app_run s (e # es) = app_run (app_step s e) es"

section \<open>Reachable states\<close>

text \<open>
  The states reached from the start by events satisfying \<open>P\<close>; \<open>P = (\<lambda>_. True)\<close>
  gives all reachable states.
\<close>

inductive reach :: "(event \<Rightarrow> bool) \<Rightarrow> app_state \<Rightarrow> bool" for P where
  start: "reach P app_init"
| step: "reach P s \<Longrightarrow> P e \<Longrightarrow> reach P (app_step s e)"

abbreviation reachable :: "app_state \<Rightarrow> bool" where
  "reachable \<equiv> reach (\<lambda>_. True)"

lemma reach_run: "reach P s \<Longrightarrow> \<forall>e \<in> set es. P e \<Longrightarrow> reach P (app_run s es)"
  by (induction es arbitrary: s) (auto intro: reach.step)

lemma reach_mono: "reach P s \<Longrightarrow> (\<And>e. P e \<Longrightarrow> Q e) \<Longrightarrow> reach Q s"
  by (induction rule: reach.induct) (auto intro: reach.intros)

lemma app_run_append: "app_run s (es @ fs) = app_run (app_run s es) fs"
  by (induction es arbitrary: s) simp_all

section \<open>The page invariant\<close>

text \<open>
  Three facts every reachable state keeps: every callback in flight was created by the
  mounted form instance or an earlier one; while the form is mounted, each file has
  either its preview or a read in flight for it (counting, not matching positions);
  at most one submission is in flight, and one is exactly while the mounted form is
  busy.
\<close>

definition inv_instances :: "app_state \<Rightarrow> bool" where
  "inv_instances s \<longleftrightarrow> (\<forall>p \<in> set (reads s). fst p \<le> form_instance s)"

lemma inv_instances_step: "inv_instances s \<Longrightarrow> inv_instances (app_step s e)"
proof (cases e)
  case (SelectFiles fs)
  assume "inv_instances s"
  then show ?thesis using SelectFiles by (auto simp: inv_instances_def handleFileChange_eq)
next
  case (ReadComplete k ok)
  assume "inv_instances s"
  then show ?thesis using ReadComplete set_remove_index_subset [of k "reads s"]
    by (auto simp: inv_instances_def Let_def split: prod.splits)
next
  case (ClickSeal now)
  assume "inv_instances s"
  then show ?thesis using ClickSeal by (auto simp: inv_instances_def split: prod.splits sum.splits)
next
  case (TimerElapsed k)
  assume "inv_instances s"
  then show ?thesis using TimerElapsed by (auto simp: inv_instances_def Let_def handleFormSubmit_def split: prod.splits)
next
  case ClickCreateNew
  assume "inv_instances s"
  then show ?thesis using ClickCreateNew
    by (auto simp: inv_instances_def mount_form_def handleCreateNew_def)
qed (auto simp: inv_instances_def)

definition inv_timers :: "app_state \<Rightarrow> bool" where
  "inv_timers s \<longleftrightarrow>
     length (timers s) \<le> 1 \<and> (timers s \<noteq> [] \<longleftrightarrow> form_mounted s \<and> isLoading (form s))"

lemma inv_timers_step: "inv_timers s \<Longrightarrow> inv_timers (app_step s e)"
proof (cases e)
  case (SelectFiles fs)
  assume "inv_timers s"
  then show ?thesis using SelectFiles by (auto simp: inv_timers_def handleFileChange_eq)
next
  case (ReadComplete k ok)
  assume "inv_timers s"
  then show ?thesis using ReadComplete
    by (auto simp: inv_timers_def Let_def reader_onloadend_def split: prod.splits)
next
  case (ClickRemove k)
  assume "inv_timers s"
  then show ?thesis using ClickRemove by (auto simp: inv_timers_def removeFile_def)
next
  case (ClickSeal now)
  assume inv: "inv_timers s"
  show ?thesis
  proof (cases "form_mounted s \<and> \<not> isLoading (form s)")
    case True
    with inv have "timers s = []" by (simp add: inv_timers_def)
    with True ClickSeal show ?thesis
      by (auto simp: inv_timers_def handleSubmit_def split: option.splits)
  next
    case False
    with inv ClickSeal show ?thesis by auto
  qed
next
  case (TimerElapsed k)
  assume inv: "inv_timers s"
  show ?thesis
  proof (cases "k < length (timers s)")
    case True
    with inv have "k = 0" "length (timers s) = 1" by (auto simp: inv_timers_def)
    then have "remove_index k (timers s) = []" by (simp add: remove_index_eq)
    with True TimerElapsed show ?thesis
      by (auto simp: inv_timers_def Let_def handleFormSubmit_def form_mounted_def split: prod.splits)
  next
    case False
    with inv TimerElapsed show ?thesis by auto
  qed
next
  case ClickCreateNew
  assume "inv_timers s"
  then show ?thesis using ClickCreateNew
    by (auto simp: inv_timers_def mount_form_def handleCreateNew_def form_mounted_def initial_form_def)
qed (auto simp: inv_timers_def)

definition pending_reads :: "app_state \<Rightarrow> (nat \<times> File) list" where
  "pending_reads s = filter (\<lambda>p. fst p = form_instance s) (reads s)"

definition inv_previews :: "app_state \<Rightarrow> bool" where
  "inv_previews s \<longleftrightarrow>
     (form_mounted s \<longrightarrow>
        length (previews (form s)) + length (pending_reads s) = length (files (form s)))"

lemma pending_reads_frame [simp]:
  "pending_reads (s\<lparr>form := st\<rparr>) = pending_reads s"
  "pending_reads (s\<lparr>timers := ts\<rparr>) = pending_reads s"
  "pending_reads (s\<lparr>submittedData := d\<rparr>) = pending_reads s"
  "pending_reads (s\<lparr>showEmbedModal := b\<rparr>) = pending_reads s"
  "pending_reads (s\<lparr>embed := em\<rparr>) = pending_reads s"
  by (simp_all add: pending_reads_def)

lemma length_filter_not_image:
  "length (filter (Not \<circ> is_image) fs) + length (filter is_image fs) = length fs"
  using sum_length_filter_compl [of is_image fs] by (simp add: comp_def)

lemma inv_previews_step:
  assumes inst: "inv_instances s" and inv: "inv_previews s"
  shows "inv_previews (app_step s e)"
proof (cases e)
  case (SelectFiles fs)
  have "length (filter (Not \<circ> is_image) fs) + length (filter is_image fs) = length fs"
    by (rule length_filter_not_image)
  with inv SelectFiles show ?thesis
    by (auto simp: inv_previews_def pending_reads_def handleFileChange_eq comp_def)
next
  case (ReadComplete k ok)
  show ?thesis
  proof (cases "k < length (reads s) \<and> form_mounted s")
    case True
    obtain g f where gf: "reads s ! k = (g, f)" by fastforce
    let ?s' = "s\<lparr>reads := remove_index k (reads s)\<rparr>"
    have rem: "length (pending_reads ?s')
          = length (pending_reads s) - (if g = form_instance s then 1 else 0)"
      using length_filter_remove_index [of k "reads s"] True gf by (simp add: pending_reads_def)
    have pos: "g = form_instance s \<Longrightarrow> length (pending_reads s) \<noteq> 0"
      using True gf by (force simp: pending_reads_def filter_empty_conv in_set_conv_nth)
    have old: "length (previews (form s)) + length (pending_reads s) = length (files (form s))"
      using inv True by (simp add: inv_previews_def)
    show ?thesis
    proof (cases "g = form_instance s")
      case True
      then obtain m where m: "length (pending_reads s) = Suc m"
        using pos by (cases "length (pending_reads s)") auto
      with True rem old show ?thesis using ReadComplete \<open>k < length (reads s) \<and> form_mounted s\<close> gf
        by (simp add: inv_previews_def reader_onloadend_def pending_reads_def [symmetric])
    next
      case False
      with rem old show ?thesis using ReadComplete \<open>k < length (reads s) \<and> form_mounted s\<close> gf
        by (simp add: inv_previews_def pending_reads_def [symmetric])
    qed
  next
    case False
    with inv ReadComplete show ?thesis
      by (auto simp: inv_previews_def Let_def split: prod.splits)
  qed
next
  case (ClickRemove k)
  with inv show ?thesis
    by (auto simp: inv_previews_def pending_reads_def removeFile_def)
next
  case (ClickSeal now)
  with inv show ?thesis
    by (auto simp: inv_previews_def handleSubmit_def split: option.splits)
next
  case (TimerElapsed k)
  with inv show ?thesis
    by (auto simp: inv_previews_def Let_def handleFormSubmit_def form_mounted_def split: prod.splits)
next
  case ClickCreateNew
  have "pending_reads (mount_form (handleCreateNew s)) = []"
    using inst by (force simp: pending_reads_def inv_instances_def mount_form_def handleCreateNew_def filter_empty_conv)
  with inv ClickCreateNew show ?thesis
    by (auto simp: inv_previews_def mount_form_def handleCreateNew_def initial_form_def)
qed (use inv in \<open>auto simp: inv_previews_def pending_reads_def\<close>)

definition app_inv :: "app_state \<Rightarrow> bool" where
  "app_inv s \<longleftrightarrow> inv_instances s \<and> inv_previews s \<and> inv_timers s"

lemma app_inv_init: "app_inv app_init"
  by (simp add: app_inv_def inv_instances_def inv_previews_def inv_timers_def pending_reads_def
      app_init_def initial_form_def form_mounted_def)

lemma app_inv_step: "app_inv s \<Longrightarrow> app_inv (app_step s e)"
  by (simp add: app_inv_def inv_instances_step inv_previews_step inv_timers_step)

lemma reach_app_inv: "reach P s \<Longrightarrow> app_inv s"
proof (induction rule: reach.induct)
  case start
  show ?case by (rule app_inv_init)
next
  case (step s e)
  from step.IH show ?case by (rule app_inv_step)
qed

lemmas reach_invs = reach_app_inv [unfolded app_inv_def]

section \<open>Runs from a state\<close>

lemma render_memories_Some:
  "length (previews st) \<le> length (files st) \<Longrightarrow> render_memories st \<noteq> None"
  using render_tiles_Some_iff [of "files st" 0 "previews st"] by (auto simp: render_memories_def)

lemma timers_single_step:
  assumes inv: "app_inv s" and t: "timers s = [t]" and e: "\<forall>k. e \<noteq> TimerElapsed k"
  shows "timers (app_step s e) = [t]"
proof -
  from inv t have busy: "form_mounted s" "isLoading (form s)"
    by (auto simp: app_inv_def inv_timers_def)
  show ?thesis
    using busy t e by (cases e) (auto simp: Let_def split: prod.splits)
qed

lemma timers_single_run:
  "app_inv s \<Longrightarrow> timers s = [t] \<Longrightarrow> \<forall>e \<in> set es. \<forall>k. e \<noteq> TimerElapsed k \<Longrightarrow>
   app_inv (app_run s es) \<and> timers (app_run s es) = [t]"
proof (induction es arbitrary: s)
  case Nil
  then show ?case by simp
next
  case (Cons e es)
  then have "app_inv (app_step s e)" "timers (app_step s e) = [t]"
    by (simp_all add: app_inv_step timers_single_step)
  with Cons.IH Cons.prems(3) show ?case by simp
qed

lemma seal_step:
  assumes "form_mounted s" "\<not> isLoading (form s)" "validate now (form s) = None"
  shows "timers (app_step s (ClickSeal now)) = timers s @ [(form_instance s, submitted_data (form s))]"
  using assms by (simp add: handleSubmit_def)

lemma fresh_form_reads:
  assumes "pending_reads s = []" "form_mounted s"
  shows "form (app_step s (ReadComplete k ok)) = form s \<and> pending_reads (app_step s (ReadComplete k ok)) = [] \<and>
         form_mounted (app_step s (ReadComplete k ok))"
proof (cases "k < length (reads s)")
  case True
  obtain g f where gf: "reads s ! k = (g, f)" by fastforce
  have "g \<noteq> form_instance s"
    using assms(1) True gf by (force simp: pending_reads_def filter_empty_conv in_set_conv_nth)
  moreover have "pending_reads (s\<lparr>reads := remove_index k (reads s)\<rparr>) = []"
    using assms(1) set_remove_index_subset [of k "reads s"] by (force simp: pending_reads_def filter_empty_conv)
  ultimately show ?thesis using True gf assms(2) by (simp add: Let_def)
next
  case False
  with assms show ?thesis by simp
qed

lemma fresh_form_read_run:
  "pending_reads s = [] \<Longrightarrow> form_mounted s \<Longrightarrow>
   form (app_run s (map (\<lambda>(k, ok). ReadComplete k ok) rs)) = form s"
proof (induction rs arbitrary: s)
  case Nil
  then show ?case by simp
next
  case (Cons r rs)
  obtain k ok where r: "r = (k, ok)" by fastforce
  from fresh_form_reads [OF Cons.prems] Cons.IH [of "app_step s (ReadComplete k ok)"] r
  show ?case by simp
qed

lemma create_new_fresh:
  assumes "app_inv s" "\<not> form_mounted s"
  shows "form_mounted (app_step s ClickCreateNew) \<and> form (app_step s ClickCreateNew) = initial_form \<and>
         pending_reads (app_step s ClickCreateNew) = [] \<and> timers (app_step s ClickCreateNew) = []"
  using assms by (force simp: app_inv_def inv_instances_def inv_timers_def pending_reads_def
      mount_form_def handleCreateNew_def form_mounted_def filter_empty_conv)

section \<open>Properties of the page\<close>

text \<open>
  C1. Preview bookkeeping: in every reachable state in which the form is mounted, the
  number of previews plus the number of image reads still in flight for that form
  equals the number of attached files; no file is ever without a preview or a pending
  read, and no preview is without a file.
\<close>
theorem preview_count_invariant:
  "reachable s \<Longrightarrow> form_mounted s \<Longrightarrow>
   length (previews (form s)) + length (pending_reads s) = length (files (form s))"
  using reach_invs by (auto simp: inv_previews_def)

theorem preview_count_invariant_witness:
  "length (previews (form (app_run app_init
      [SelectFiles [\<lparr>name = ''a.png'', type = ''image/png'', bytes = [137]\<rparr>,
                    \<lparr>name = ''b.txt'', type = ''text/plain'', bytes = []\<rparr>]])))
   + length (pending_reads (app_run app_init
      [SelectFiles [\<lparr>name = ''a.png'', type = ''image/png'', bytes = [137]\<rparr>,
                    \<lparr>name = ''b.txt'', type = ''text/plain'', bytes = []\<rparr>]])) = 2"
proof -
  let ?s = "app_run app_init
      [SelectFiles [\<lparr>name = ''a.png'', type = ''image/png'', bytes = [137]\<rparr>,
                    \<lparr>name = ''b.txt'', type = ''text/plain'', bytes = []\<rparr>]]"
  have r: "reachable ?s" by (rule reach_run [OF reach.start]) simp
  have m: "form_mounted ?s"
    by (simp add: app_init_def form_mounted_def handleFileChange_eq)
  have "length (files (form ?s)) = 2"
    by (simp add: app_init_def form_mounted_def handleFileChange_eq initial_form_def)
  with preview_count_invariant [OF r m] show ?thesis by simp
qed


text \<open>
  C2. The memories grid never throws: in every reachable state with the form mounted,
  each tile's caption \<open>files[index].name\<close> reads an index inside \<open>files\<close>.
\<close>
theorem memories_render_total:
  "reachable s \<Longrightarrow> form_mounted s \<Longrightarrow> render_memories (form s) \<noteq> None"
proof -
  assume r: "reachable s" and m: "form_mounted s"
  from reach_invs [OF r] m
  have "length (previews (form s)) \<le> length (files (form s))"
    by (auto simp: inv_previews_def)
  then show ?thesis by (rule render_memories_Some)
qed

text \<open>
  C3. At most one submission is in flight: whenever a submission's timer is pending
  there is exactly one, the form is busy, and a further click on the (disabled) seal
  button changes nothing.
\<close>
theorem single_submission_in_flight:
  "reachable s \<Longrightarrow> timers s \<noteq> [] \<Longrightarrow>
   length (timers s) = 1 \<and> isLoading (form s) \<and> app_step s (ClickSeal now) = s"
proof -
  assume r: "reachable s" and t: "timers s \<noteq> []"
  from reach_invs [OF r] have "inv_timers s" by simp
  with t have "length (timers s) \<le> 1" "form_mounted s" "isLoading (form s)"
    by (auto simp: inv_timers_def)
  with t have "length (timers s) = 1" "form_mounted s" "isLoading (form s)"
    by (auto simp: length_le_1_nonempty)
  then show ?thesis by simp
qed

text \<open>
  C4. The sealed record is the draft at the moment of the click: from a reachable idle
  form whose draft passes validation, after the seal click, any interleaving of other
  events (edits, selections, reads, clicks) before the timer fires, the App receives
  exactly \<open>{email, letter, deliveryDate, files}\<close> as they were at the click.
\<close>
theorem sealed_record_is_draft_at_click:
  assumes r: "reachable s" and m: "form_mounted s" and idle: "\<not> isLoading (form s)"
    and ok: "validate now (form s) = None"
    and no_timer: "\<forall>e \<in> set es. \<forall>k. e \<noteq> TimerElapsed k"
  shows "submittedData (app_step (app_run (app_step s (ClickSeal now)) es) (TimerElapsed 0))
         = Some (submitted_data (form s))"
proof -
  let ?s1 = "app_step s (ClickSeal now)"
  have inv: "app_inv s" using r by (rule reach_app_inv)
  then have "timers s = []" using m idle by (auto simp: app_inv_def inv_timers_def)
  with seal_step [OF m idle ok] have t1: "timers ?s1 = [(form_instance s, submitted_data (form s))]"
    by simp
  have "app_inv ?s1" using inv by (rule app_inv_step)
  from timers_single_run [OF this t1 no_timer]
  have "timers (app_run ?s1 es) = [(form_instance s, submitted_data (form s))]" by simp
  then show ?thesis by (simp add: Let_def handleFormSubmit_def split: prod.splits)
qed


theorem memories_render_total_witness:
  "render_memories (form (app_run app_init
      [SelectFiles [\<lparr>name = ''a.png'', type = ''image/png'', bytes = [137]\<rparr>]])) \<noteq> None"
proof -
  let ?s = "app_run app_init [SelectFiles [\<lparr>name = ''a.png'', type = ''image/png'', bytes = [137]\<rparr>]]"
  have r: "reachable ?s" by (rule reach_run [OF reach.start]) simp
  have m: "form_mounted ?s" by (simp add: app_init_def form_mounted_def handleFileChange_eq)
  from memories_render_total [OF r m] show ?thesis .
qed

theorem single_submission_in_flight_witness:
  "length (timers (app_run app_init [EditEmail ''a@b.com'', EditLetter ''hi'',
       EditDeliveryDate ''2026-01-05'', ClickSeal 1767484800000])) = 1 \<and>
   isLoading (form (app_run app_init [EditEmail ''a@b.com'', EditLetter ''hi'',
       EditDeliveryDate ''2026-01-05'', ClickSeal 1767484800000])) \<and>
   app_step (app_run app_init [EditEmail ''a@b.com'', EditLetter ''hi'',
       EditDeliveryDate ''2026-01-05'', ClickSeal 1767484800000]) (ClickSeal 1767484900000)
   = app_run app_init [EditEmail ''a@b.com'', EditLetter ''hi'',
       EditDeliveryDate ''2026-01-05'', ClickSeal 1767484800000]"
proof -
  let ?s = "app_run app_init [EditEmail ''a@b.com'', EditLetter ''hi'',
       EditDeliveryDate ''2026-01-05'', ClickSeal 1767484800000]"
  have r: "reachable ?s" by (rule reach_run [OF reach.start]) simp
  have t: "timers ?s \<noteq> []"
    by (simp add: app_init_def initial_form_def form_mounted_def handleSubmit_def validate_def
        date_parse_eval)
  from single_submission_in_flight [OF r t] show ?thesis .
qed

theorem sealed_record_is_draft_at_click_witness:
  "submittedData (app_step (app_run (app_step
      (app_run app_init [EditEmail ''a@b.com'', EditLetter ''hi'', EditDeliveryDate ''2026-01-05''])
      (ClickSeal 1767484800000)) [EditEmail ''x@y.org'', ClickSeal 1767484800001]) (TimerElapsed 0))
   = Some \<lparr>email = ''a@b.com'', letter = ''hi'', deliveryDate = ''2026-01-05'', files = []\<rparr>"
proof -
  let ?s = "app_run app_init [EditEmail ''a@b.com'', EditLetter ''hi'', EditDeliveryDate ''2026-01-05'']"
  have r: "reachable ?s" by (rule reach_run [OF reach.start]) simp
  have m: "form_mounted ?s" by (simp add: app_init_def form_mounted_def)
  have idle: "\<not> isLoading (form ?s)" by (simp add: app_init_def initial_form_def form_mounted_def)
  have ok: "validate 1767484800000 (form ?s) = None"
    by (simp add: app_init_def initial_form_def form_mounted_def validate_def date_parse_eval)
  have nt: "\<forall>e \<in> set [EditEmail ''x@y.org'', ClickSeal 1767484800001]. \<forall>k. e \<noteq> TimerElapsed k"
    by simp
  from sealed_record_is_draft_at_click [OF r m idle ok nt] show ?thesis
    by (simp add: app_init_def initial_form_def form_mounted_def submitted_data_def)
qed

text \<open>
  C5. "Create Another Capsule" after a successful submission mounts a fresh form: empty
  draft, no previews, not busy, no error, no read and no submission in flight for it.
\<close>
theorem create_another_resets:
  "reachable s \<Longrightarrow> \<not> form_mounted s \<Longrightarrow>
   form_mounted (app_step s ClickCreateNew) \<and> form (app_step s ClickCreateNew) = initial_form \<and>
   pending_reads (app_step s ClickCreateNew) = [] \<and> timers (app_step s ClickCreateNew) = []"
  by (rule create_new_fresh) (rule reach_app_inv)

text \<open>
  C6. No stale preview write: reads started by a form that has been sealed complete
  into nothing; whatever completions arrive after "Create Another Capsule", the fresh
  form stays empty.
\<close>
theorem no_stale_preview_write:
  assumes r: "reachable s" and sealed: "\<not> form_mounted s"
  shows "form (app_run (app_step s ClickCreateNew) (map (\<lambda>(k, ok). ReadComplete k ok) rs))
         = initial_form"
proof -
  have "app_inv s" using r by (rule reach_app_inv)
  from create_new_fresh [OF this sealed]
  have "pending_reads (app_step s ClickCreateNew) = []" "form_mounted (app_step s ClickCreateNew)"
    and f: "form (app_step s ClickCreateNew) = initial_form" by simp_all
  from fresh_form_read_run [OF this(1,2)] f show ?thesis by simp
qed


theorem create_another_resets_witness:
  "form_mounted (app_step (app_run app_init [EditEmail ''a@b.com'', EditLetter ''hi'',
       EditDeliveryDate ''2026-01-05'', ClickSeal 1767484800000, TimerElapsed 0]) ClickCreateNew) \<and>
   form (app_step (app_run app_init [EditEmail ''a@b.com'', EditLetter ''hi'',
       EditDeliveryDate ''2026-01-05'', ClickSeal 1767484800000, TimerElapsed 0]) ClickCreateNew)
     = initial_form \<and>
   pending_reads (app_step (app_run app_init [EditEmail ''a@b.com'', EditLetter ''hi'',
       EditDeliveryDate ''2026-01-05'', ClickSeal 1767484800000, TimerElapsed 0]) ClickCreateNew) = [] \<and>
   timers (app_step (app_run app_init [EditEmail ''a@b.com'', EditLetter ''hi'',
       EditDeliveryDate ''2026-01-05'', ClickSeal 1767484800000, TimerElapsed 0]) ClickCreateNew) = []"
proof -
  let ?s = "app_run app_init [EditEmail ''a@b.com'', EditLetter ''hi'',
       EditDeliveryDate ''2026-01-05'', ClickSeal 1767484800000, TimerElapsed 0]"
  have r: "reachable ?s" by (rule reach_run [OF reach.start]) simp
  have m: "\<not> form_mounted ?s"
    by (simp add: app_init_def initial_form_def form_mounted_def handleSubmit_def validate_def
        date_parse_eval Let_def handleFormSubmit_def)
  from create_another_resets [OF r m] show ?thesis .
qed

theorem no_stale_preview_write_witness:
  "form (app_run (app_step (app_run app_init [EditEmail ''a@b.com'', EditLetter ''hi'',
       EditDeliveryDate ''2026-01-05'',
       SelectFiles [\<lparr>name = ''a.png'', type = ''image/png'', bytes = [137]\<rparr>],
       ClickSeal 1767484800000, TimerElapsed 0]) ClickCreateNew)
     (map (\<lambda>(k, ok). ReadComplete k ok) [(0, True)])) = initial_form"
proof -
  let ?s = "app_run app_init [EditEmail ''a@b.com'', EditLetter ''hi'',
       EditDeliveryDate ''2026-01-05'',
       SelectFiles [\<lparr>name = ''a.png'', type = ''image/png'', bytes = [137]\<rparr>],
       ClickSeal 1767484800000, TimerElapsed 0]"
  have r: "reachable ?s" by (rule reach_run [OF reach.start]) simp
  have m: "\<not> form_mounted ?s"
    by (simp add: app_init_def initial_form_def form_mounted_def handleSubmit_def validate_def
        date_parse_eval Let_def handleFormSubmit_def handleFileChange_eq)
  from no_stale_preview_write [OF r m] show ?thesis .
qed

text \<open>
  C10. Previews are not aligned with files: on the mounted form, with as many previews
  as files, selecting an image \<open>f\<close> and then a non-image \<open>g\<close>, the placeholder of
  \<open>g\<close> is queued at once while the thumbnail of \<open>f\<close> arrives only when its read
  completes; so the tile after the existing ones shows the document icon captioned with
  the image's name, and once the read completes the next tile shows the image's
  thumbnail captioned with the other file's name.
\<close>

theorem previews_misaligned:
  assumes m: "form_mounted s" and l: "length (previews (form s)) = length (files (form s))"
    and f: "is_image f" and g: "\<not> is_image g"
  shows "(\<exists>ts. render_memories (form (app_step s (SelectFiles [f, g]))) = Some ts \<and>
            ts ! length (files (form s)) = DocumentTile (name f)) \<and>
         (\<exists>ts. render_memories (form (app_run s [SelectFiles [f, g], ReadComplete (length (reads s)) True]))
              = Some ts \<and>
            ts ! Suc (length (files (form s))) = ImageTile (Some (data_url f)) (name g))"
proof -
  let ?n = "length (files (form s))"
  have s1: "form (app_step s (SelectFiles [f, g])) =
      (form s)\<lparr>files := files (form s) @ [f, g], previews := previews (form s) @ [placeholder]\<rparr>"
    using m f g by (simp add: handleFileChange_eq)
  have s2: "form (app_run s [SelectFiles [f, g], ReadComplete (length (reads s)) True]) =
      (form s)\<lparr>files := files (form s) @ [f, g],
                previews := previews (form s) @ [placeholder, Some (data_url f)]\<rparr>"
    using m f g by (simp add: handleFileChange_eq nth_append Let_def reader_onloadend_def read_result_def)
  have np: "Some (data_url f) \<noteq> placeholder" by (simp add: placeholder_def data_url_def)
  show ?thesis
    using render_memories_nth [of "form (app_step s (SelectFiles [f, g]))" ?n]
      render_memories_nth [of "form (app_run s [SelectFiles [f, g], ReadComplete (length (reads s)) True])" "Suc ?n"]
    unfolding s1 s2 using l np by (simp add: nth_append)
qed

theorem previews_misaligned_witness:
  "(\<exists>ts. render_memories (form (app_step app_init (SelectFiles [\<lparr>name = ''a.png'', type = ''image/png'', bytes = [137]\<rparr>,
        \<lparr>name = ''b.txt'', type = ''text/plain'', bytes = []\<rparr>]))) = Some ts \<and>
      ts ! length (files (form app_init)) = DocumentTile ''a.png'') \<and>
   (\<exists>ts. render_memories (form (app_run app_init [SelectFiles [\<lparr>name = ''a.png'', type = ''image/png'', bytes = [137]\<rparr>,
        \<lparr>name = ''b.txt'', type = ''text/plain'', bytes = []\<rparr>], ReadComplete (length (reads app_init)) True])) = Some ts \<and>
      ts ! Suc (length (files (form app_init))) =
        ImageTile (Some (data_url \<lparr>name = ''a.png'', type = ''image/png'', bytes = [137]\<rparr>)) ''b.txt'')"
  using previews_misaligned [of app_init "\<lparr>name = ''a.png'', type = ''image/png'', bytes = [137]\<rparr>"
      "\<lparr>name = ''b.txt'', type = ''text/plain'', bytes = []\<rparr>"]
  by (simp add: app_init_def initial_form_def form_mounted_def is_image_def startsWith_def)

text \<open>
  C11. A failed read is not degraded to the placeholder: when a read of the mounted form
  fails, \<open>onloadend\<close> still appends \<open>reader.result\<close>, which is \<open>null\<close>, and the grid
  draws an image tile with no source for it.
\<close>

theorem failed_read_shown_as_image:
  assumes m: "form_mounted s" and k: "k < length (reads s)" "fst (reads s ! k) = form_instance s"
    and l: "length (previews (form s)) < length (files (form s))"
  shows "\<exists>ts. render_memories (form (app_step s (ReadComplete k False))) = Some ts \<and>
           ts ! length (previews (form s)) = ImageTile None (name (files (form s) ! length (previews (form s))))"
proof -
  obtain f where r: "reads s ! k = (form_instance s, f)" using k(2) by (cases "reads s ! k") simp
  have s1: "form (app_step s (ReadComplete k False)) = (form s)\<lparr>previews := previews (form s) @ [None]\<rparr>"
    using m k(1) r by (simp add: Let_def reader_onloadend_def read_result_def)
  show ?thesis
    using render_memories_nth [of "form (app_step s (ReadComplete k False))" "length (previews (form s))"]
    unfolding s1 using l by (simp add: placeholder_def)
qed

theorem failed_read_shown_as_image_witness:
  "\<exists>ts. render_memories (form (app_step (app_step app_init
       (SelectFiles [\<lparr>name = ''a.png'', type = ''image/png'', bytes = [137]\<rparr>])) (ReadComplete 0 False))) = Some ts \<and>
     ts ! 0 = ImageTile None ''a.png''"
proof -
  let ?s = "app_step app_init (SelectFiles [\<lparr>name = ''a.png'', type = ''image/png'', bytes = [137]\<rparr>])"
  have e: "form ?s = initial_form\<lparr>files := [\<lparr>name = ''a.png'', type = ''image/png'', bytes = [137]\<rparr>]\<rparr>"
    "reads ?s = [(0, \<lparr>name = ''a.png'', type = ''image/png'', bytes = [137]\<rparr>)]" "form_instance ?s = 0"
    "form_mounted ?s"
    by (simp_all add: app_init_def initial_form_def form_mounted_def handleFileChange_eq is_image_def startsWith_def)
  have h: "form_mounted ?s" "0 < length (reads ?s)" "fst (reads ?s ! 0) = form_instance ?s"
    "length (previews (form ?s)) < length (files (form ?s))"
    using e by (simp_all add: initial_form_def)
  from failed_read_shown_as_image [OF h] show ?thesis using e by (simp add: initial_form_def)
qed

text \<open>
  C16. Removing a tile while an image read is in flight attaches the late thumbnail to
  the wrong file: on the mounted form, with as many previews as files, after selecting
  an image \<open>f\<close> and a non-image \<open>g\<close>, the new tile is captioned with \<open>f\<close> but carries
  \<open>g\<close>'s placeholder; removing it deletes \<open>f\<close> from the files, and when \<open>f\<close>'s read
  completes its thumbnail is shown captioned with \<open>g\<close>'s name.
\<close>

theorem removal_before_read_mislabels:
  assumes m: "form_mounted s" and l: "length (previews (form s)) = length (files (form s))"
    and f: "is_image f" and g: "\<not> is_image g"
  shows "files (form (app_run s [SelectFiles [f, g], ClickRemove (length (files (form s))),
                                  ReadComplete (length (reads s)) True])) = files (form s) @ [g] \<and>
         (\<exists>ts. render_memories (form (app_run s [SelectFiles [f, g], ClickRemove (length (files (form s))),
                                  ReadComplete (length (reads s)) True])) = Some ts \<and>
            ts ! length (files (form s)) = ImageTile (Some (data_url f)) (name g))"
proof -
  let ?n = "length (files (form s))"
  let ?es = "[SelectFiles [f, g], ClickRemove ?n, ReadComplete (length (reads s)) True]"
  have s3: "form (app_run s ?es) =
      (form s)\<lparr>files := files (form s) @ [g], previews := previews (form s) @ [Some (data_url f)]\<rparr>"
    using m l f g
    by (simp add: handleFileChange_eq removeFile_def remove_index_eq nth_append Let_def
        reader_onloadend_def read_result_def)
  have np: "Some (data_url f) \<noteq> placeholder" by (simp add: placeholder_def data_url_def)
  show ?thesis
    using render_memories_nth [of "form (app_run s ?es)" ?n]
    unfolding s3 using l np by (simp add: nth_append)
qed

theorem removal_before_read_mislabels_witness:
  "files (form (app_run app_init [SelectFiles [\<lparr>name = ''a.png'', type = ''image/png'', bytes = [137]\<rparr>,
        \<lparr>name = ''b.txt'', type = ''text/plain'', bytes = []\<rparr>], ClickRemove (length (files (form app_init))),
        ReadComplete (length (reads app_init)) True])) =
     files (form app_init) @ [\<lparr>name = ''b.txt'', type = ''text/plain'', bytes = []\<rparr>] \<and>
   (\<exists>ts. render_memories (form (app_run app_init [SelectFiles [\<lparr>name = ''a.png'', type = ''image/png'', bytes = [137]\<rparr>,
        \<lparr>name = ''b.txt'', type = ''text/plain'', bytes = []\<rparr>], ClickRemove (length (files (form app_init))),
        ReadComplete (length (reads app_init)) True])) = Some ts \<and>
      ts ! length (files (form app_init)) =
        ImageTile (Some (data_url \<lparr>name = ''a.png'', type = ''image/png'', bytes = [137]\<rparr>)) ''b.txt'')"
  using removal_before_read_mislabels [of app_init "\<lparr>name = ''a.png'', type = ''image/png'', bytes = [137]\<rparr>"
      "\<lparr>name = ''b.txt'', type = ''text/plain'', bytes = []\<rparr>"]
  by (simp add: app_init_def initial_form_def form_mounted_def is_image_def startsWith_def)

section \<open>Runs without removal or failed reads\<close>

text \<open>
  The spec's count property holds for the runs it describes: no file is removed and
  every read succeeds. Then the previews of the mounted form and the thumbnails still
  owed by its reads are, as a multiset, exactly the expected previews of its files.
\<close>

fun benign :: "event \<Rightarrow> bool" where
  "benign (ClickRemove k) = False"
| "benign (ReadComplete k ok) = ok"
| "benign e = True"

definition inv_mset :: "app_state \<Rightarrow> bool" where
  "inv_mset s \<longleftrightarrow>
     (form_mounted s \<longrightarrow>
        mset (previews (form s)) + mset (map (\<lambda>p. Some (data_url (snd p))) (pending_reads s))
        = mset (map expected_preview (files (form s))))"

lemma inv_mset_step:
  assumes e: "benign e" and inst: "inv_instances s" and inv: "inv_mset s"
  shows "inv_mset (app_step s e)"
proof (cases e)
  case (SelectFiles fs)
  show ?thesis
  proof (cases "form_mounted s")
    case True
    have pend: "pending_reads (app_step s e)
                 = pending_reads s @ map (Pair (form_instance s)) (filter is_image fs)"
      using True SelectFiles by (simp add: pending_reads_def handleFileChange_eq)
    have "mset (map (\<lambda>p. Some (data_url (snd p))) (map (Pair (form_instance s)) (filter is_image fs)))
          = mset (map (\<lambda>f. Some (data_url f)) (filter is_image fs))"
      by (simp add: comp_def)
    moreover have old: "image_mset expected_preview (mset (files (form s)))
        = mset (previews (form s)) + image_mset (\<lambda>p. Some (data_url (snd p))) (mset (pending_reads s))"
      using inv True by (simp add: inv_mset_def)
    moreover have "image_mset expected_preview (mset fs) =
        replicate_mset (length (filter (Not \<circ> is_image) fs)) placeholder
        + image_mset (\<lambda>f. Some (data_url f)) (filter_mset is_image (mset fs))"
      using mset_map_expected_preview [of fs] by simp
    ultimately show ?thesis using True SelectFiles pend
      by (simp add: inv_mset_def handleFileChange_eq ac_simps)
  next
    case False
    with SelectFiles show ?thesis by (simp add: inv_mset_def)
  qed
next
  case (ReadComplete k ok)
  with e have ok: "ok" by simp
  show ?thesis
  proof (cases "k < length (reads s) \<and> form_mounted s")
    case True
    obtain g f where gf: "reads s ! k = (g, f)" by fastforce
    let ?P = "\<lambda>p. fst p = form_instance s"
    let ?h = "\<lambda>p. Some (data_url (snd p))"
    let ?s' = "s\<lparr>reads := remove_index k (reads s)\<rparr>"
    have split: "mset (pending_reads ?s') + (if ?P (g, f) then {# (g, f) #} else {#})
                 = mset (pending_reads s)"
      using mset_filter_remove_index [of k "reads s" ?P, unfolded gf] True
      by (simp add: pending_reads_def)
    have old: "mset (previews (form s)) + image_mset ?h (mset (pending_reads s))
               = mset (map expected_preview (files (form s)))"
      using inv True by (simp add: inv_mset_def)
    show ?thesis
    proof (cases "g = form_instance s")
      case True
      from split True have "image_mset ?h (mset (pending_reads ?s') + {# (g, f) #})
                 = image_mset ?h (mset (pending_reads s))" by simp
      then have i: "image_mset ?h (mset (pending_reads ?s')) + {# Some (data_url f) #}
                 = image_mset ?h (mset (pending_reads s))" by simp
      have "mset (previews (form s) @ [Some (data_url f)]) + image_mset ?h (mset (pending_reads ?s'))
            = mset (previews (form s)) + (image_mset ?h (mset (pending_reads ?s')) + {# Some (data_url f) #})"
        by simp
      also have "\<dots> = mset (map expected_preview (files (form s)))" using i old by simp
      finally have new: "mset (previews (form s) @ [Some (data_url f)])
          + image_mset ?h (mset (pending_reads ?s')) = mset (map expected_preview (files (form s)))" .
      from new True \<open>k < length (reads s) \<and> form_mounted s\<close> gf ReadComplete ok show ?thesis
        by (simp only: app_step.simps Let_def split: prod.split)
          (simp add: inv_mset_def reader_onloadend_def read_result_def)
    next
      case False
      from split False have "mset (pending_reads ?s') = mset (pending_reads s)" by simp
      with old False \<open>k < length (reads s) \<and> form_mounted s\<close> gf ReadComplete show ?thesis
        by (simp add: inv_mset_def)
    qed
  next
    case False
    with inv ReadComplete show ?thesis
      by (auto simp: inv_mset_def pending_reads_def Let_def split: prod.splits)
  qed
next
  case (ClickRemove k)
  with e show ?thesis by simp
next
  case (ClickSeal now)
  with inv show ?thesis
    by (auto simp: inv_mset_def handleSubmit_def split: option.splits)
next
  case (TimerElapsed k)
  with inv show ?thesis
    by (auto simp: inv_mset_def Let_def handleFormSubmit_def form_mounted_def split: prod.splits)
next
  case ClickCreateNew
  have "pending_reads (mount_form (handleCreateNew s)) = []"
    using inst by (force simp: pending_reads_def inv_instances_def mount_form_def handleCreateNew_def
        filter_empty_conv)
  with inv ClickCreateNew show ?thesis
    by (auto simp: inv_mset_def mount_form_def handleCreateNew_def initial_form_def)
qed (use inv in \<open>auto simp: inv_mset_def pending_reads_def\<close>)

lemma reach_benign_inv_mset: "reach benign s \<Longrightarrow> inv_mset s"
proof (induction rule: reach.induct)
  case start
  show ?case by (simp add: inv_mset_def app_init_def initial_form_def pending_reads_def)
next
  case (step s e)
  have "inv_instances s" using reach_invs [OF step.hyps(1)] by simp
  from step.hyps(2) this step.IH show ?case by (rule inv_mset_step)
qed


text \<open>
  C12. Once every read has completed (no removal, no failed read), the previews are a
  permutation of the expected previews of the files, whatever the completion order:
  one placeholder per non-image file and one thumbnail per image.
\<close>

theorem preview_kinds_match_files:
  assumes r: "reach benign s" and m: "form_mounted s" and settled: "pending_reads s = []"
  shows "mset (previews (form s)) = mset (map expected_preview (files (form s))) \<and>
         length (filter (\<lambda>p. p = placeholder) (previews (form s)))
           = length (filter (Not \<circ> is_image) (files (form s)))"
proof -
  from reach_benign_inv_mset [OF r] m settled
  have eq: "mset (previews (form s)) = mset (map expected_preview (files (form s)))"
    by (simp add: inv_mset_def)
  then have "length (filter (\<lambda>p. p = placeholder) (previews (form s)))
      = length (filter (\<lambda>p. p = placeholder) (map expected_preview (files (form s))))"
    by (metis mset_filter size_mset)
  with eq placeholders_of_expected [of "files (form s)"] show ?thesis by simp
qed

theorem preview_kinds_match_files_witness:
  "mset (previews (form (app_run app_init
      [SelectFiles [\<lparr>name = ''a.png'', type = ''image/png'', bytes = [137]\<rparr>,
                    \<lparr>name = ''b.txt'', type = ''text/plain'', bytes = []\<rparr>], ReadComplete 0 True])))
   = mset (map expected_preview [\<lparr>name = ''a.png'', type = ''image/png'', bytes = [137]\<rparr>,
                                \<lparr>name = ''b.txt'', type = ''text/plain'', bytes = []\<rparr>])"
proof -
  let ?s = "app_run app_init
      [SelectFiles [\<lparr>name = ''a.png'', type = ''image/png'', bytes = [137]\<rparr>,
                    \<lparr>name = ''b.txt'', type = ''text/plain'', bytes = []\<rparr>], ReadComplete 0 True]"
  have r: "reach benign ?s" by (rule reach_run [OF reach.start]) simp
  have m: "form_mounted ?s"
    by (simp add: app_init_def form_mounted_def handleFileChange_eq Let_def)
  have d: "pending_reads ?s = []"
    by (simp add: app_init_def form_mounted_def handleFileChange_eq Let_def pending_reads_def
        is_image_def startsWith_def remove_index_eq)
  have f: "files (form ?s) = [\<lparr>name = ''a.png'', type = ''image/png'', bytes = [137]\<rparr>,
                    \<lparr>name = ''b.txt'', type = ''text/plain'', bytes = []\<rparr>]"
    by (simp add: app_init_def form_mounted_def handleFileChange_eq Let_def initial_form_def
        is_image_def startsWith_def remove_index_eq reader_onloadend_def)
  from preview_kinds_match_files [OF r m d] f show ?thesis by simp
qed

end
