(* ===== verification/SuccessView.thy ===== *)
theory SuccessView
  imports Workflow
begin

text \<open>
  What \<open>SuccessScreen\<close> (src/components/SuccessScreen.tsx) shows of the record it is
  given: the email, and the delivery date formatted by
  \<open>new Date(deliveryDate + 'T00:00:00').toLocaleDateString('en-US', ...)\<close>.
  \<open>success_screen\<close> is what the page shows in a state of the workflow: the success
  view of \<open>submittedData\<close> when it is set (App's conditional render).
\<close>

record success_view =
  shown_email :: string
  shown_date :: string

definition SuccessScreen :: "TimeCapsuleData \<Rightarrow> success_view" where
  "SuccessScreen data =
     \<lparr>shown_email = email data,
      shown_date = long_date_en_us (deliveryDate data @ ''T00:00:00'')\<rparr>"

definition success_screen :: "app_state \<Rightarrow> success_view option" where
  "success_screen s = map_option SuccessScreen (submittedData s)"

section \<open>Properties of the success screen\<close>



end
