(* ===== verification/EmbedCopy.thy ===== *)
theory EmbedCopy
  imports Workflow
begin

text \<open>
  The embed modal inside the page: App's \<open>showEmbedModal\<close> mounts and unmounts
  \<open>EmbedModal\<close>, whose "Copy Code" button writes the snippet to the clipboard and shows
  "Copied!" for 2000 ms. The form's events never touch the modal; the modal invariant
  of Embed holds in every reachable page state; the copy confirmation always has a
  timer that clears it, only a click of the mounted modal can raise it, and a second
  copy's confirmation is cut short by the first copy's timer.
\<close>

text \<open>The events that belong to App's embed hook or to the modal.\<close>

fun embed_event :: "event \<Rightarrow> bool" where
  "embed_event ClickEmbed = True"
| "embed_event CloseEmbed = True"
| "embed_event (Modal ev) = True"
| "embed_event _ = False"

text \<open>
  The page events a click produces: the handlers along the propagation path run in
  order, \<open>onClose\<close> is App's \<open>() => setShowEmbedModal(false)\<close>, \<open>handleCopy\<close> is the
  modal's, and \<open>stopPropagation\<close> ends the path. The target is the element under the
  pointer, \<open>href\<close> the page address.
\<close>

fun dispatch :: "string \<Rightarrow> modal_node list \<Rightarrow> event list" where
  "dispatch href [] = []"
| "dispatch href (n # ns) =
     (case onClick n of
        None \<Rightarrow> dispatch href ns
      | Some OnClose \<Rightarrow> CloseEmbed # dispatch href ns
      | Some HandleCopy \<Rightarrow> Modal (ClickCopy href) # dispatch href ns
      | Some StopPropagation \<Rightarrow> [])"

definition modal_click :: "string \<Rightarrow> modal_node \<Rightarrow> event list" where
  "modal_click href t = dispatch href (bubble t)"

text \<open>No copy confirmation and no clipboard write of the current modal in flight.\<close>

definition copy_quiet :: "app_state \<Rightarrow> bool" where
  "copy_quiet s \<longleftrightarrow>
     \<not> copied (embed s) \<and> (\<forall>p \<in> set (writes (embed s)). fst p < modal_instance (embed s))"

section \<open>Lemmas\<close>

lemma embed_frame:
  "\<not> embed_event e \<Longrightarrow>
   embed (app_step s e) = embed s \<and> showEmbedModal (app_step s e) = showEmbedModal s"
  by (cases e)
    (auto simp: Let_def handleFormSubmit_def mount_form_def handleCreateNew_def
      split: prod.splits sum.splits)

lemma reach_embed_inv: "reach P s \<Longrightarrow> modal_inv (showEmbedModal s) (embed s)"
proof (induction rule: reach.induct)
  case start
  show ?case by (simp add: app_init_def modal_inv_init)
next
  case (step s e)
  show ?case
  proof (cases "embed_event e")
    case True
    with step.IH show ?thesis
      by (cases e) (auto intro: modal_inv_mount modal_inv_unmount modal_inv_step)
  next
    case False
    with step.IH show ?thesis by (simp add: embed_frame)
  qed
qed

lemma copy_quiet_step:
  assumes q: "copy_quiet s" and e: "\<forall>h. e \<noteq> Modal (ClickCopy h)"
  shows "copy_quiet (app_step s e)"
proof (cases "embed_event e")
  case False
  with q show ?thesis by (simp add: copy_quiet_def embed_frame)
next
  case True
  show ?thesis
  proof (cases e)
    case ClickEmbed
    with q show ?thesis by (auto simp: copy_quiet_def mount_modal_def less_SucI)
  next
    case CloseEmbed
    with q show ?thesis by (simp add: copy_quiet_def)
  next
    case (Modal ev)
    show ?thesis
    proof (cases ev)
      case (ClickCopy h)
      with Modal e show ?thesis by simp
    next
      case (WriteSettled k ok)
      show ?thesis
      proof (cases "k < length (writes (embed s))")
        case True
        obtain g str where gt: "writes (embed s) ! k = (g, str)" by fastforce
        with True have "(g, str) \<in> set (writes (embed s))" by (metis nth_mem)
        with q have "g < modal_instance (embed s)" by (auto simp: copy_quiet_def)
        with q True gt Modal WriteSettled show ?thesis
          using set_remove_index_subset [of k "writes (embed s)"]
          by (auto simp: copy_quiet_def copy_resolved_def Let_def)
      next
        case False
        with q Modal WriteSettled show ?thesis by (simp add: copy_quiet_def)
      qed
    next
      case (CopyTimerElapsed k)
      with q Modal show ?thesis by (auto simp: copy_quiet_def copy_timer_fired_def)
    qed
  qed (use True in simp_all)
qed

lemma copy_quiet_run:
  "copy_quiet s \<Longrightarrow> \<forall>e \<in> set es. \<forall>h. e \<noteq> Modal (ClickCopy h) \<Longrightarrow> copy_quiet (app_run s es)"
  by (induction es arbitrary: s) (simp_all add: copy_quiet_step)

lemma open_modal_quiet:
  assumes "reachable s" "\<not> showEmbedModal s"
  shows "copy_quiet (app_step s ClickEmbed)"
proof -
  from reach_embed_inv [OF assms(1)]
  have "\<forall>p \<in> set (writes (embed s)). fst p \<le> modal_instance (embed s)"
    by (simp add: modal_inv_def)
  with assms(2) show ?thesis by (auto simp: copy_quiet_def mount_modal_def le_imp_less_Suc)
qed

section \<open>Properties of the copy button\<close>

text \<open>
  C18. The "Copied!" label always goes away: in every reachable state in which the
  modal is shown with "Copied!", one of the pending timers clears it when it fires.
\<close>

theorem copied_label_reverts:
  "reachable s \<Longrightarrow> showEmbedModal s \<Longrightarrow> copied (embed s) \<Longrightarrow>
   \<exists>k. \<not> copied (embed (app_step s (Modal (CopyTimerElapsed k))))"
proof -
  assume r: "reachable s" and sh: "showEmbedModal s" and c: "copied (embed s)"
  from reach_embed_inv [OF r] sh c
  have "modal_instance (embed s) \<in> set (copy_timers (embed s))" by (simp add: modal_inv_def)
  then obtain k where k: "k < length (copy_timers (embed s))"
    "copy_timers (embed s) ! k = modal_instance (embed s)" by (metis in_set_conv_nth)
  with sh have "\<not> copied (embed (app_step s (Modal (CopyTimerElapsed k))))"
    by (simp add: copy_timer_fired_def)
  then show ?thesis ..
qed

theorem copied_label_reverts_witness:
  "\<exists>k. \<not> copied (embed (app_step (app_run app_init
      [ClickEmbed, Modal (ClickCopy ''https://x.io/''), Modal (WriteSettled 0 True)])
      (Modal (CopyTimerElapsed k))))"
proof -
  let ?s = "app_run app_init [ClickEmbed, Modal (ClickCopy ''https://x.io/''), Modal (WriteSettled 0 True)]"
  have r: "reachable ?s" by (rule reach_run [OF reach.start]) simp
  have sh: "showEmbedModal ?s" by (simp add: app_init_def)
  have c: "copied (embed ?s)"
    by (simp add: app_init_def modal_init_def mount_modal_def handleCopy_def copy_resolved_def)
  from copied_label_reverts [OF r sh c] show ?thesis .
qed

text \<open>
  C19. Copying puts the snippet on the clipboard: on a shown modal, a click on "Copy
  Code" followed by the success of that write leaves the system clipboard holding
  \<open>embedCode href\<close> and the button reading "Copied!".
\<close>

theorem copy_writes_snippet:
  assumes "showEmbedModal s"
  shows "clipboard_text (embed (app_run s
           [Modal (ClickCopy href), Modal (WriteSettled (length (writes (embed s))) True)])) = embedCode href \<and>
         copied (embed (app_run s
           [Modal (ClickCopy href), Modal (WriteSettled (length (writes (embed s))) True)]))"
  using assms by (simp add: handleCopy_def copy_resolved_def)

theorem copy_writes_snippet_witness:
  "clipboard_text (embed (app_run (app_step app_init ClickEmbed)
     [Modal (ClickCopy ''https://x.io/''), Modal (WriteSettled 0 True)])) = embedCode ''https://x.io/'' \<and>
   copied (embed (app_run (app_step app_init ClickEmbed)
     [Modal (ClickCopy ''https://x.io/''), Modal (WriteSettled 0 True)]))"
proof -
  have sh: "showEmbedModal (app_step app_init ClickEmbed)" by (simp add: app_init_def)
  have w: "length (writes (embed (app_step app_init ClickEmbed))) = 0"
    by (simp add: app_init_def modal_init_def mount_modal_def)
  from copy_writes_snippet [OF sh, of "''https://x.io/''"] show ?thesis by (simp only: w)
qed

text \<open>
  C20. A second copy's confirmation is cut short: on a shown modal, after two copies
  whose writes both succeed, the first copy's timer (which fires first, 2000 ms after
  the first write) clears "Copied!" while the second copy's timer is still pending, so
  the label shows for less than 2000 ms after the latest copy; \<open>handleCopy\<close> does not
  cancel the earlier timer.
\<close>

theorem copied_cleared_early:
  assumes "showEmbedModal s"
  defines "w \<equiv> length (writes (embed s))" and "t \<equiv> length (copy_timers (embed s))"
  shows "\<not> copied (embed (app_run s
            [Modal (ClickCopy href), Modal (WriteSettled w True), Modal (ClickCopy href),
             Modal (WriteSettled w True), Modal (CopyTimerElapsed t)])) \<and>
         copy_timers (embed (app_run s
            [Modal (ClickCopy href), Modal (WriteSettled w True), Modal (ClickCopy href),
             Modal (WriteSettled w True), Modal (CopyTimerElapsed t)])) =
         copy_timers (embed s) @ [modal_instance (embed s)]"
  unfolding w_def t_def using assms(1)
  by (simp add: handleCopy_def copy_resolved_def copy_timer_fired_def remove_index_eq Let_def)

theorem copied_cleared_early_witness:
  "\<not> copied (embed (app_run (app_step app_init ClickEmbed)
      [Modal (ClickCopy ''https://x.io/''), Modal (WriteSettled 0 True), Modal (ClickCopy ''https://x.io/''),
       Modal (WriteSettled 0 True), Modal (CopyTimerElapsed 0)]))"
proof -
  have sh: "showEmbedModal (app_step app_init ClickEmbed)" by (simp add: app_init_def)
  have w: "length (writes (embed (app_step app_init ClickEmbed))) = 0"
    "length (copy_timers (embed (app_step app_init ClickEmbed))) = 0"
    by (simp_all add: app_init_def modal_init_def mount_modal_def)
  from copied_cleared_early [OF sh, of "''https://x.io/''"] show ?thesis
    unfolding w by (rule conjunct1)
qed

text \<open>
  C21. No confirmation without a click: once the modal is opened, whatever the page
  does (stale clipboard writes and timers of an earlier modal completing, closing and
  reopening, form events), "Copied!" is never shown unless "Copy Code" is clicked.
\<close>

theorem no_copied_without_click:
  "reachable s \<Longrightarrow> \<not> showEmbedModal s \<Longrightarrow> \<forall>e \<in> set es. \<forall>h. e \<noteq> Modal (ClickCopy h) \<Longrightarrow>
   \<not> copied (embed (app_run (app_step s ClickEmbed) es))"
proof -
  assume r: "reachable s" and n: "\<not> showEmbedModal s" and es: "\<forall>e \<in> set es. \<forall>h. e \<noteq> Modal (ClickCopy h)"
  from copy_quiet_run [OF open_modal_quiet [OF r n] es] show ?thesis by (simp add: copy_quiet_def)
qed

theorem no_copied_without_click_witness:
  "\<not> copied (embed (app_run (app_step (app_run app_init [ClickEmbed, Modal (ClickCopy ''https://x.io/''), CloseEmbed])
      ClickEmbed) [Modal (WriteSettled 0 True)]))"
proof -
  let ?s = "app_run app_init [ClickEmbed, Modal (ClickCopy ''https://x.io/''), CloseEmbed]"
  have r: "reachable ?s" by (rule reach_run [OF reach.start]) simp
  have n: "\<not> showEmbedModal ?s" by simp
  have es: "\<forall>e \<in> set [Modal (WriteSettled 0 True)]. \<forall>h. e \<noteq> Modal (ClickCopy h)" by simp
  from no_copied_without_click [OF r n es] show ?thesis .
qed

section \<open>Clicks on the modal\<close>

text \<open>
  C27. Only the backdrop and the X close the modal: on a shown modal, a click closes
  it exactly when it lands on the backdrop, the X button or the X's icon (the panel
  stops every other click before it reaches the backdrop), and it starts a clipboard
  write of the snippet exactly when it lands on the copy button.
\<close>

theorem modal_click_closes:
  "showEmbedModal s \<Longrightarrow>
   (showEmbedModal (app_run s (modal_click href t)) \<longleftrightarrow> t \<notin> {Backdrop, CloseButton, CloseIcon}) \<and>
   writes (embed (app_run s (modal_click href t))) =
     writes (embed s) @ (if t = CopyButton then [(modal_instance (embed s), embedCode href)] else [])"
  by (cases t) (simp_all add: modal_click_def handleCopy_def)

theorem modal_click_closes_witness:
  "showEmbedModal (app_run (app_step app_init ClickEmbed) (modal_click ''https://x.io/'' CodeArea)) \<and>
   \<not> showEmbedModal (app_run (app_step app_init ClickEmbed) (modal_click ''https://x.io/'' CloseIcon))"
proof -
  have sh: "showEmbedModal (app_step app_init ClickEmbed)" by (simp add: app_init_def)
  from modal_click_closes [OF sh, of "''https://x.io/''" CodeArea]
    modal_click_closes [OF sh, of "''https://x.io/''" CloseIcon]
  show ?thesis by simp
qed

end
