(* ===== verification/Constraints.thy ===== *)
theory Constraints
  imports Submission
begin

text \<open>
  The browser's constraint validation of the form (HTML's interactive validation),
  which runs before the \<open>submit\<close> event reaches \<open>handleSubmit\<close>: the email input is
  \<open>type="email" required\<close>, the letter \<open>required\<close>, and the delivery date
  \<open>type="date" min={getMinDate()} required\<close> (src/components/TimeCapsuleForm.tsx).
  A form that fails it is not submitted; the browser shows its own message. The
  \<open>min\<close> attribute is computed at the last render, at clock \<open>r\<close>, which may be earlier
  than the clock of the click. \<open>valid_email\<close> is the HTML "valid e-mail address";
  date values are compared as days, a value that is not a date string counts as empty.
\<close>

definition is_alnum :: "char \<Rightarrow> bool" where
  "is_alnum c =
     (let n = of_char c in (48 \<le> n \<and> n \<le> 57) \<or> (65 \<le> n \<and> n \<le> 90) \<or> (97 \<le> n \<and> n \<le> (122::nat)))"

definition email_local_char :: "char \<Rightarrow> bool" where
  "email_local_char c \<longleftrightarrow> is_alnum c \<or> c \<in> set (''.!#$%&*+/=?^_{|}~-'' @ [CHR 0x27, CHR 0x60])"

fun split_on :: "char \<Rightarrow> string \<Rightarrow> string list" where
  "split_on c [] = [[]]"
| "split_on c (x # xs) =
     (if x = c then [] # split_on c xs
      else (case split_on c xs of [] \<Rightarrow> [[x]] | w # ws \<Rightarrow> (x # w) # ws))"

definition label_ok :: "string \<Rightarrow> bool" where
  "label_ok l \<longleftrightarrow>
     l \<noteq> [] \<and> length l \<le> 63 \<and> list_all (\<lambda>c. is_alnum c \<or> c = CHR ''-'') l \<and>
     is_alnum (hd l) \<and> is_alnum (last l)"

definition valid_email :: "string \<Rightarrow> bool" where
  "valid_email s \<longleftrightarrow>
     (let local = takeWhile (\<lambda>c. c \<noteq> CHR ''@'') s; rest = dropWhile (\<lambda>c. c \<noteq> CHR ''@'') s
      in local \<noteq> [] \<and> list_all email_local_char local \<and> rest \<noteq> [] \<and>
         list_all label_ok (split_on CHR ''.'' (tl rest)))"

text \<open>\<open>min\<close> of a date input: a value below the minimum is a range underflow.\<close>

definition date_not_before :: "string \<Rightarrow> string \<Rightarrow> bool" where
  "date_not_before v mn =
     (case (parse_iso_date v, parse_iso_date mn) of
        (None, _) \<Rightarrow> False
      | (Some _, None) \<Rightarrow> True
      | (Some (y, m, d), Some (y', m', d')) \<Rightarrow> days_from_civil y' m' d' \<le> days_from_civil y m d)"

definition constraint_valid :: "int \<Rightarrow> form_state \<Rightarrow> bool" where
  "constraint_valid r st \<longleftrightarrow>
     email st \<noteq> [] \<and> valid_email (email st) \<and> letter st \<noteq> [] \<and>
     deliveryDate st \<noteq> [] \<and> date_not_before (deliveryDate st) (getMinDate r)"

section \<open>Lemmas\<close>

lemma date_not_before_min:
  assumes "date_not_before v mn" "parse_iso_date mn = Some (y', m', d')"
  obtains y m d where "parse_iso_date v = Some (y, m, d)"
    "days_from_civil y' m' d' \<le> days_from_civil y m d"
  using assms by (auto simp: date_not_before_def split: option.splits)

section \<open>What reaches handleSubmit\<close>

text \<open>
  C22. Once the browser's validation has let the form through (with the \<open>min\<close> of the
  last render, at clock \<open>r\<close> no later than the click), \<open>handleSubmit\<close>'s missing-fields
  branch is never taken: the submission is accepted, or refused as a past date, and
  the latter only when the click falls on a later UTC day than the render.
\<close>

theorem validated_submit_outcome:
  assumes cv: "constraint_valid r st" and rn: "r \<le> now"
    and b: "days_from_civil 0 3 1 \<le> r div ms_per_day" "r div ms_per_day + 1 < days_from_civil 9600 3 1"
  shows "validate now st = None \<or>
         (validate now st = Some PastDate \<and> r div ms_per_day < now div ms_per_day)"
proof -
  from getMinDate_day [OF b] obtain y' m' d' where
    mn: "parse_iso_date (getMinDate r) = Some (y', m', d')" and
    dm: "days_from_civil y' m' d' = r div ms_per_day + 1" .
  from cv have f: "email st \<noteq> []" "letter st \<noteq> []" "deliveryDate st \<noteq> []"
    and nb: "date_not_before (deliveryDate st) (getMinDate r)"
    by (simp_all add: constraint_valid_def)
  from date_not_before_min [OF nb mn] obtain y m d where
    p: "parse_iso_date (deliveryDate st) = Some (y, m, d)" and
    le: "days_from_civil y' m' d' \<le> days_from_civil y m d" .
  have v: "validate now st = (if days_from_civil y m d \<le> now div ms_per_day then Some PastDate else None)"
    using f p by (simp add: validate_def js_date_parse_Some day_ms_le_iff)
  show ?thesis
  proof (cases "days_from_civil y m d \<le> now div ms_per_day")
    case True
    with le dm have "r div ms_per_day < now div ms_per_day" by simp
    with True v show ?thesis by simp
  next
    case False
    with v show ?thesis by simp
  qed
qed

theorem validated_submit_outcome_witness:
  "validate 1767657600000
     (initial_form\<lparr>email := ''a@b.com'', letter := ''hi'', deliveryDate := ''2026-01-07''\<rparr>) = None \<or>
   (validate 1767657600000
     (initial_form\<lparr>email := ''a@b.com'', letter := ''hi'', deliveryDate := ''2026-01-07''\<rparr>) = Some PastDate \<and>
    1767614400000 div ms_per_day < 1767657600000 div ms_per_day)"
proof (rule validated_submit_outcome)
  show "constraint_valid 1767614400000
    (initial_form\<lparr>email := ''a@b.com'', letter := ''hi'', deliveryDate := ''2026-01-07''\<rparr>)"
    unfolding constraint_valid_def getMinDate_def
    by code_simp
qed (simp_all add: days_from_civil_def ms_per_day_def)

text \<open>
  C23. The past-date message does appear after the browser's validation: when the
  delivery date is the picker's minimum computed at the last render (clock \<open>r\<close>) and
  the email and letter are valid, the form passes the browser's checks, and
  \<open>handleSubmit\<close> at clock \<open>now\<close> refuses it as a past date exactly when the click
  falls on a later UTC day than the render (a page left open past midnight).
\<close>

theorem stale_min_past_date:
  assumes f: "email st \<noteq> []" "valid_email (email st)" "letter st \<noteq> []"
    and dd: "deliveryDate st = getMinDate r"
    and b: "days_from_civil 0 3 1 \<le> r div ms_per_day" "r div ms_per_day + 1 < days_from_civil 9600 3 1"
  shows "constraint_valid r st \<and>
         validate now st = (if r div ms_per_day < now div ms_per_day then Some PastDate else None)"
proof -
  from getMinDate_day [OF b] obtain y m d where
    mn: "parse_iso_date (getMinDate r) = Some (y, m, d)" and
    dm: "days_from_civil y m d = r div ms_per_day + 1" .
  have "constraint_valid r st"
    using f dd mn parse_iso_date_nonempty [OF mn] by (simp add: constraint_valid_def date_not_before_def)
  moreover have "validate now st = (if r div ms_per_day < now div ms_per_day then Some PastDate else None)"
    using f dd mn dm parse_iso_date_nonempty [OF mn]
    by (simp add: validate_def js_date_parse_Some day_ms_le_iff)
  ultimately show ?thesis ..
qed

theorem stale_min_past_date_witness:
  "constraint_valid 1767571199000
     (initial_form\<lparr>email := ''a@b.com'', letter := ''hi'', deliveryDate := getMinDate 1767571199000\<rparr>) \<and>
   validate 1767571201000
     (initial_form\<lparr>email := ''a@b.com'', letter := ''hi'', deliveryDate := getMinDate 1767571199000\<rparr>) =
   Some PastDate"
proof -
  have v: "valid_email ''a@b.com''" by code_simp
  have b: "days_from_civil 0 3 1 \<le> 1767571199000 div ms_per_day"
    "1767571199000 div ms_per_day + 1 < days_from_civil 9600 3 1"
    by (simp_all add: days_from_civil_def ms_per_day_def)
  from stale_min_past_date [of "initial_form\<lparr>email := ''a@b.com'', letter := ''hi'',
      deliveryDate := getMinDate 1767571199000\<rparr>", OF _ _ _ _ b]
  show ?thesis using v by (simp add: ms_per_day_def)
qed

end
