(* ===== verification/Controller.thy ===== *)
theory Controller
  imports Workflow
begin

text \<open>
  The SubmissionController of the specification as an abstract machine, and the page
  as its refinement. The abstract state is the controller's \<open>Idle\<close> (with the draft
  as the record it would submit), \<open>Submitting\<close> (with the record in flight) and
  \<open>Succeeded\<close> (with the sealed record). Its transitions are the specification's:
  the draft may change while idle, a submission with the three fields filled starts
  \<open>Submitting\<close> with that draft, the delay ends in \<open>Succeeded\<close> with the same record,
  and "create another" returns to \<open>Idle\<close> with an empty draft. A failed validation is a
  stutter (only the error text changes). \<open>ctrl_of\<close> reads the abstract state off the
  page: the sealed record, else the record of the pending timer, else the draft.
\<close>

datatype ctrl = Idle TimeCapsuleData | Submitting TimeCapsuleData | Succeeded TimeCapsuleData

definition empty_draft :: TimeCapsuleData where
  "empty_draft = \<lparr>email = [], letter = [], deliveryDate = [], files = []\<rparr>"

inductive ctrl_step :: "ctrl \<Rightarrow> ctrl \<Rightarrow> bool" where
  edit: "ctrl_step (Idle d) (Idle d')"
| submit: "email d \<noteq> [] \<Longrightarrow> letter d \<noteq> [] \<Longrightarrow> deliveryDate d \<noteq> [] \<Longrightarrow>
           ctrl_step (Idle d) (Submitting d)"
| complete: "ctrl_step (Submitting r) (Succeeded r)"
| create_new: "ctrl_step (Succeeded r) (Idle empty_draft)"

inductive_cases ctrl_step_SucceededE: "ctrl_step (Succeeded r) c"

definition ctrl_of :: "app_state \<Rightarrow> ctrl" where
  "ctrl_of s =
     (case submittedData s of
        Some r \<Rightarrow> Succeeded r
      | None \<Rightarrow> (case timers s of [] \<Rightarrow> Idle (submitted_data (form s)) | p # _ \<Rightarrow> Submitting (snd p)))"

text \<open>Records the abstract machine only ever holds with the three fields filled.\<close>

fun filled :: "ctrl \<Rightarrow> bool" where
  "filled (Idle d) = True"
| "filled (Submitting r) \<longleftrightarrow> email r \<noteq> [] \<and> letter r \<noteq> [] \<and> deliveryDate r \<noteq> []"
| "filled (Succeeded r) \<longleftrightarrow> email r \<noteq> [] \<and> letter r \<noteq> [] \<and> deliveryDate r \<noteq> []"

section \<open>Simulation\<close>

lemma submitted_data_initial: "submitted_data initial_form = empty_draft"
  by (simp add: submitted_data_def initial_form_def empty_draft_def)

lemma ctrl_of_init: "ctrl_of app_init = Idle empty_draft"
  by (simp add: ctrl_of_def app_init_def submitted_data_initial)

text \<open>An event that changes neither App's record nor the pending timers is a draft edit
  or a stutter.\<close>

lemma ctrl_frame:
  "submittedData s' = submittedData s \<Longrightarrow> timers s' = timers s \<Longrightarrow>
   ctrl_of s' = ctrl_of s \<or> ctrl_step (ctrl_of s) (ctrl_of s')"
  by (auto simp: ctrl_of_def intro: ctrl_step.edit split: option.splits list.splits)

lemma ctrl_frame_events:
  "(\<forall>now. e \<noteq> ClickSeal now) \<Longrightarrow> (\<forall>k. e \<noteq> TimerElapsed k) \<Longrightarrow> e \<noteq> ClickCreateNew \<Longrightarrow>
   submittedData (app_step s e) = submittedData s \<and> timers (app_step s e) = timers s"
  by (cases e) (auto simp: Let_def handleFileChange_eq split: prod.splits)

lemma ctrl_seal:
  assumes inv: "inv_timers s"
  shows "ctrl_of (app_step s (ClickSeal now)) = ctrl_of s \<or>
         ctrl_step (ctrl_of s) (ctrl_of (app_step s (ClickSeal now)))"
proof (cases "form_mounted s \<and> \<not> isLoading (form s) \<and> validate now (form s) = None")
  case True
  with inv have t: "timers s = []" and n: "submittedData s = None"
    by (auto simp: inv_timers_def form_mounted_def)
  from True have "email (form s) \<noteq> []" "letter (form s) \<noteq> []" "deliveryDate (form s) \<noteq> []"
    by (simp_all add: validate_None_iff)
  then have "ctrl_step (Idle (submitted_data (form s))) (Submitting (submitted_data (form s)))"
    by (intro ctrl_step.submit) simp_all
  with True t n show ?thesis by (simp add: ctrl_of_def handleSubmit_def form_mounted_def)
next
  case False
  then have "submittedData (app_step s (ClickSeal now)) = submittedData s \<and>
             timers (app_step s (ClickSeal now)) = timers s"
    by (auto simp: handleSubmit_def split: option.splits)
  then show ?thesis by (intro ctrl_frame) simp_all
qed

lemma ctrl_timer:
  assumes inv: "inv_timers s"
  shows "ctrl_of (app_step s (TimerElapsed k)) = ctrl_of s \<or>
         ctrl_step (ctrl_of s) (ctrl_of (app_step s (TimerElapsed k)))"
proof (cases "k < length (timers s)")
  case True
  with inv obtain g d where t: "timers s = [(g, d)]" and k: "k = 0" and n: "submittedData s = None"
    by (cases "timers s") (auto simp: inv_timers_def form_mounted_def)
  have "ctrl_step (Submitting d) (Succeeded d)" by (rule ctrl_step.complete)
  with t k n show ?thesis
    by (simp add: ctrl_of_def Let_def handleFormSubmit_def)
next
  case False
  then show ?thesis by simp
qed

lemma ctrl_create_new:
  assumes inv: "inv_timers s"
  shows "ctrl_of (app_step s ClickCreateNew) = ctrl_of s \<or>
         ctrl_step (ctrl_of s) (ctrl_of (app_step s ClickCreateNew))"
proof (cases "form_mounted s")
  case True
  then show ?thesis by simp
next
  case False
  with inv obtain r where r: "submittedData s = Some r" and t: "timers s = []"
    by (auto simp: inv_timers_def form_mounted_def)
  have "ctrl_step (Succeeded r) (Idle empty_draft)" by (rule ctrl_step.create_new)
  with False r t show ?thesis
    by (simp add: ctrl_of_def mount_form_def handleCreateNew_def submitted_data_initial)
qed

lemma submittedData_cleared:
  "submittedData s \<noteq> None \<Longrightarrow> submittedData (app_step s e) = None \<Longrightarrow> e = ClickCreateNew"
  by (cases e) (auto simp: Let_def handleFormSubmit_def form_mounted_def split: prod.splits if_splits)

lemma ctrl_sim:
  "inv_timers s \<Longrightarrow> ctrl_of (app_step s e) = ctrl_of s \<or> ctrl_step (ctrl_of s) (ctrl_of (app_step s e))"
proof -
  assume inv: "inv_timers s"
  consider (seal) now where "e = ClickSeal now" | (timer) k where "e = TimerElapsed k"
    | (create) "e = ClickCreateNew"
    | (other) "\<forall>now. e \<noteq> ClickSeal now" "\<forall>k. e \<noteq> TimerElapsed k" "e \<noteq> ClickCreateNew"
    by blast
  then show ?thesis
  proof cases
    case seal
    show ?thesis unfolding seal by (rule ctrl_seal [OF inv])
  next
    case timer
    show ?thesis unfolding timer by (rule ctrl_timer [OF inv])
  next
    case create
    show ?thesis unfolding create by (rule ctrl_create_new [OF inv])
  next
    case other
    then show ?thesis using ctrl_frame_events [OF other] by (intro ctrl_frame) simp_all
  qed
qed

lemma reach_ctrl: "reach P s \<Longrightarrow> ctrl_step\<^sup>*\<^sup>* (Idle empty_draft) (ctrl_of s)"
proof (induction rule: reach.induct)
  case start
  show ?case by (simp add: ctrl_of_init)
next
  case (step s e)
  from reach_invs [OF step.hyps(1)] have "inv_timers s" by simp
  from ctrl_sim [OF this, of e] step.IH show ?case
    by (auto intro: rtranclp.rtrancl_into_rtrancl)
qed

lemma filled_step: "ctrl_step c c' \<Longrightarrow> filled c \<Longrightarrow> filled c'"
  by (induction rule: ctrl_step.induct) simp_all

lemma filled_steps: "ctrl_step\<^sup>*\<^sup>* c c' \<Longrightarrow> filled c \<Longrightarrow> filled c'"
  by (induction rule: rtranclp_induct) (auto intro: filled_step)

lemma ctrl_of_Succeeded: "ctrl_of s = Succeeded r \<longleftrightarrow> submittedData s = Some r"
  by (simp add: ctrl_of_def split: option.split list.split)

section \<open>The page refines the specification's controller\<close>

text \<open>
  C24. Refinement: the page starts in the controller's \<open>Idle\<close> state with an empty
  draft, and every event in every reachable state either leaves the controller's
  state as it is or makes one of the specification's transitions.
\<close>

theorem controller_refines_spec:
  "ctrl_of app_init = Idle empty_draft \<and>
   (\<forall>s e. reachable s \<longrightarrow>
      ctrl_of (app_step s e) = ctrl_of s \<or> ctrl_step (ctrl_of s) (ctrl_of (app_step s e)))"
proof
  show "ctrl_of app_init = Idle empty_draft" by (rule ctrl_of_init)
  show "\<forall>s e. reachable s \<longrightarrow>
      ctrl_of (app_step s e) = ctrl_of s \<or> ctrl_step (ctrl_of s) (ctrl_of (app_step s e))"
  proof (intro allI impI)
    fix s e assume "reachable s"
    from reach_invs [OF this] have "inv_timers s" by simp
    then show "ctrl_of (app_step s e) = ctrl_of s \<or> ctrl_step (ctrl_of s) (ctrl_of (app_step s e))"
      by (rule ctrl_sim)
  qed
qed

theorem controller_refines_spec_witness:
  "ctrl_step (ctrl_of (app_step app_init (EditEmail ''a@b.com'')))
     (ctrl_of (app_step (app_step app_init (EditEmail ''a@b.com'')) (EditLetter ''hi'')))"
proof -
  let ?s = "app_step app_init (EditEmail ''a@b.com'')"
  have r: "reachable ?s" by (rule reach.step [OF reach.start]) simp
  have ne: "ctrl_of (app_step ?s (EditLetter ''hi'')) \<noteq> ctrl_of ?s"
    by (simp add: ctrl_of_def app_init_def form_mounted_def initial_form_def submitted_data_def)
  from controller_refines_spec r have
    "ctrl_of (app_step ?s (EditLetter ''hi'')) = ctrl_of ?s \<or>
     ctrl_step (ctrl_of ?s) (ctrl_of (app_step ?s (EditLetter ''hi'')))" by blast
  with ne show ?thesis by blast
qed

text \<open>
  C25. What the abstract machine guarantees holds of the page: every record App ever
  holds as sealed has its email, letter and delivery date filled in.
\<close>

theorem sealed_records_filled:
  "reachable s \<Longrightarrow> submittedData s = Some r \<Longrightarrow>
   email r \<noteq> [] \<and> letter r \<noteq> [] \<and> deliveryDate r \<noteq> []"
proof -
  assume "reachable s" and sd: "submittedData s = Some r"
  from reach_ctrl [OF this(1)] have "filled (ctrl_of s)" by (rule filled_steps) simp
  with sd show ?thesis by (simp add: ctrl_of_def)
qed

theorem sealed_records_filled_witness:
  "email (the (submittedData (app_run app_init [EditEmail ''a@b.com'', EditLetter ''hi'',
        EditDeliveryDate ''2026-01-05'', ClickSeal 1767484800000, TimerElapsed 0]))) \<noteq> [] \<and>
   letter (the (submittedData (app_run app_init [EditEmail ''a@b.com'', EditLetter ''hi'',
        EditDeliveryDate ''2026-01-05'', ClickSeal 1767484800000, TimerElapsed 0]))) \<noteq> [] \<and>
   deliveryDate (the (submittedData (app_run app_init [EditEmail ''a@b.com'', EditLetter ''hi'',
        EditDeliveryDate ''2026-01-05'', ClickSeal 1767484800000, TimerElapsed 0]))) \<noteq> []"
proof -
  let ?s = "app_run app_init [EditEmail ''a@b.com'', EditLetter ''hi'',
        EditDeliveryDate ''2026-01-05'', ClickSeal 1767484800000, TimerElapsed 0]"
  have r: "reachable ?s" by (rule reach_run [OF reach.start]) simp
  have sd: "submittedData ?s = Some (the (submittedData ?s))"
    by (simp add: app_init_def initial_form_def form_mounted_def handleSubmit_def validate_def
        date_parse_eval Let_def handleFormSubmit_def)
  from sealed_records_filled [OF r sd] show ?thesis .
qed

text \<open>
  C26. The sealed record is stable: while the success screen is shown, every event
  keeps App's record exactly as it is, except "Create Another Capsule", which (and
  only which) returns to an idle controller with an empty draft.
\<close>

theorem sealed_record_stable:
  "reachable s \<Longrightarrow> submittedData s = Some r \<Longrightarrow>
   submittedData (app_step s e) = Some r \<or>
   (e = ClickCreateNew \<and> ctrl_of (app_step s e) = Idle empty_draft)"
proof -
  assume "reachable s" and sd: "submittedData s = Some r"
  from reach_invs [OF this(1)] have "inv_timers s" by simp
  moreover from sd have "ctrl_of s = Succeeded r" by (simp add: ctrl_of_Succeeded)
  ultimately have
    "ctrl_of (app_step s e) = Succeeded r \<or> ctrl_step (Succeeded r) (ctrl_of (app_step s e))"
    using ctrl_sim [of s e] by simp
  then have c: "submittedData (app_step s e) = Some r \<or> ctrl_of (app_step s e) = Idle empty_draft"
    by (auto simp: ctrl_of_Succeeded elim: ctrl_step_SucceededE)
  show ?thesis
  proof (cases "submittedData (app_step s e) = Some r")
    case False
    with c have i: "ctrl_of (app_step s e) = Idle empty_draft" by simp
    have "submittedData (app_step s e) = None"
    proof (rule ccontr)
      assume "submittedData (app_step s e) \<noteq> None"
      then obtain a where "submittedData (app_step s e) = Some a" by auto
      then have "ctrl_of (app_step s e) = Succeeded a" by (simp add: ctrl_of_Succeeded)
      with i show False by simp
    qed
    with sd have "e = ClickCreateNew" by (intro submittedData_cleared) simp_all
    with i show ?thesis by simp
  qed simp
qed

theorem sealed_record_stable_witness:
  "submittedData (app_step (app_run app_init [EditEmail ''a@b.com'', EditLetter ''hi'',
        EditDeliveryDate ''2026-01-05'', ClickSeal 1767484800000, TimerElapsed 0]) ClickCreateNew) = Some (the (submittedData (app_run app_init [EditEmail ''a@b.com'', EditLetter ''hi'',
        EditDeliveryDate ''2026-01-05'', ClickSeal 1767484800000, TimerElapsed 0])))
   \<or> (ClickCreateNew = ClickCreateNew \<and> ctrl_of (app_step (app_run app_init [EditEmail ''a@b.com'', EditLetter ''hi'',
        EditDeliveryDate ''2026-01-05'', ClickSeal 1767484800000, TimerElapsed 0]) ClickCreateNew) = Idle empty_draft)"
proof -
  let ?s = "app_run app_init [EditEmail ''a@b.com'', EditLetter ''hi'',
        EditDeliveryDate ''2026-01-05'', ClickSeal 1767484800000, TimerElapsed 0]"
  have r: "reachable ?s" by (rule reach_run [OF reach.start]) simp
  have sd: "submittedData ?s = Some (the (submittedData ?s))"
    by (simp add: app_init_def initial_form_def form_mounted_def handleSubmit_def validate_def
        date_parse_eval Let_def handleFormSubmit_def)
  from sealed_record_stable [OF r sd] show ?thesis .
qed

end
