(* ===== verification/PreviewKinds.thy ===== *)
theory PreviewKinds
  imports Workflow
begin

text \<open>
  The kind of every entry of \<open>previews\<close>: the grid draws the document icon for the
  placeholder \<open>'non-image'\<close> and an \<open><img>\<close> for anything else, so the entries that
  reach an \<open><img>\<close> should be image data. \<open>image_token\<close> says an entry is the
  placeholder, \<open>null\<close> (a failed read) or a data URL of an \<open>image/\<close> media type; the
  reads in flight are reads of image files.
\<close>

fun image_token :: "string option \<Rightarrow> bool" where
  "image_token None = True"
| "image_token (Some u) \<longleftrightarrow> Some u = placeholder \<or> startsWith u ''data:image/''"

definition inv_kinds :: "app_state \<Rightarrow> bool" where
  "inv_kinds s \<longleftrightarrow> list_all image_token (previews (form s)) \<and> list_all (is_image \<circ> snd) (reads s)"

text \<open>A tile drawn as an \<open><img>\<close> has no source or an image data URL as source.\<close>

fun image_tile_ok :: "tile \<Rightarrow> bool" where
  "image_tile_ok (DocumentTile l) = True"
| "image_tile_ok (ImageTile None l) = True"
| "image_tile_ok (ImageTile (Some u) l) = startsWith u ''data:image/''"

section \<open>Lemmas\<close>

lemma data_url_image: "is_image f \<Longrightarrow> startsWith (data_url f) ''data:image/''"
proof -
  assume "is_image f"
  then obtain r where t: "type f = ''image/'' @ r" by (auto simp: is_image_def startsWith_iff)
  then show ?thesis by (simp add: data_url_def startsWith_iff)
qed

lemma image_token_read: "is_image f \<Longrightarrow> image_token (read_result f ok)"
  by (simp add: read_result_def data_url_image)

lemma inv_kinds_init: "inv_kinds app_init"
  by (simp add: inv_kinds_def app_init_def initial_form_def)

lemma inv_kinds_step:
  assumes inv: "inv_kinds s"
  shows "inv_kinds (app_step s e)"
proof (cases e)
  case (SelectFiles fs)
  with inv show ?thesis
    by (auto simp: inv_kinds_def handleFileChange_eq placeholder_def list_all_iff)
next
  case (ReadComplete k ok)
  show ?thesis
  proof (cases "k < length (reads s)")
    case True
    obtain g f where gf: "reads s ! k = (g, f)" by fastforce
    from True have "reads s ! k \<in> set (reads s)" by (rule nth_mem)
    with inv gf have "is_image f" by (auto simp: inv_kinds_def list_all_iff)
    then have "image_token (read_result f ok)" by (rule image_token_read)
    with inv True gf ReadComplete show ?thesis
      using set_remove_index_subset [of k "reads s"]
      by (auto simp: inv_kinds_def Let_def reader_onloadend_def list_all_iff)
  next
    case False
    with inv ReadComplete show ?thesis by simp
  qed
next
  case (ClickRemove k)
  with inv show ?thesis
    using set_remove_index_subset [of k "previews (form s)"]
    by (auto simp: inv_kinds_def removeFile_def list_all_iff)
next
  case (ClickSeal now)
  with inv show ?thesis by (auto simp: inv_kinds_def handleSubmit_def split: option.splits)
next
  case (TimerElapsed k)
  with inv show ?thesis
    by (auto simp: inv_kinds_def Let_def handleFormSubmit_def handleSubmit_resume_def
        split: prod.splits)
next
  case ClickCreateNew
  with inv show ?thesis
    by (simp add: inv_kinds_def mount_form_def handleCreateNew_def initial_form_def)
qed (use inv in \<open>simp_all add: inv_kinds_def\<close>)

lemma reach_inv_kinds: "reach P s \<Longrightarrow> inv_kinds s"
  by (induction rule: reach.induct) (simp_all add: inv_kinds_init inv_kinds_step)

lemma render_tiles_image_tokens:
  "render_tiles fs i ps = Some ts \<Longrightarrow> list_all image_token ps \<Longrightarrow> list_all image_tile_ok ts"
proof (induction fs i ps arbitrary: ts rule: render_tiles.induct)
  case (1 fs i)
  then show ?case by simp
next
  case (2 fs i p ps)
  then obtain ts' where ts: "render_tiles fs (Suc i) ps = Some ts'"
    "ts = (if p = placeholder then DocumentTile (name (fs ! i)) else ImageTile p (name (fs ! i))) # ts'"
    by (auto simp: Let_def split: if_splits)
  have i: "i < length fs" using "2.prems"(1) by (simp split: if_splits)
  have "list_all image_tile_ok ts'"
    using "2.IH" [OF i refl refl ts(1)] "2.prems"(2) by simp
  moreover have "image_tile_ok (ImageTile p l)" if "p \<noteq> placeholder" for l
    using "2.prems"(2) that by (cases p) auto
  ultimately show ?case using ts by simp
qed

section \<open>Properties of the previews\<close>

text \<open>
  C28. Image tiles show image data: in every reachable state, every tile of the
  memories grid drawn as an \<open><img>\<close> has no source (a failed read) or a data URL of an
  \<open>image/\<close> media type; a non-image file is never shown through an \<open><img>\<close> of its
  content.
\<close>

theorem image_tiles_show_images:
  "reachable s \<Longrightarrow> render_memories (form s) = Some ts \<Longrightarrow> list_all image_tile_ok ts"
proof -
  assume r: "reachable s" and ts: "render_memories (form s) = Some ts"
  from reach_inv_kinds [OF r] have k: "list_all image_token (previews (form s))"
    by (simp add: inv_kinds_def)
  show ?thesis
  proof (cases "files (form s) = []")
    case True
    with ts show ?thesis by (simp add: render_memories_def)
  next
    case False
    with ts have "render_tiles (files (form s)) 0 (previews (form s)) = Some ts"
      by (simp add: render_memories_def)
    from render_tiles_image_tokens [OF this k] show ?thesis .
  qed
qed

theorem image_tiles_show_images_witness:
  "list_all image_tile_ok (the (render_memories (form (app_run app_init
     [SelectFiles [\<lparr>name = ''a.png'', type = ''image/png'', bytes = [137]\<rparr>,
                   \<lparr>name = ''b.txt'', type = ''text/plain'', bytes = []\<rparr>],
      ReadComplete 0 True]))))"
proof -
  let ?s = "app_run app_init
     [SelectFiles [\<lparr>name = ''a.png'', type = ''image/png'', bytes = [137]\<rparr>,
                   \<lparr>name = ''b.txt'', type = ''text/plain'', bytes = []\<rparr>],
      ReadComplete 0 True]"
  have r: "reachable ?s" by (rule reach_run [OF reach.start]) simp
  have ts: "render_memories (form ?s) = Some (the (render_memories (form ?s)))"
    by (simp add: app_init_def initial_form_def form_mounted_def handleFileChange_eq Let_def
        reader_onloadend_def render_memories_def is_image_def placeholder_def)
  from image_tiles_show_images [OF r ts] show ?thesis .
qed

end
