(* ===== verification/Spec2Isabelle.thy ===== *)
theory Spec2Isabelle
  imports SuccessView EmbedCopy Constraints Controller PreviewKinds
begin

text \<open>
  \<^bold>\<open>Time Capsule: a verification library of the form workflow.\<close>

  The program (src/) is a React page. \<open>App\<close> (src/App.tsx) holds \<open>submittedData\<close> and
  \<open>showEmbedModal\<close> and shows either \<open>TimeCapsuleForm\<close> or \<open>SuccessScreen\<close>.
  \<open>TimeCapsuleForm\<close> (src/components/TimeCapsuleForm.tsx) holds the draft (email,
  letter, delivery date, files), the preview list, a busy flag and an error text; its
  handlers are \<open>handleFileChange\<close> (starts one \<open>FileReader\<close> per image, queues a
  placeholder per other file), \<open>removeFile\<close>, \<open>handleSubmit\<close> (two guards, then a
  2000 ms timer, then \<open>onFormSubmit\<close>) and \<open>getMinDate\<close>. \<open>SuccessScreen\<close> formats
  the delivery date; \<open>EmbedModal\<close> builds an iframe snippet.

  \<^bold>\<open>Theories.\<close>
  \<^item> Prelude: JavaScript primitives the code calls (\<open>filter\<close> with an index as
    \<open>filteri\<close>/\<open>remove_index\<close>, \<open>startsWith\<close>, string truthiness) and shared list,
    multiset and integer-division lemmas; the collection \<open>js_simps\<close>.
  \<^item> Files: the browser \<open>File\<close> (name, type, bytes), \<open>is_image\<close> (the
    \<open>'image/'\<close> test of handleFileChange) and the data URL a \<open>FileReader\<close> produces
    (base64 encoder, as the File API specifies); environment, not repository code.
  \<^item> JsDate: the \<open>Date\<close> built-in as the code uses it. \<open>js_date_parse\<close> is
    \<open>new Date(s)\<close> on the ECMAScript Date Time String Format, built from prefix
    parsers (\<open>p_year\<close>, \<open>p_date\<close>, \<open>p_time\<close>, \<open>p_offset\<close>): \<open>YYYY\<close>,
    \<open>YYYY-MM\<close>, \<open>YYYY-MM-DD\<close>, six-digit signed years, an optional time with an
    optional offset, every field range-checked, TimeClip; strings outside the format are
    \<open>NaN\<close> (\<open>None\<close>). \<open>parse_iso_date\<close> recognises a date input's value
    \<open>YYYY-MM-DD\<close>. Also \<open><=\<close> with \<open>NaN\<close> false, \<open>toISOString\<close>'s date part and
    the en-US long date of \<open>toLocaleDateString\<close>; day numbers by the era formulas.
  \<^item> Calendar: proofs about JsDate: decimal print/parse inverse, a printed date parses
    back, \<open>civil_from_days\<close> yields a valid date that \<open>days_from_civil\<close> maps back and
    recovers every valid date from its day number (\<open>days_from_civil_inverse\<close>), and
    \<open>days_from_civil\<close> equals the reference \<open>MakeDay\<close> of the ECMAScript definition
    for every year (\<open>days_from_civil_MakeDay\<close>), which ties the spec-modelled day
    numbers to the language definition.
  \<^item> Form: \<open>TimeCapsuleData\<close> (types.ts is not under src/, so it is modelled from its
    use) and the form state as that record extended by previews, isLoading, error.
  \<^item> Attachments: \<open>handleFileChange\<close> (with its \<open>forEach\<close> as \<open>preview_each\<close>),
    \<open>reader_onloadend\<close>, \<open>removeFile\<close>, the memories grid \<open>render_memories\<close> (a
    \<open>files[index].name\<close> past the end is a thrown \<open>TypeError\<close>, \<open>None\<close>).
  \<^item> Submission: the guards of \<open>handleSubmit\<close> as \<open>validate\<close>, \<open>handleSubmit\<close> up to
    its \<open>await\<close> (result \<open>Inl\<close> error or \<open>Inr\<close> the captured record), the
    continuation \<open>handleSubmit_resume\<close>, and \<open>getMinDate\<close>.
  \<^item> Workflow: the page as one machine. \<open>app_state\<close> is App's hooks, the mounted form,
    a form-instance counter (React remounts a fresh form when \<open>submittedData\<close> returns
    to \<open>null\<close> and drops updates of an unmounted one) and the callbacks still owed by the
    browser: reads in flight and pending timers, each tagged with its form instance.
    \<open>app_step\<close> handles one event: an edit, a file selection, the completion of any
    read in flight (so reads finish in any order), a click on an X, the seal button
    (only while not disabled), a timer, "Create Another", the embed buttons.
    \<open>reach P\<close> is the set of states reached by events satisfying \<open>P\<close>.
  \<^item> SuccessView: what \<open>SuccessScreen\<close> shows (the email and the long date) for App's
    \<open>submittedData\<close>.
  \<^item> Embed: \<open>EmbedModal\<close>'s \<open>embedCode\<close> with its quote escaping, and an HTML reader
    of the \<open>src\<close> attribute (\<open>src_value\<close>, \<open>unescape_quot\<close>) to state what it achieves;
    the modal's \<open>copied\<close> hook as \<open>embed_modal\<close> with \<open>handleCopy\<close>, the clipboard
    write's \<open>then\<close> callback (\<open>copy_resolved\<close>) and the 2000 ms reset
    (\<open>copy_timer_fired\<close>), stepped by \<open>modal_step\<close>; the modal invariant \<open>modal_inv\<close>.
    Workflow's \<open>app_state\<close> holds the modal (\<open>embed\<close>): showing it mounts a fresh
    instance (\<open>mount_modal\<close>), and its events are \<open>Modal\<close> events of the page. The
    modal's element tree (\<open>modal_node\<close>, \<open>parent\<close>) with each element's
    \<open>onClick\<close>, and the propagation path of a click (\<open>bubble\<close>, terminating because
    a parent precedes its child in document order).
  \<^item> Constraints: the browser's constraint validation of the form (\<open>required\<close>,
    \<open>type="email"\<close>, \<open>type="date"\<close> with \<open>min={getMinDate()}\<close>) that runs before the
    submit event reaches \<open>handleSubmit\<close>, as \<open>constraint_valid\<close> with the clock of the
    last render.
  \<^item> Controller: the specification's SubmissionController as an abstract machine
    (\<open>ctrl\<close>: \<open>Idle\<close>, \<open>Submitting\<close>, \<open>Succeeded\<close>; \<open>ctrl_step\<close>) and the map
    \<open>ctrl_of\<close> from page states; the page refines it.
  \<^item> PreviewKinds: the kind of every preview entry (placeholder, \<open>null\<close>, image data
    URL) as the invariant \<open>inv_kinds\<close> of reachable states.
  \<^item> EmbedCopy: the modal within the page: a click's handlers run along its
    propagation path until \<open>stopPropagation\<close> (\<open>dispatch\<close>, \<open>modal_click\<close>);
    form events never touch the modal, \<open>modal_inv\<close> holds in every reachable state,
    and the copy button's properties.

  \<^bold>\<open>What is proved.\<close>
  The page invariant \<open>app_inv\<close> (every reachable state): callbacks belong to the current
  or an earlier form instance; previews plus pending reads count the files; at most one
  timer, present exactly while the mounted form is busy. From it: the preview count
  (C1), the grid never reads past \<open>files\<close> (C2), a single submission in flight (C3),
  the record App receives is the draft at the click whatever interleaves (C4),
  "Create Another" gives a fresh idle form (C5) that no old read can write into (C6).
  The validator: the date rule is "strictly after the current UTC day" (C7), empty
  fields give only the error (C8). Removal shifts both arrays (C9). Findings shown as
  theorems about every state with the form mounted: selecting an image and then another
  file misaligns previews and captions (C10), a failed read shows as an image without
  source (C11), and removing a tile while an image read is in flight deletes the image
  and shows its late thumbnail under the other file's name (C16). Runs without removal
  or failed reads end with previews a permutation of the expected ones (C12).
  The success screen prints the picked date itself, through \<open>new Date\<close>'s parse of
  \<open>date + 'T00:00:00'\<close>, the day number and back (C13). The embed snippet: the address
  cannot add or close attributes (C14), and it is read back from \<open>src\<close> when it has no
  \<open>&\<close> (C15). The picker's minimum \<open>getMinDate now\<close> passes the validator at the
  same clock (C17). The copy button: "Copied!" always has a pending timer that clears it
  (C18), a copy puts \<open>embedCode href\<close> on the clipboard (C19), on any shown modal a
  second copy's label is cleared early by the first copy's timer (C20, no
  \<open>clearTimeout\<close>), and no stale write or timer of an earlier modal can show "Copied!"
  without a click (C21). After the browser's validation, \<open>handleSubmit\<close>'s
  missing-fields branch is dead and the past-date branch is taken only when the click is
  on a later UTC day than the render (C22); with the picker's minimum chosen it is taken
  exactly then (C23). The page refines the specification's controller (C24), so every
  sealed record has its fields filled (C25) and stays as it is until "Create Another",
  the only event that leaves the success screen (C26). A click on the modal closes it
  exactly on the backdrop, the X or its icon, and starts a copy exactly on the copy
  button, by the bubbling of the JSX tree (C27). Every \<open><img>\<close> tile of the grid shows
  no source or an image data URL (C28).

  \<^bold>\<open>Modelling choices.\<close> The clock is the event's parameter. No fuel is needed: every
  handler is a terminating function and the event loop is a run over an event list.
  \<open>getMinDate\<close> adds 24 hours, which is \<open>setDate(+1)\<close> away from a daylight-saving
  change. A disabled or absent control cannot fire, so its event leaves the state
  unchanged. Dates are kept in UTC; the local time zone only matters for
  \<open>toLocaleDateString\<close>, whose input is a local midnight whose calendar date is the one
  written; a date-time string without offset is read in the model's local zone, UTC.
  The calendar theorems hold from 0000-03-01 to 9600-03-01: below, years are
  negative and printed in the six-digit form the parser rejects; the upper bound is
  where the era bound used in the proof ends (years up to 9999 print in four digits).
  The era formulas are checked by evaluation on one 400-year era and one year.

  \<^bold>\<open>Not modelled.\<close> The time zone offset in \<open>getMinDate\<close>'s \<open>setDate\<close> (the
  model's clock is UTC). The implementation-defined fallback of \<open>new Date(s)\<close> for
  strings outside the Date Time String Format (V8, for one, rolls \<open>2020-02-30\<close> over to
  March 1): the model is an engine without such heuristics, and the form only ever
  parses date-input values, which are in the format. Browser deviations from the File
  API (Chromium's \<open>data:\<close> for an empty file) are not modelled. Styling, icons, header and footer are static markup with no
  state. No code of the program loops: every handler is a finite pass over its input,
  so there is no termination property to state beyond the totality of the functions.
\<close>

end
